theory Spec2Isabelle
  imports Complex_Main "HOL-Library.Multiset"
begin

section \<open>The reward predictors of rl-teacher\<close>

text \<open>
  The module \<open>rl_teacher/reward_predictors.py\<close> defines two predictors.
  \<open>TraditionalRLRewardPredictor\<close> hands back the reward of the environment.
  \<open>ComparisonRewardPredictor\<close> builds a TensorFlow graph that scores two trajectory
  segments, trains it on labelled comparisons, and keeps two accumulate-and-reset step
  counters that decide when to train and when to checkpoint.

  How the Python is read here:
  \<^item> an exception is a value of the type \<open>error\<close>; a method that can raise returns
    \<open>error + 'a\<close>, with \<open>Inl\<close> the exception, and the object as the exception left it is
    not kept;
  \<^item> a method takes the object and returns it updated; the fields keep their names;
  \<^item> floats are idealised as reals, so the thresholds \<open>2e3\<close> and \<open>2e4\<close> are the reals 2000
    and 20000, compared with the integer counters as Python compares them;
  \<^item> numpy and TensorFlow are libraries: each operation the module calls is defined below
    with the meaning its documentation gives it, on lists;
  \<^item> the other modules of the repository are collaborators, taken as parameters.
\<close>

subsection \<open>Exceptions\<close>

datatype error =
    UnboundLocalError string   \<comment> \<open>a local variable read before any assignment\<close>
  | FeedShapeError string      \<comment> \<open>ValueError of Session.run: "Cannot feed value of shape ..."\<close>
  | InvalidArgumentError       \<comment> \<open>a TensorFlow op rejecting its operands at run time\<close>
  | AxisError                  \<comment> \<open>numpy: axis out of bounds\<close>
  | ValueError                 \<comment> \<open>random.sample with k > len\<close>
  | IndexError                 \<comment> \<open>a tuple indexed out of range\<close>
  | NaNResult                  \<comment> \<open>not an exception: the float nan, which the reals do not have\<close>
  | CollaboratorError string   \<comment> \<open>anything raised by a collaborator\<close>

definition ebind :: "error + 'a \<Rightarrow> ('a \<Rightarrow> error + 'b) \<Rightarrow> error + 'b" where
  "ebind m f = (case m of Inl e \<Rightarrow> Inl e | Inr x \<Rightarrow> f x)"

subsection \<open>Paths, segments, comparisons\<close>

text \<open>
  An action is a scalar index (discrete action space) or a vector (continuous one).
  A path and a segment are the dictionaries of the source, with the keys the module reads.
\<close>

datatype action = Scalar real | Vector "real list"

record 'o path =
  obs :: "'o list"
  actions :: "action list"
  original_rewards :: "real list"

record 'o segment =
  seg_obs :: "'o list"
  seg_actions :: "action list"

record comparison =
  left :: nat
  right :: nat
  label :: int

subsection \<open>TraditionalRLRewardPredictor\<close>

record 'l traditional_predictor =
  agent_logger :: 'l

text \<open>Each method returns its result together with the object after the call.\<close>

definition trad_predict_reward ::
  "'l traditional_predictor \<Rightarrow> 'o path \<Rightarrow> real list \<times> 'l traditional_predictor" where
  "trad_predict_reward self path = (original_rewards path, self)"

definition trad_path_callback :: "'l traditional_predictor \<Rightarrow> 'o path \<Rightarrow> 'l traditional_predictor" where
  "trad_path_callback self path = self"

subsection \<open>numpy arrays\<close>

text \<open>
  \<open>np.asarray\<close> of a list of rows. The shape is \<open>(0,)\<close> for the empty list,
  \<open>(B, 0)\<close> for \<open>B\<close> empty rows, \<open>(B, T) + s\<close> for \<open>B\<close> rows of \<open>T\<close> elements of shape
  \<open>s\<close>; ragged input has no rectangular shape (\<open>None\<close>). The data are kept as rows.
\<close>

record 'e ndarray =
  nd_shape :: "nat list option"
  nd_rows :: "'e list list"

definition np_shape :: "('a \<Rightarrow> nat list) \<Rightarrow> 'a list list \<Rightarrow> nat list option" where
  "np_shape elem_shape rows =
     (case rows of
        [] \<Rightarrow> Some [0]
      | r # rs \<Rightarrow>
          if list_all (\<lambda>r'. length r' = length r) rs then
            (case r of
               [] \<Rightarrow> Some [length rows, 0]
             | e # es \<Rightarrow>
                 if list_all (list_all (\<lambda>e'. elem_shape e' = elem_shape e)) rows
                 then Some ([length rows, length r] @ elem_shape e)
                 else None)
          else None)"

definition np_asarray :: "('a \<Rightarrow> nat list) \<Rightarrow> ('a \<Rightarrow> 'e) \<Rightarrow> 'a list list \<Rightarrow> 'e ndarray" where
  "np_asarray elem_shape conv rows =
     \<lparr>nd_shape = np_shape elem_shape rows, nd_rows = map (map conv) rows\<rparr>"

text \<open>An action as array data: its shape and its entries in row-major order.\<close>

fun action_shape :: "action \<Rightarrow> nat list" where
  "action_shape (Scalar x) = []"
| "action_shape (Vector v) = [length v]"

fun action_entries :: "action \<Rightarrow> real list" where
  "action_entries (Scalar x) = [x]"
| "action_entries (Vector v) = v"

definition np_sum_axis1 :: "real list list \<Rightarrow> error + real list" where
  "np_sum_axis1 rows =
     (case np_shape (\<lambda>x. []) rows of
        None \<Rightarrow> Inl AxisError
      | Some sh \<Rightarrow> if length sh < 2 then Inl AxisError else Inr (map sum_list rows))"

subsection \<open>TensorFlow operations\<close>

text \<open>\<open>int(x)\<close> and \<open>tf.cast(x, tf.int32)\<close> truncate towards zero (32-bit overflow is left out).\<close>

definition py_int :: "real \<Rightarrow> int" where
  "py_int x = (if 0 \<le> x then \<lfloor>x\<rfloor> else \<lceil>x\<rceil>)"

definition tf_cast_int32 :: "real \<Rightarrow> int" where
  "tf_cast_int32 x = py_int x"

text \<open>\<open>tf.one_hot(i, depth)\<close>: 1.0 at position \<open>i\<close>, 0.0 elsewhere; all zeros when \<open>i\<close> is out of range.\<close>

definition tf_one_hot :: "int \<Rightarrow> nat \<Rightarrow> real list" where
  "tf_one_hot i depth = map (\<lambda>k. if int k = i then 1 else 0) [0..<depth]"

text \<open>One-hot of every entry of every cell: the new axis is the last one.\<close>

definition tf_one_hot_cells :: "nat \<Rightarrow> real list list list \<Rightarrow> real list list list" where
  "tf_one_hot_cells depth cells =
     map (map (\<lambda>c. concat (map (\<lambda>x. tf_one_hot (tf_cast_int32 x) depth) c))) cells"

text \<open>\<open>tf.argmax\<close> on a vector: the position of the first largest entry.\<close>

fun tf_argmax :: "real list \<Rightarrow> nat" where
  "tf_argmax [] = 0"
| "tf_argmax (x # xs) = (if list_all (\<lambda>y. y \<le> x) xs then 0 else Suc (tf_argmax xs))"

text \<open>\<open>tf.reshape(t, (-1,) + shape)\<close> with \<open>k\<close> the number of entries of \<open>shape\<close>.\<close>

definition tf_reshape_rows :: "nat \<Rightarrow> real list list list \<Rightarrow> error + real list list" where
  "tf_reshape_rows k cells =
     (let flat = concat (concat cells) in
      if k = 0 then Inl InvalidArgumentError
      else if length flat mod k = 0
        then Inr (map (\<lambda>i. take k (drop (i * k) flat)) [0..<length flat div k])
        else Inl InvalidArgumentError)"

text \<open>\<open>tf.reshape(t, (b, n))\<close> of a flat tensor.\<close>

definition tf_reshape2 :: "nat \<Rightarrow> nat \<Rightarrow> real list \<Rightarrow> error + real list list" where
  "tf_reshape2 b n xs =
     (if length xs = b * n then Inr (map (\<lambda>i. take n (drop (i * n) xs)) [0..<b])
      else Inl InvalidArgumentError)"

definition tf_reduce_sum_axis1 :: "real list list \<Rightarrow> real list" where
  "tf_reduce_sum_axis1 rows = map sum_list rows"

definition tf_stack_axis1 :: "real list \<Rightarrow> real list \<Rightarrow> error + real list list" where
  "tf_stack_axis1 xs ys =
     (if length xs = length ys then Inr (map (\<lambda>(x, y). [x, y]) (zip xs ys))
      else Inl InvalidArgumentError)"

text \<open>
  \<open>tf.nn.sparse_softmax_cross_entropy_with_logits\<close>: per example, the log of the sum of
  the exponentials of the logits minus the logit of the label. A label outside the
  classes is rejected.
\<close>

definition label_in_range :: "real list \<Rightarrow> int \<Rightarrow> bool" where
  "label_in_range row y = (0 \<le> y \<and> nat y < length row)"

definition sparse_softmax_cross_entropy_with_logits ::
  "real list list \<Rightarrow> int list \<Rightarrow> error + real list" where
  "sparse_softmax_cross_entropy_with_logits logits ys =
     (if length logits = length ys then
        (if list_all (\<lambda>(row, y). label_in_range row y) (zip logits ys)
         then Inr (map (\<lambda>(row, y). ln (sum_list (map exp row)) - row ! nat y) (zip logits ys))
         else Inl InvalidArgumentError)
      else Inl InvalidArgumentError)"

definition tf_reduce_mean :: "real list \<Rightarrow> error + real" where
  "tf_reduce_mean xs = (if xs = [] then Inl NaNResult else Inr (sum_list xs / real (length xs)))"

subsection \<open>Placeholders and feeds\<close>

text \<open>
  A placeholder has a shape whose unknown dimensions are \<open>None\<close>. \<open>Session.run\<close> refuses a
  fed array whose shape is not compatible with it, and an op that needs a placeholder
  that was not fed fails.
\<close>

definition is_compatible_with :: "nat option list \<Rightarrow> nat list \<Rightarrow> bool" where
  "is_compatible_with ph sh =
     list_all2 (\<lambda>d n. case d of None \<Rightarrow> True | Some m \<Rightarrow> m = n) ph sh"

definition feedable :: "nat option list \<Rightarrow> 'e ndarray option \<Rightarrow> bool" where
  "feedable ph fed =
     (case fed of
        None \<Rightarrow> True
      | Some a \<Rightarrow> (case nd_shape a of None \<Rightarrow> False | Some sh \<Rightarrow> is_compatible_with ph sh))"

record 'o feed_dict =
  segment_obs_placeholder :: "'o ndarray option"
  segment_act_placeholder :: "real list ndarray option"
  segment_alt_obs_placeholder :: "'o ndarray option"
  segment_alt_act_placeholder :: "real list ndarray option"
  labels :: "int list option"
  learning_phase :: bool

definition placeholder_value :: "'e ndarray option \<Rightarrow> error + 'e list list" where
  "placeholder_value fed = (case fed of None \<Rightarrow> Inl InvalidArgumentError | Some a \<Rightarrow> Inr (nd_rows a))"

definition labels_value :: "int list option \<Rightarrow> error + int list" where
  "labels_value fed = (case fed of None \<Rightarrow> Inl InvalidArgumentError | Some ys \<Rightarrow> Inr ys)"

subsection \<open>The graph of the pairwise model\<close>

text \<open>
  The scorer (\<open>SimpleConvolveObservationQNet\<close>) is a parameter: \<open>net w phase obs acts\<close>
  is \<open>network.run(obs, acts)\<close> under the weights \<open>w\<close> and the learning phase \<open>phase\<close>,
  as a flat list of values.
\<close>

type_synonym ('w, 'o) network = "'w \<Rightarrow> bool \<Rightarrow> 'o list \<Rightarrow> real list list \<Rightarrow> real list"

text \<open>
  \<open>_predict_rewards\<close>, on the values of its two argument tensors. An observation is one
  opaque entry of shape \<open>obs_shape\<close>, so reshaping the observations to
  \<open>(-1,) + obs_shape\<close> lists them segment after segment. \<open>tf.shape(obs_segments)[1]\<close> is
  read off the first segment; a batch without segments never gets here, the feed check
  refuses it.
\<close>

definition predict_rewards ::
  "('w, 'o) network \<Rightarrow> nat list \<Rightarrow> 'w \<Rightarrow> bool \<Rightarrow> 'o list list \<Rightarrow> real list list list
     \<Rightarrow> error + real list list" where
  "predict_rewards net act_shape w phase obs_segments act_segments =
     (let batchsize = length obs_segments;
          segment_length = (case obs_segments of [] \<Rightarrow> 0 | seg # _ \<Rightarrow> length seg);
          obs = concat obs_segments
      in ebind (tf_reshape_rows (prod_list act_shape) act_segments) (\<lambda>acts.
           let rewards = net w phase obs acts
           in tf_reshape2 batchsize segment_length rewards))"

record ('w, 'o) graph =
  obs_placeholder_shape :: "nat option list"
  act_placeholder_shape :: "nat option list"
  q_value :: "'w \<Rightarrow> 'o feed_dict \<Rightarrow> error + real list list"
  loss_op :: "'w \<Rightarrow> 'o feed_dict \<Rightarrow> error + real"

text \<open>Reading a local variable of a Python function: unbound names raise.\<close>

definition lookup_local :: "(string \<times> 'v) list \<Rightarrow> string \<Rightarrow> error + 'v" where
  "lookup_local locals name =
     (case map_of locals name of None \<Rightarrow> Inl (UnboundLocalError name) | Some v \<Rightarrow> Inr v)"

text \<open>
  \<open>_build_model\<close>. The two branches on \<open>discrete_action_space\<close> bind the local action
  tensors under the names the source gives them; the calls of \<open>_predict_rewards\<close> then
  read \<open>segment_act\<close> and \<open>segment_alt_act\<close>. A tensor is a function of the weights and
  the feed; \<open>alt_q_value\<close> and the logits are locals of the source and stay inside the
  loss. \<open>self.act_shape[0]\<close> raises on an empty tuple.
\<close>

definition build_model ::
  "('w, 'o) network \<Rightarrow> nat list \<Rightarrow> bool \<Rightarrow> nat list \<Rightarrow> error + ('w, 'o) graph" where
  "build_model net obs_shape discrete_action_space act_shape =
     ebind
       (if discrete_action_space then
          (case act_shape of
             [] \<Rightarrow> Inl IndexError
           | n # _ \<Rightarrow>
               Inr ([None, None],
                 [(''segment_act'', \<lambda>fd. ebind (placeholder_value (segment_act_placeholder fd))
                      (\<lambda>a. Inr (tf_one_hot_cells n a))),
                  (''segment_alt_act'', \<lambda>fd. ebind (placeholder_value (segment_alt_act_placeholder fd))
                      (\<lambda>a. Inr (tf_one_hot_cells n a)))]))
        else
          Inr ([None, None] @ map Some act_shape,
            [(''segment_act'', \<lambda>fd. placeholder_value (segment_act_placeholder fd)),
             (''segement_alt_act'', \<lambda>fd. placeholder_value (segment_alt_act_placeholder fd))]))
       (\<lambda>(act_ph, locals).
          ebind (lookup_local locals ''segment_act'') (\<lambda>segment_act.
          let q = (\<lambda>w fd.
                ebind (placeholder_value (segment_obs_placeholder fd)) (\<lambda>obs_segments.
                ebind (segment_act fd) (\<lambda>act_segments.
                  predict_rewards net act_shape w (learning_phase fd) obs_segments act_segments)))
          in
          ebind (lookup_local locals ''segment_alt_act'') (\<lambda>segment_alt_act.
          let alt_q = (\<lambda>w fd.
                ebind (placeholder_value (segment_alt_obs_placeholder fd)) (\<lambda>obs_segments.
                ebind (segment_alt_act fd) (\<lambda>act_segments.
                  predict_rewards net act_shape w (learning_phase fd) obs_segments act_segments)));
              loss = (\<lambda>w fd.
                ebind (q w fd) (\<lambda>q_val.
                ebind (alt_q w fd) (\<lambda>alt_q_val.
                  let segment_reward_pred_left = tf_reduce_sum_axis1 q_val;
                      segment_reward_pred_right = tf_reduce_sum_axis1 alt_q_val
                  in
                  ebind (tf_stack_axis1 segment_reward_pred_left segment_reward_pred_right) (\<lambda>reward_logits.
                  ebind (labels_value (labels fd)) (\<lambda>ys.
                  ebind (sparse_softmax_cross_entropy_with_logits reward_logits ys) (\<lambda>data_loss.
                    tf_reduce_mean data_loss))))))
          in Inr \<lparr>obs_placeholder_shape = [None, None] @ map Some obs_shape,
                  act_placeholder_shape = act_ph,
                  q_value = q,
                  loss_op = loss\<rparr>)))"

text \<open>
  \<open>Session.run\<close>: every fed array is checked against its placeholder first, then the
  requested tensor is evaluated.
\<close>

definition sess_run ::
  "('w, 'o) graph \<Rightarrow> ('w \<Rightarrow> 'o feed_dict \<Rightarrow> error + 'r) \<Rightarrow> 'w \<Rightarrow> 'o feed_dict \<Rightarrow> error + 'r" where
  "sess_run g fetch w fd =
     (if \<not> feedable (obs_placeholder_shape g) (segment_obs_placeholder fd)
        then Inl (FeedShapeError ''obs_placeholder'')
      else if \<not> feedable (act_placeholder_shape g) (segment_act_placeholder fd)
        then Inl (FeedShapeError ''act_placeholder'')
      else if \<not> feedable (obs_placeholder_shape g) (segment_alt_obs_placeholder fd)
        then Inl (FeedShapeError ''alt_obs_placeholder'')
      else if \<not> feedable (act_placeholder_shape g) (segment_alt_act_placeholder fd)
        then Inl (FeedShapeError ''alt_act_placeholder'')
      else fetch w fd)"

subsection \<open>Collaborators\<close>

text \<open>
  The comparison collector, the label schedule, the agent logger, the segment sampler,
  the random number generators, the scorer, the optimizer and the saver are not part of
  this module. They are parameters: \<open>'x\<close> is the state of everything outside the predictor
  (one state, since the collaborators may share objects), \<open>'w\<close> the weights held by the
  session, and every call that changes \<open>'x\<close> may raise. \<open>segments_len\<close> is
  \<open>len(comparison_collector._segments)\<close>, \<open>collector_len\<close> is \<open>len(comparison_collector)\<close>,
  \<open>randbelow\<close> draws the random numbers of \<open>random.sample\<close>, \<open>adam_minimize\<close> is one run
  of \<open>train_op\<close>, and the last three are \<open>Saver.save\<close>, \<open>tf.train.latest_checkpoint\<close> and
  \<open>Saver.restore\<close>.
\<close>

record ('x, 'w, 'o) collaborators =
  network_run :: "('w, 'o) network"
  adam_minimize :: "'w \<Rightarrow> 'o feed_dict \<Rightarrow> 'w"
  sample_segment_from_path :: "'x \<Rightarrow> 'o path \<Rightarrow> int \<Rightarrow> 'o segment option \<times> 'x"
  segments_len :: "'x \<Rightarrow> nat"
  add_segment :: "'x \<Rightarrow> 'o segment \<Rightarrow> error + 'x"
  collector_len :: "'x \<Rightarrow> nat"
  n_desired_labels :: "'x \<Rightarrow> real"
  invent_comparison :: "'x \<Rightarrow> error + 'x"
  label_unlabeled_comparisons :: "'x \<Rightarrow> error + 'x"
  labeled_decisive_comparisons :: "'x \<Rightarrow> comparison list"
  get_segment :: "'x \<Rightarrow> nat \<Rightarrow> 'o segment"
  randbelow :: "'x \<Rightarrow> nat \<Rightarrow> nat \<times> 'x"
  log_simple :: "'x \<Rightarrow> string \<Rightarrow> real \<Rightarrow> error + 'x"
  get_recent_paths_with_padding :: "'x \<Rightarrow> 'o path list"
  summary_step :: "'x \<Rightarrow> int"
  corrcoef :: "real list \<Rightarrow> real list \<Rightarrow> real"
  saver_save :: "'x \<Rightarrow> 'w \<Rightarrow> string \<Rightarrow> error + 'x"
  latest_checkpoint :: "'x \<Rightarrow> string \<Rightarrow> string option"
  saver_restore :: "'x \<Rightarrow> string \<Rightarrow> error + 'w"

text \<open>
  \<open>random.sample(population, k)\<close>: \<open>k\<close> entries at distinct positions, each drawn from
  the entries not yet taken.
\<close>

fun sample_loop :: "('x \<Rightarrow> nat \<Rightarrow> nat \<times> 'x) \<Rightarrow> 'x \<Rightarrow> 'a list \<Rightarrow> nat \<Rightarrow> 'a list \<times> 'x" where
  "sample_loop rb x pool 0 = ([], x)"
| "sample_loop rb x pool (Suc k) =
     (case rb x (length pool) of
        (r, x1) \<Rightarrow>
          (case sample_loop rb x1 (butlast (pool[r mod length pool := last pool])) k of
             (rest, x2) \<Rightarrow> (pool ! (r mod length pool) # rest, x2)))"

definition random_sample ::
  "('x \<Rightarrow> nat \<Rightarrow> nat \<times> 'x) \<Rightarrow> 'x \<Rightarrow> 'a list \<Rightarrow> nat \<Rightarrow> error + 'a list \<times> 'x" where
  "random_sample rb x population k =
     (if k \<le> length population then Inr (sample_loop rb x population k) else Inl ValueError)"

subsection \<open>ComparisonRewardPredictor\<close>

text \<open>
  The environment as the constructor reads it. A discrete action space has a
  cardinality \<open>n\<close> and no attribute \<open>shape\<close>; a continuous one has a shape.
\<close>

datatype action_space = Discrete nat | Box "nat list"

record env =
  fps :: real
  observation_space_shape :: "nat list"
  env_action_space :: action_space

text \<open>
  What the predictor asks of its collaborators, in the order of the calls. The list of
  these events (the field \<open>trace\<close> below) is not a field of the source: it records the
  calls a method made, so that properties can speak of them.
\<close>

datatype event =
    SegmentAdded
  | ComparisonsCounted
  | ComparisonInvented
  | TrainingPass
  | OptimizerStep nat
  | CheckpointSaved string
  | Logged string real

record ('x, 'w, 'o) predictor =
  experiment_name :: string
  frames_per_segment :: real
  steps_since_last_training :: int
  steps_since_last_checkpoint :: int
  n_timesteps_per_predictor_training :: real
  n_timesteps_per_checkpoint :: real
  elapsed_predictor_training_iters :: int
  num_checkpoints :: int
  obs_shape :: "nat list"
  discrete_action_space :: bool
  act_shape :: "nat list"
  graph :: "('w, 'o) graph"
  sess :: 'w
  world :: 'x
  trace :: "event list"

text \<open>\<open>__init__\<close>; \<open>w0\<close> are the freshly initialised weights, \<open>x0\<close> the collaborators handed in.\<close>

definition init ::
  "('x, 'w, 'o) collaborators \<Rightarrow> env \<Rightarrow> string \<Rightarrow> real \<Rightarrow> int \<Rightarrow> 'w \<Rightarrow> 'x
     \<Rightarrow> error + ('x, 'w, 'o) predictor" where
  "init K e name clip_length stacked_frames w0 x0 =
     (let shape0 = observation_space_shape e;
          shape1 = (if stacked_frames > 0 then shape0 @ [nat stacked_frames] else shape0);
          discrete = (case env_action_space e of Discrete n \<Rightarrow> True | Box sh \<Rightarrow> False);
          ashape = (case env_action_space e of Discrete n \<Rightarrow> [n] | Box sh \<Rightarrow> sh)
      in ebind (build_model (network_run K) shape1 discrete ashape) (\<lambda>g.
           Inr \<lparr>experiment_name = name,
                frames_per_segment = clip_length * fps e,
                steps_since_last_training = 0,
                steps_since_last_checkpoint = 0,
                n_timesteps_per_predictor_training = 2000,
                n_timesteps_per_checkpoint = 20000,
                elapsed_predictor_training_iters = 0,
                num_checkpoints = 0,
                obs_shape = shape1,
                discrete_action_space = discrete,
                act_shape = ashape,
                graph = g,
                sess = w0,
                world = x0,
                trace = []\<rparr>))"

text \<open>Observations are taken to have the configured shape.\<close>

definition obs_array :: "('x, 'w, 'o) predictor \<Rightarrow> 'o list list \<Rightarrow> 'o ndarray" where
  "obs_array s rows = np_asarray (\<lambda>ob. obs_shape s) (\<lambda>ob. ob) rows"

definition act_array :: "action list list \<Rightarrow> real list ndarray" where
  "act_array rows = np_asarray action_shape action_entries rows"

definition predict_reward ::
  "('x, 'w, 'o) predictor \<Rightarrow> 'o path \<Rightarrow> error + real list" where
  "predict_reward s path =
     ebind (sess_run (graph s) (q_value (graph s)) (sess s)
              \<lparr>segment_obs_placeholder = Some (obs_array s [obs path]),
               segment_act_placeholder = Some (act_array [actions path]),
               segment_alt_obs_placeholder = None,
               segment_alt_act_placeholder = None,
               labels = None,
               learning_phase = False\<rparr>)
       (\<lambda>q. case q of [] \<Rightarrow> Inl IndexError | r # _ \<Rightarrow> Inr r)"

text \<open>\<open>self.agent_logger.log_simple(key, value)\<close>.\<close>

definition call_log_simple ::
  "('x, 'w, 'o) collaborators \<Rightarrow> ('x, 'w, 'o) predictor \<Rightarrow> string \<Rightarrow> real
     \<Rightarrow> error + ('x, 'w, 'o) predictor" where
  "call_log_simple K s key v =
     ebind (log_simple K (world s) key v) (\<lambda>x.
       Inr (s\<lparr>world := x, trace := trace s @ [Logged key v]\<rparr>))"

definition write_training_summaries ::
  "('x, 'w, 'o) collaborators \<Rightarrow> ('x, 'w, 'o) predictor \<Rightarrow> real \<Rightarrow> error + ('x, 'w, 'o) predictor" where
  "write_training_summaries K s loss =
     ebind (call_log_simple K s ''predictor/loss'' loss) (\<lambda>s1.
     let recent_paths = get_recent_paths_with_padding K (world s1) in
     ebind
       (if length recent_paths > 1 \<and> summary_step K (world s1) mod 10 = 0 then
          (let validation_obs = obs_array s1 (map obs recent_paths);
               validation_acts = act_array (map actions recent_paths)
           in ebind (sess_run (graph s1) (q_value (graph s1)) (sess s1)
                       \<lparr>segment_obs_placeholder = Some validation_obs,
                        segment_act_placeholder = Some validation_acts,
                        segment_alt_obs_placeholder = None,
                        segment_alt_act_placeholder = None,
                        labels = None,
                        learning_phase = False\<rparr>) (\<lambda>q.
              let ep_reward_pred = map sum_list q in
              ebind (np_sum_axis1 (map original_rewards recent_paths)) (\<lambda>ep_reward_true.
                call_log_simple K s1 ''predictor/correlations''
                  (corrcoef K ep_reward_true ep_reward_pred))))
        else Inr s1) (\<lambda>s2.
     ebind (call_log_simple K s2 ''predictor/num_training_iters''
              (of_int (elapsed_predictor_training_iters s2))) (\<lambda>s3.
     ebind (call_log_simple K s3 ''labels/desired_labels'' (n_desired_labels K (world s3))) (\<lambda>s4.
     ebind (call_log_simple K s4 ''labels/total_comparisons''
              (real (collector_len K (world s4)))) (\<lambda>s5.
     call_log_simple K s5 ''labels/labeled_comparisons''
       (real (length (labeled_decisive_comparisons K (world s5)))))))))"

definition train_predictor ::
  "('x, 'w, 'o) collaborators \<Rightarrow> ('x, 'w, 'o) predictor \<Rightarrow> error + ('x, 'w, 'o) predictor" where
  "train_predictor K s =
     ebind (label_unlabeled_comparisons K (world s)) (\<lambda>x1.
     let pool = labeled_decisive_comparisons K x1;
         minibatch_size = min 128 (length pool)
     in
     ebind (random_sample (randbelow K) x1 pool minibatch_size) (\<lambda>(comparisons, x2).
     let left_segs = map (\<lambda>comp. get_segment K x2 (left comp)) comparisons;
         right_segs = map (\<lambda>comp. get_segment K x2 (right comp)) comparisons;
         fd = \<lparr>segment_obs_placeholder = Some (obs_array s (map seg_obs left_segs)),
               segment_act_placeholder = Some (act_array (map seg_actions left_segs)),
               segment_alt_obs_placeholder = Some (obs_array s (map seg_obs right_segs)),
               segment_alt_act_placeholder = Some (act_array (map seg_actions right_segs)),
               labels = Some (map label comparisons),
               learning_phase = True\<rparr>
     in
     ebind (sess_run (graph s) (loss_op (graph s)) (sess s) fd) (\<lambda>loss.
       write_training_summaries K
         (s\<lparr>world := x2,
            sess := adam_minimize K (sess s) fd,
            elapsed_predictor_training_iters := elapsed_predictor_training_iters s + 1,
            trace := trace s @ [OptimizerStep (length comparisons)]\<rparr>)
         loss)))"

text \<open>\<open>'%08d' % n\<close>: the decimal digits, padded with zeros on the left to width 8.\<close>

definition digit_char :: "nat \<Rightarrow> char" where
  "digit_char d = ''0123456789'' ! (d mod 10)"

fun decimal :: "nat \<Rightarrow> string" where
  "decimal n = (if n < 10 then [digit_char n] else decimal (n div 10) @ [digit_char n])"

declare decimal.simps [simp del]

definition zero_pad :: "nat \<Rightarrow> string \<Rightarrow> string" where
  "zero_pad width ds = replicate (width - length ds) CHR ''0'' @ ds"

definition format_08d :: "int \<Rightarrow> string" where
  "format_08d n =
     (if n < 0 then CHR ''-'' # zero_pad 7 (decimal (nat (- n))) else zero_pad 8 (decimal (nat n)))"

definition checkpoint_filename :: "('x, 'w, 'o) predictor \<Rightarrow> string" where
  "checkpoint_filename s =
     ''checkpoints/reward_model/'' @ experiment_name s @ ''/'' @ format_08d (num_checkpoints s)"

text \<open>\<open>os.path.dirname\<close> (posixpath).\<close>

definition rstrip_sep :: "string \<Rightarrow> string" where
  "rstrip_sep p = rev (dropWhile (\<lambda>c. c = CHR ''/'') (rev p))"

definition os_path_dirname :: "string \<Rightarrow> string" where
  "os_path_dirname p =
     (let i = length p - length (takeWhile (\<lambda>c. c \<noteq> CHR ''/'') (rev p));
          head = take i p
      in if head \<noteq> [] \<and> head \<noteq> replicate (length head) CHR ''/'' then rstrip_sep head else head)"


text \<open>
  \<open>path_callback\<close>. The sampler returns \<open>None\<close> or a segment, a non-empty dictionary: the
  test \<open>if segment\<close> is the test for \<open>Some\<close>.
\<close>

definition path_callback ::
  "('x, 'w, 'o) collaborators \<Rightarrow> ('x, 'w, 'o) predictor \<Rightarrow> 'o path \<Rightarrow> error + ('x, 'w, 'o) predictor" where
  "path_callback K s path =
     (let path_length = int (length (obs path));
          s1 = s\<lparr>steps_since_last_training := steps_since_last_training s + path_length,
                 steps_since_last_checkpoint := steps_since_last_checkpoint s + path_length\<rparr>
      in case sample_segment_from_path K (world s1) path (py_int (frames_per_segment s1)) of
        (sampled, x1) \<Rightarrow>
     ebind
       (case sampled of
          None \<Rightarrow> Inr (s1\<lparr>world := x1\<rparr>)
        | Some seg \<Rightarrow>
            if segments_len K x1 < 1000
            then ebind (add_segment K x1 seg) (\<lambda>x2.
                   Inr (s1\<lparr>world := x2, trace := trace s1 @ [SegmentAdded]\<rparr>))
            else Inr (s1\<lparr>world := x1\<rparr>)) (\<lambda>s2.
     ebind
       (if real (collector_len K (world s2)) < n_desired_labels K (world s2)
        then ebind (invent_comparison K (world s2)) (\<lambda>x3.
               Inr (s2\<lparr>world := x3, trace := trace s2 @ [ComparisonsCounted, ComparisonInvented]\<rparr>))
        else Inr (s2\<lparr>trace := trace s2 @ [ComparisonsCounted]\<rparr>)) (\<lambda>s3.
     ebind
       (if n_timesteps_per_predictor_training s3 \<le> of_int (steps_since_last_training s3)
        then ebind (train_predictor K (s3\<lparr>trace := trace s3 @ [TrainingPass]\<rparr>)) (\<lambda>s'.
               Inr (s'\<lparr>steps_since_last_training := 0\<rparr>))
        else Inr s3) (\<lambda>s4.
       if n_timesteps_per_checkpoint s4 \<le> of_int (steps_since_last_checkpoint s4)
       then (let s5 = s4\<lparr>num_checkpoints := num_checkpoints s4 + 1\<rparr> in
             ebind (saver_save K (world s5) (sess s5) (checkpoint_filename s5)) (\<lambda>x.
               Inr (s5\<lparr>world := x,
                       trace := trace s5 @ [CheckpointSaved (checkpoint_filename s5)],
                       steps_since_last_checkpoint := 0\<rparr>)))
       else Inr s4))))"

text \<open>A sequence of calls of \<open>path_callback\<close>; the first exception ends it.\<close>

fun run_callbacks ::
  "('x, 'w, 'o) collaborators \<Rightarrow> ('x, 'w, 'o) predictor \<Rightarrow> 'o path list
     \<Rightarrow> error + ('x, 'w, 'o) predictor" where
  "run_callbacks K s [] = Inr s"
| "run_callbacks K s (p # ps) = ebind (path_callback K s p) (\<lambda>s'. run_callbacks K s' ps)"

subsection \<open>The object as an exception leaves it\<close>

text \<open>
  An exception ends a method, but the assignments made before it stay. The methods of
  the predictor once more, statement by statement, now giving the exception raised, if
  any, together with the object as the call left it. What a collaborator did to its own
  state before it raised is not known here: the field \<open>world\<close> then keeps the state that
  the raising call was given.
\<close>

type_synonym ('x, 'w, 'o) outcome = "error option \<times> ('x, 'w, 'o) predictor"

text \<open>Sequencing: the statements after an exception are not run.\<close>

definition and_then ::
  "('x, 'w, 'o) outcome \<Rightarrow> (('x, 'w, 'o) predictor \<Rightarrow> ('x, 'w, 'o) outcome) \<Rightarrow> ('x, 'w, 'o) outcome" where
  "and_then r f = (case r of (None, s) \<Rightarrow> f s | (Some e, s) \<Rightarrow> (Some e, s))"

text \<open>A call that may raise, made on the object \<open>s\<close>.\<close>

definition attempt ::
  "('x, 'w, 'o) predictor \<Rightarrow> error + 'a \<Rightarrow> ('a \<Rightarrow> ('x, 'w, 'o) outcome) \<Rightarrow> ('x, 'w, 'o) outcome" where
  "attempt s r f = (case r of Inl e \<Rightarrow> (Some e, s) | Inr v \<Rightarrow> f v)"

definition call_log_simple_outcome ::
  "('x, 'w, 'o) collaborators \<Rightarrow> ('x, 'w, 'o) predictor \<Rightarrow> string \<Rightarrow> real \<Rightarrow> ('x, 'w, 'o) outcome" where
  "call_log_simple_outcome K s key v =
     attempt s (log_simple K (world s) key v) (\<lambda>x.
       (None, s\<lparr>world := x, trace := trace s @ [Logged key v]\<rparr>))"

definition write_training_summaries_outcome ::
  "('x, 'w, 'o) collaborators \<Rightarrow> ('x, 'w, 'o) predictor \<Rightarrow> real \<Rightarrow> ('x, 'w, 'o) outcome" where
  "write_training_summaries_outcome K s loss =
     and_then (call_log_simple_outcome K s ''predictor/loss'' loss) (\<lambda>s1.
     let recent_paths = get_recent_paths_with_padding K (world s1) in
     and_then
       (if length recent_paths > 1 \<and> summary_step K (world s1) mod 10 = 0 then
          (let validation_obs = obs_array s1 (map obs recent_paths);
               validation_acts = act_array (map actions recent_paths)
           in attempt s1 (sess_run (graph s1) (q_value (graph s1)) (sess s1)
                       \<lparr>segment_obs_placeholder = Some validation_obs,
                        segment_act_placeholder = Some validation_acts,
                        segment_alt_obs_placeholder = None,
                        segment_alt_act_placeholder = None,
                        labels = None,
                        learning_phase = False\<rparr>) (\<lambda>q.
              let ep_reward_pred = map sum_list q in
              attempt s1 (np_sum_axis1 (map original_rewards recent_paths)) (\<lambda>ep_reward_true.
                call_log_simple_outcome K s1 ''predictor/correlations''
                  (corrcoef K ep_reward_true ep_reward_pred))))
        else (None, s1)) (\<lambda>s2.
     and_then (call_log_simple_outcome K s2 ''predictor/num_training_iters''
              (of_int (elapsed_predictor_training_iters s2))) (\<lambda>s3.
     and_then (call_log_simple_outcome K s3 ''labels/desired_labels''
              (n_desired_labels K (world s3))) (\<lambda>s4.
     and_then (call_log_simple_outcome K s4 ''labels/total_comparisons''
              (real (collector_len K (world s4)))) (\<lambda>s5.
     call_log_simple_outcome K s5 ''labels/labeled_comparisons''
       (real (length (labeled_decisive_comparisons K (world s5)))))))))"

definition train_predictor_outcome ::
  "('x, 'w, 'o) collaborators \<Rightarrow> ('x, 'w, 'o) predictor \<Rightarrow> ('x, 'w, 'o) outcome" where
  "train_predictor_outcome K s =
     attempt s (label_unlabeled_comparisons K (world s)) (\<lambda>x1.
     let pool = labeled_decisive_comparisons K x1;
         minibatch_size = min 128 (length pool)
     in
     attempt (s\<lparr>world := x1\<rparr>) (random_sample (randbelow K) x1 pool minibatch_size)
       (\<lambda>(comparisons, x2).
     let left_segs = map (\<lambda>comp. get_segment K x2 (left comp)) comparisons;
         right_segs = map (\<lambda>comp. get_segment K x2 (right comp)) comparisons;
         fd = \<lparr>segment_obs_placeholder = Some (obs_array s (map seg_obs left_segs)),
               segment_act_placeholder = Some (act_array (map seg_actions left_segs)),
               segment_alt_obs_placeholder = Some (obs_array s (map seg_obs right_segs)),
               segment_alt_act_placeholder = Some (act_array (map seg_actions right_segs)),
               labels = Some (map label comparisons),
               learning_phase = True\<rparr>
     in
     attempt (s\<lparr>world := x2\<rparr>) (sess_run (graph s) (loss_op (graph s)) (sess s) fd) (\<lambda>loss.
       write_training_summaries_outcome K
         (s\<lparr>world := x2,
            sess := adam_minimize K (sess s) fd,
            elapsed_predictor_training_iters := elapsed_predictor_training_iters s + 1,
            trace := trace s @ [OptimizerStep (length comparisons)]\<rparr>)
         loss)))"

text \<open>
  \<open>path_callback\<close>: the counters are advanced first, the training counter is reset after
  \<open>train_predictor\<close> has returned, the checkpoint index is incremented before
  \<open>Saver.save\<close> and the checkpoint counter is reset after it.
\<close>

definition path_callback_outcome ::
  "('x, 'w, 'o) collaborators \<Rightarrow> ('x, 'w, 'o) predictor \<Rightarrow> 'o path \<Rightarrow> ('x, 'w, 'o) outcome" where
  "path_callback_outcome K s path =
     (let path_length = int (length (obs path));
          s1 = s\<lparr>steps_since_last_training := steps_since_last_training s + path_length,
                 steps_since_last_checkpoint := steps_since_last_checkpoint s + path_length\<rparr>
      in case sample_segment_from_path K (world s1) path (py_int (frames_per_segment s1)) of
        (sampled, x1) \<Rightarrow>
     and_then
       (case sampled of
          None \<Rightarrow> (None, s1\<lparr>world := x1\<rparr>)
        | Some seg \<Rightarrow>
            if segments_len K x1 < 1000
            then attempt (s1\<lparr>world := x1\<rparr>) (add_segment K x1 seg) (\<lambda>x2.
                   (None, s1\<lparr>world := x2, trace := trace s1 @ [SegmentAdded]\<rparr>))
            else (None, s1\<lparr>world := x1\<rparr>)) (\<lambda>s2.
     and_then
       (if real (collector_len K (world s2)) < n_desired_labels K (world s2)
        then attempt (s2\<lparr>trace := trace s2 @ [ComparisonsCounted]\<rparr>)
               (invent_comparison K (world s2)) (\<lambda>x3.
               (None, s2\<lparr>world := x3, trace := trace s2 @ [ComparisonsCounted, ComparisonInvented]\<rparr>))
        else (None, s2\<lparr>trace := trace s2 @ [ComparisonsCounted]\<rparr>)) (\<lambda>s3.
     and_then
       (if n_timesteps_per_predictor_training s3 \<le> of_int (steps_since_last_training s3)
        then and_then (train_predictor_outcome K (s3\<lparr>trace := trace s3 @ [TrainingPass]\<rparr>)) (\<lambda>s'.
               (None, s'\<lparr>steps_since_last_training := 0\<rparr>))
        else (None, s3)) (\<lambda>s4.
       if n_timesteps_per_checkpoint s4 \<le> of_int (steps_since_last_checkpoint s4)
       then (let s5 = s4\<lparr>num_checkpoints := num_checkpoints s4 + 1\<rparr> in
             attempt s5 (saver_save K (world s5) (sess s5) (checkpoint_filename s5)) (\<lambda>x.
               (None, s5\<lparr>world := x,
                       trace := trace s5 @ [CheckpointSaved (checkpoint_filename s5)],
                       steps_since_last_checkpoint := 0\<rparr>)))
       else (None, s4)))))"

text \<open>A sequence of calls, up to and including the first that raises.\<close>

fun run_callbacks_outcome ::
  "('x, 'w, 'o) collaborators \<Rightarrow> ('x, 'w, 'o) predictor \<Rightarrow> 'o path list \<Rightarrow> ('x, 'w, 'o) outcome" where
  "run_callbacks_outcome K s [] = (None, s)"
| "run_callbacks_outcome K s (p # ps) =
     and_then (path_callback_outcome K s p) (\<lambda>s'. run_callbacks_outcome K s' ps)"

subsection \<open>Notions used to state the properties\<close>

text \<open>
  The tensors that \<open>_build_model\<close> wires together, by name: the one-hot tensor of an action
  placeholder, the per-timestep scores of one stream, and the loss over two streams.
\<close>

definition one_hot_tensor ::
  "nat \<Rightarrow> ('o feed_dict \<Rightarrow> real list ndarray option) \<Rightarrow> 'o feed_dict \<Rightarrow> error + real list list list" where
  "one_hot_tensor n ph fd = ebind (placeholder_value (ph fd)) (\<lambda>a. Inr (tf_one_hot_cells n a))"

definition stream_q_value ::
  "('w, 'o) network \<Rightarrow> nat list \<Rightarrow> ('o feed_dict \<Rightarrow> 'o ndarray option)
     \<Rightarrow> ('o feed_dict \<Rightarrow> error + real list list list) \<Rightarrow> 'w \<Rightarrow> 'o feed_dict \<Rightarrow> error + real list list" where
  "stream_q_value net ashape obs_ph act_tensor w fd =
     ebind (placeholder_value (obs_ph fd)) (\<lambda>obs_segments.
     ebind (act_tensor fd) (\<lambda>act_segments.
       predict_rewards net ashape w (learning_phase fd) obs_segments act_segments))"

definition pairwise_loss ::
  "('w \<Rightarrow> 'o feed_dict \<Rightarrow> error + real list list) \<Rightarrow> ('w \<Rightarrow> 'o feed_dict \<Rightarrow> error + real list list)
     \<Rightarrow> 'w \<Rightarrow> 'o feed_dict \<Rightarrow> error + real" where
  "pairwise_loss q alt_q w fd =
     ebind (q w fd) (\<lambda>q_val.
     ebind (alt_q w fd) (\<lambda>alt_q_val.
     ebind (tf_stack_axis1 (tf_reduce_sum_axis1 q_val) (tf_reduce_sum_axis1 alt_q_val)) (\<lambda>reward_logits.
     ebind (labels_value (labels fd)) (\<lambda>ys.
     ebind (sparse_softmax_cross_entropy_with_logits reward_logits ys) tf_reduce_mean))))"

text \<open>The second dimension of a batch of segments, as \<open>tf.shape(obs_segments)[1]\<close> reads it.\<close>

definition segment_length :: "'a list list \<Rightarrow> nat" where
  "segment_length rows = (case rows of [] \<Rightarrow> 0 | seg # _ \<Rightarrow> length seg)"

text \<open>Exchanging the feeds of the two streams and flipping every label between 0 and 1.\<close>

definition flip_preference :: "'o feed_dict \<Rightarrow> 'o feed_dict" where
  "flip_preference fd =
     fd\<lparr>segment_obs_placeholder := segment_alt_obs_placeholder fd,
        segment_act_placeholder := segment_alt_act_placeholder fd,
        segment_alt_obs_placeholder := segment_obs_placeholder fd,
        segment_alt_act_placeholder := segment_act_placeholder fd,
        labels := map_option (map (\<lambda>y. 1 - y)) (labels fd)\<rparr>"

text \<open>Categorical cross-entropy as the spec words it: minus the log of the softmax at the label.\<close>

definition categorical_cross_entropy :: "real list \<Rightarrow> nat \<Rightarrow> real" where
  "categorical_cross_entropy logits y = - ln (exp (logits ! y) / sum_list (map exp logits))"

text \<open>
  What a step leaves alone: the configuration fixed by the constructor, the cadence
  counters, and (for logging) everything but the collaborators and the events.
\<close>

fun is_logged :: "event \<Rightarrow> bool" where
  "is_logged (Logged k v) = True"
| "is_logged e = False"

definition same_config :: "('x,'w,'o) predictor \<Rightarrow> ('x,'w,'o) predictor \<Rightarrow> bool" where
  "same_config s s' =
     (experiment_name s' = experiment_name s
      \<and> frames_per_segment s' = frames_per_segment s
      \<and> n_timesteps_per_predictor_training s' = n_timesteps_per_predictor_training s
      \<and> n_timesteps_per_checkpoint s' = n_timesteps_per_checkpoint s
      \<and> obs_shape s' = obs_shape s
      \<and> discrete_action_space s' = discrete_action_space s
      \<and> act_shape s' = act_shape s
      \<and> graph s' = graph s)"

definition same_counters :: "('x,'w,'o) predictor \<Rightarrow> ('x,'w,'o) predictor \<Rightarrow> bool" where
  "same_counters s s' =
     (steps_since_last_training s' = steps_since_last_training s
      \<and> steps_since_last_checkpoint s' = steps_since_last_checkpoint s
      \<and> num_checkpoints s' = num_checkpoints s)"

definition frame :: "('x,'w,'o) predictor \<Rightarrow> ('x,'w,'o) predictor \<Rightarrow> bool" where
  "frame s s' =
     (same_config s s' \<and> same_counters s s'
      \<and> elapsed_predictor_training_iters s' = elapsed_predictor_training_iters s
      \<and> sess s' = sess s
      \<and> (\<exists>evs. trace s' = trace s @ evs \<and> list_all is_logged evs))"

text \<open>
  The gated steps of \<open>path_callback\<close> one by one, after the counters have advanced:
  submission of the sampled segment, the desired-comparison check, the training
  cadence and the checkpoint cadence.
\<close>

definition advance :: "('x,'w,'o) predictor \<Rightarrow> 'o path \<Rightarrow> ('x,'w,'o) predictor" where
  "advance s p = s\<lparr>steps_since_last_training := steps_since_last_training s + int (length (obs p)),
                 steps_since_last_checkpoint := steps_since_last_checkpoint s + int (length (obs p))\<rparr>"

definition submit_phase ::
  "('x, 'w, 'o) collaborators \<Rightarrow> ('x, 'w, 'o) predictor \<Rightarrow> 'o segment option \<Rightarrow> 'x
     \<Rightarrow> error + ('x, 'w, 'o) predictor" where
  "submit_phase K s1 sampled x1 =
       (case sampled of
          None \<Rightarrow> Inr (s1\<lparr>world := x1\<rparr>)
        | Some seg \<Rightarrow>
            if segments_len K x1 < 1000
            then ebind (add_segment K x1 seg) (\<lambda>x2.
                   Inr (s1\<lparr>world := x2, trace := trace s1 @ [SegmentAdded]\<rparr>))
            else Inr (s1\<lparr>world := x1\<rparr>))"

definition invent_phase ::
  "('x, 'w, 'o) collaborators \<Rightarrow> ('x, 'w, 'o) predictor \<Rightarrow> error + ('x, 'w, 'o) predictor" where
  "invent_phase K s2 =
       (if real (collector_len K (world s2)) < n_desired_labels K (world s2)
        then ebind (invent_comparison K (world s2)) (\<lambda>x3.
               Inr (s2\<lparr>world := x3, trace := trace s2 @ [ComparisonsCounted, ComparisonInvented]\<rparr>))
        else Inr (s2\<lparr>trace := trace s2 @ [ComparisonsCounted]\<rparr>))"

definition train_phase ::
  "('x, 'w, 'o) collaborators \<Rightarrow> ('x, 'w, 'o) predictor \<Rightarrow> error + ('x, 'w, 'o) predictor" where
  "train_phase K s3 =
       (if n_timesteps_per_predictor_training s3 \<le> of_int (steps_since_last_training s3)
        then ebind (train_predictor K (s3\<lparr>trace := trace s3 @ [TrainingPass]\<rparr>)) (\<lambda>s'.
               Inr (s'\<lparr>steps_since_last_training := 0\<rparr>))
        else Inr s3)"

definition checkpoint_phase ::
  "('x, 'w, 'o) collaborators \<Rightarrow> ('x, 'w, 'o) predictor \<Rightarrow> error + ('x, 'w, 'o) predictor" where
  "checkpoint_phase K s4 =
      (if n_timesteps_per_checkpoint s4 \<le> of_int (steps_since_last_checkpoint s4)
       then (let s5 = s4\<lparr>num_checkpoints := num_checkpoints s4 + 1\<rparr> in
             ebind (saver_save K (world s5) (sess s5) (checkpoint_filename s5)) (\<lambda>x.
               Inr (s5\<lparr>world := x,
                       trace := trace s5 @ [CheckpointSaved (checkpoint_filename s5)],
                       steps_since_last_checkpoint := 0\<rparr>)))
       else Inr s4)"

text \<open>The checkpoint files named by a sequence of events, and the events a call added.\<close>

fun saved_files :: "event list \<Rightarrow> string list" where
  "saved_files [] = []"
| "saved_files (CheckpointSaved f # es) = f # saved_files es"
| "saved_files (e # es) = saved_files es"

text \<open>
  The conditions of the gates, read off the state before the call: sampling gave a
  segment and the store holds fewer than 1000; a counter plus the path's length reaches
  its threshold.
\<close>

definition submitted :: "('x, 'w, 'o) collaborators \<Rightarrow> ('x, 'w, 'o) predictor \<Rightarrow> 'o path \<Rightarrow> bool" where
  "submitted K s p =
     (case sample_segment_from_path K (world s) p (py_int (frames_per_segment s)) of
        (sampled, x1) \<Rightarrow> sampled \<noteq> None \<and> segments_len K x1 < 1000)"

definition training_due :: "('x, 'w, 'o) predictor \<Rightarrow> 'o path \<Rightarrow> bool" where
  "training_due s p =
     (n_timesteps_per_predictor_training s
        \<le> of_int (steps_since_last_training s + int (length (obs p))))"

definition checkpoint_due :: "('x, 'w, 'o) predictor \<Rightarrow> 'o path \<Rightarrow> bool" where
  "checkpoint_due s p =
     (n_timesteps_per_checkpoint s
        \<le> of_int (steps_since_last_checkpoint s + int (length (obs p))))"

definition checkpoint_name :: "string \<Rightarrow> int \<Rightarrow> string" where
  "checkpoint_name name i = ''checkpoints/reward_model/'' @ name @ ''/'' @ format_08d i"

fun is_training_event :: "event \<Rightarrow> bool" where
  "is_training_event TrainingPass = True"
| "is_training_event (OptimizerStep k) = True"
| "is_training_event (Logged k v) = True"
| "is_training_event e = False"

text \<open>The collector on which the comparisons are counted: as the submission, if any, left it.\<close>

definition counted_world ::
  "('x, 'w, 'o) collaborators \<Rightarrow> ('x, 'w, 'o) predictor \<Rightarrow> 'o path \<Rightarrow> 'x \<Rightarrow> bool" where
  "counted_world K s p x2 =
     (case sample_segment_from_path K (world s) p (py_int (frames_per_segment s)) of
        (None, x1) \<Rightarrow> x2 = x1
      | (Some seg, x1) \<Rightarrow>
          if segments_len K x1 < 1000 then add_segment K x1 seg = Inr x2 else x2 = x1)"

definition new_events :: "('x, 'w, 'o) predictor \<Rightarrow> ('x, 'w, 'o) predictor \<Rightarrow> event list" where
  "new_events s s' = drop (length (trace s)) (trace s')"

definition total_steps :: "'o path list \<Rightarrow> int" where
  "total_steps paths = sum_list (map (\<lambda>p. int (length (obs p))) paths)"


fun logged_keys :: "event list \<Rightarrow> string list" where
  "logged_keys [] = []"
| "logged_keys (Logged k v # es) = k # logged_keys es"
| "logged_keys (e # es) = logged_keys es"

definition result_trace :: "error + ('x, 'w, 'o) predictor \<Rightarrow> event list" where
  "result_trace r = (case r of Inl e \<Rightarrow> [] | Inr s \<Rightarrow> trace s)"

text \<open>The validation branch of \<open>_write_training_summaries\<close>: its gate, its feed, the step.\<close>

definition validation_due :: "('x, 'w, 'o) collaborators \<Rightarrow> 'x \<Rightarrow> bool" where
  "validation_due K x =
     (1 < length (get_recent_paths_with_padding K x) \<and> summary_step K x mod 10 = 0)"

definition validation_feed :: "('x, 'w, 'o) predictor \<Rightarrow> 'o path list \<Rightarrow> 'o feed_dict" where
  "validation_feed s recent_paths =
     \<lparr>segment_obs_placeholder = Some (obs_array s (map obs recent_paths)),
      segment_act_placeholder = Some (act_array (map actions recent_paths)),
      segment_alt_obs_placeholder = None,
      segment_alt_act_placeholder = None,
      labels = None,
      learning_phase = False\<rparr>"

definition validation_step ::
  "('x, 'w, 'o) collaborators \<Rightarrow> ('x, 'w, 'o) predictor \<Rightarrow> error + ('x, 'w, 'o) predictor" where
  "validation_step K s1 =
     (if validation_due K (world s1) then
        ebind (sess_run (graph s1) (q_value (graph s1)) (sess s1)
                 (validation_feed s1 (get_recent_paths_with_padding K (world s1)))) (\<lambda>q.
        ebind (np_sum_axis1 (map original_rewards (get_recent_paths_with_padding K (world s1))))
          (\<lambda>ep_reward_true.
             call_log_simple K s1 ''predictor/correlations''
               (corrcoef K ep_reward_true (map sum_list q))))
      else Inr s1)"

text \<open>
  What an outcome means for the caller: the object if the call returned, the exception
  otherwise.
\<close>

definition returned :: "('x, 'w, 'o) outcome \<Rightarrow> error + ('x, 'w, 'o) predictor" where
  "returned r = (case r of (None, s) \<Rightarrow> Inr s | (Some e, s) \<Rightarrow> Inl e)"

text \<open>An outcome that left the configuration and the cadence counters as they were.\<close>

definition cadence_kept :: "('x, 'w, 'o) predictor \<Rightarrow> ('x, 'w, 'o) outcome \<Rightarrow> bool" where
  "cadence_kept s r = (same_config s (snd r) \<and> same_counters s (snd r))"

text \<open>The gated steps of \<open>path_callback\<close> once more, with the object kept on an exception.\<close>

definition submit_outcome ::
  "('x, 'w, 'o) collaborators \<Rightarrow> ('x, 'w, 'o) predictor \<Rightarrow> 'o segment option \<Rightarrow> 'x
     \<Rightarrow> ('x, 'w, 'o) outcome" where
  "submit_outcome K s1 sampled x1 =
       (case sampled of
          None \<Rightarrow> (None, s1\<lparr>world := x1\<rparr>)
        | Some seg \<Rightarrow>
            if segments_len K x1 < 1000
            then attempt (s1\<lparr>world := x1\<rparr>) (add_segment K x1 seg) (\<lambda>x2.
                   (None, s1\<lparr>world := x2, trace := trace s1 @ [SegmentAdded]\<rparr>))
            else (None, s1\<lparr>world := x1\<rparr>))"

definition invent_outcome ::
  "('x, 'w, 'o) collaborators \<Rightarrow> ('x, 'w, 'o) predictor \<Rightarrow> ('x, 'w, 'o) outcome" where
  "invent_outcome K s2 =
       (if real (collector_len K (world s2)) < n_desired_labels K (world s2)
        then attempt (s2\<lparr>trace := trace s2 @ [ComparisonsCounted]\<rparr>)
               (invent_comparison K (world s2)) (\<lambda>x3.
               (None, s2\<lparr>world := x3, trace := trace s2 @ [ComparisonsCounted, ComparisonInvented]\<rparr>))
        else (None, s2\<lparr>trace := trace s2 @ [ComparisonsCounted]\<rparr>))"

definition train_outcome ::
  "('x, 'w, 'o) collaborators \<Rightarrow> ('x, 'w, 'o) predictor \<Rightarrow> ('x, 'w, 'o) outcome" where
  "train_outcome K s3 =
       (if n_timesteps_per_predictor_training s3 \<le> of_int (steps_since_last_training s3)
        then and_then (train_predictor_outcome K (s3\<lparr>trace := trace s3 @ [TrainingPass]\<rparr>)) (\<lambda>s'.
               (None, s'\<lparr>steps_since_last_training := 0\<rparr>))
        else (None, s3))"

definition checkpoint_outcome ::
  "('x, 'w, 'o) collaborators \<Rightarrow> ('x, 'w, 'o) predictor \<Rightarrow> ('x, 'w, 'o) outcome" where
  "checkpoint_outcome K s4 =
      (if n_timesteps_per_checkpoint s4 \<le> of_int (steps_since_last_checkpoint s4)
       then (let s5 = s4\<lparr>num_checkpoints := num_checkpoints s4 + 1\<rparr> in
             attempt s5 (saver_save K (world s5) (sess s5) (checkpoint_filename s5)) (\<lambda>x.
               (None, s5\<lparr>world := x,
                       trace := trace s5 @ [CheckpointSaved (checkpoint_filename s5)],
                       steps_since_last_checkpoint := 0\<rparr>)))
       else (None, s4))"

text \<open>
  The feed of one training step: the observations and actions of the left and right
  segments of the sampled comparisons, and their labels.
\<close>

definition training_feed ::
  "('x, 'w, 'o) collaborators \<Rightarrow> ('x, 'w, 'o) predictor \<Rightarrow> 'x \<Rightarrow> comparison list \<Rightarrow> 'o feed_dict" where
  "training_feed K s x2 comparisons =
     (let left_segs = map (\<lambda>comp. get_segment K x2 (left comp)) comparisons;
          right_segs = map (\<lambda>comp. get_segment K x2 (right comp)) comparisons
      in \<lparr>segment_obs_placeholder = Some (obs_array s (map seg_obs left_segs)),
          segment_act_placeholder = Some (act_array (map seg_actions left_segs)),
          segment_alt_obs_placeholder = Some (obs_array s (map seg_obs right_segs)),
          segment_alt_act_placeholder = Some (act_array (map seg_actions right_segs)),
          labels = Some (map label comparisons),
          learning_phase = True\<rparr>)"

subsection \<open>A small scorer and feed, for concrete instances\<close>

definition toy_net :: "(int, nat) network" where
  "toy_net w phase obs_rows act_rows =
     map (\<lambda>(ob, a). of_int w * real ob + real (tf_argmax a)) (zip obs_rows act_rows)"

definition toy_feed :: "nat feed_dict" where
  "toy_feed =
     \<lparr>segment_obs_placeholder = Some (np_asarray (\<lambda>ob. []) (\<lambda>ob. ob) [[1, 2]]),
      segment_act_placeholder = Some (act_array [[Scalar 0, Scalar 1]]),
      segment_alt_obs_placeholder = Some (np_asarray (\<lambda>ob. []) (\<lambda>ob. ob) [[3, 4]]),
      segment_alt_act_placeholder = Some (act_array [[Scalar 1, Scalar 1]]),
      labels = Some [1],
      learning_phase = True\<rparr>"

definition toy_graph :: "(int, nat) graph" where
  "toy_graph =
     \<lparr>obs_placeholder_shape = [None, None],
      act_placeholder_shape = [None, None],
      q_value = stream_q_value toy_net [2] segment_obs_placeholder
                  (one_hot_tensor 2 segment_act_placeholder),
      loss_op = pairwise_loss
                  (stream_q_value toy_net [2] segment_obs_placeholder
                     (one_hot_tensor 2 segment_act_placeholder))
                  (stream_q_value toy_net [2] segment_alt_obs_placeholder
                     (one_hot_tensor 2 segment_alt_act_placeholder))\<rparr>"

text \<open>A small instance of the collaborators: a collector with two segments and one labelled comparison.\<close>

text \<open>
  Modelled from the spec: \<open>rl_teacher.utils.corrcoef\<close> is not part of the source at hand;
  the spec calls it the Pearson correlation coefficient of two samples.
\<close>

definition mean :: "real list \<Rightarrow> real" where
  "mean xs = sum_list xs / real (length xs)"

definition pearson :: "real list \<Rightarrow> real list \<Rightarrow> real" where
  "pearson xs ys =
     sum_list (map (\<lambda>(x, y). (x - mean xs) * (y - mean ys)) (zip xs ys))
       / sqrt (sum_list (map (\<lambda>x. (x - mean xs)\<^sup>2) xs) * sum_list (map (\<lambda>y. (y - mean ys)\<^sup>2) ys))"

record toy_world =
  tw_segments :: "nat segment list"
  tw_comparisons :: "comparison list"
  tw_desired :: real
  tw_recent :: "nat path list"
  tw_summary_step :: int
  tw_log :: "(string \<times> real) list"
  tw_files :: "(string \<times> int) list"

definition toy :: "(toy_world, int, nat) collaborators" where
  "toy =
     \<lparr>network_run = toy_net,
      adam_minimize = (\<lambda>w fd. w),
      sample_segment_from_path = (\<lambda>x p n.
         (if int (length (obs p)) < n then None
          else Some \<lparr>seg_obs = take (nat n) (obs p), seg_actions = take (nat n) (actions p)\<rparr>, x)),
      segments_len = (\<lambda>x. length (tw_segments x)),
      add_segment = (\<lambda>x seg. Inr (x\<lparr>tw_segments := tw_segments x @ [seg]\<rparr>)),
      collector_len = (\<lambda>x. length (tw_comparisons x)),
      n_desired_labels = tw_desired,
      invent_comparison = (\<lambda>x.
         Inr (x\<lparr>tw_comparisons := tw_comparisons x @ [\<lparr>left = 0, right = 1, label = 0\<rparr>]\<rparr>)),
      label_unlabeled_comparisons = Inr,
      labeled_decisive_comparisons = tw_comparisons,
      get_segment = (\<lambda>x i. tw_segments x ! i),
      randbelow = (\<lambda>x n. (0, x)),
      log_simple = (\<lambda>x k v. Inr (x\<lparr>tw_log := tw_log x @ [(k, v)]\<rparr>)),
      get_recent_paths_with_padding = tw_recent,
      summary_step = tw_summary_step,
      corrcoef = pearson,
      saver_save = (\<lambda>x w f. Inr (x\<lparr>tw_files := tw_files x @ [(f, w)]\<rparr>)),
      latest_checkpoint = (\<lambda>x dir.
         case filter (\<lambda>(f, w). os_path_dirname f = dir) (rev (tw_files x)) of
           [] \<Rightarrow> None | (f, w) # _ \<Rightarrow> Some f),
      saver_restore = (\<lambda>x f.
         case map_of (rev (tw_files x)) f of None \<Rightarrow> Inl ValueError | Some w \<Rightarrow> Inr w)\<rparr>"

definition toy_env :: env where
  "toy_env = \<lparr>fps = 2, observation_space_shape = [], env_action_space = Discrete 2\<rparr>"

definition toy_world0 :: toy_world where
  "toy_world0 =
     \<lparr>tw_segments = [\<lparr>seg_obs = [1, 2], seg_actions = [Scalar 0, Scalar 1]\<rparr>,
                     \<lparr>seg_obs = [3, 4], seg_actions = [Scalar 1, Scalar 1]\<rparr>],
      tw_comparisons = [\<lparr>left = 0, right = 1, label = 1\<rparr>],
      tw_desired = 0,
      tw_recent = [],
      tw_summary_step = 0,
      tw_log = [],
      tw_files = []\<rparr>"

definition toy_path :: "nat \<Rightarrow> nat path" where
  "toy_path n = \<lparr>obs = replicate n 0, actions = replicate n (Scalar 0), original_rewards = replicate n 1\<rparr>"

definition toy_predictor :: "(toy_world, int, nat) predictor" where
  "toy_predictor =
     \<lparr>experiment_name = ''exp'',
      frames_per_segment = 2,
      steps_since_last_training = 0,
      steps_since_last_checkpoint = 0,
      n_timesteps_per_predictor_training = 2000,
      n_timesteps_per_checkpoint = 20000,
      elapsed_predictor_training_iters = 0,
      num_checkpoints = 0,
      obs_shape = [],
      discrete_action_space = True,
      act_shape = [2],
      graph = toy_graph,
      sess = 1,
      world = toy_world0,
      trace = []\<rparr>"

definition toy_ok :: "(toy_world, int, nat) predictor \<Rightarrow> bool" where
  "toy_ok s =
     (graph s = toy_graph \<and> obs_shape s = [] \<and> sess s = 1 \<and> frames_per_segment s = 2
      \<and> tw_comparisons (world s) = [\<lparr>left = 0, right = 1, label = 1\<rparr>]
      \<and> take 2 (tw_segments (world s)) = tw_segments toy_world0
      \<and> 2 \<le> length (tw_segments (world s))
      \<and> tw_recent (world s) = []
      \<and> tw_desired (world s) = 0
      \<and> tw_files (world s) = map (\<lambda>f. (f, 1)) (saved_files (trace s)))"

definition toy_late :: "(toy_world, int, nat) predictor" where
  "toy_late = toy_predictor\<lparr>steps_since_last_training := 1000,
                             steps_since_last_checkpoint := 19000\<rparr>"


definition toy_empty :: "(toy_world, int, nat) predictor" where
  "toy_empty = toy_predictor\<lparr>world := toy_world0\<lparr>tw_comparisons := []\<rparr>\<rparr>"

definition toy_recent :: "nat path list" where
  "toy_recent =
     [\<lparr>obs = [1, 2], actions = [Scalar 0, Scalar 1], original_rewards = [1, 0]\<rparr>,
      \<lparr>obs = [3, 4], actions = [Scalar 1, Scalar 1], original_rewards = [0, 2]\<rparr>]"

definition toy_first_iteration :: "(toy_world, int, nat) predictor" where
  "toy_first_iteration =
     toy_predictor\<lparr>elapsed_predictor_training_iters := 1,
                     world := toy_world0\<lparr>tw_recent := toy_recent, tw_summary_step := 0\<rparr>\<rparr>"

definition toy_tenth_iteration :: "(toy_world, int, nat) predictor" where
  "toy_tenth_iteration =
     toy_predictor\<lparr>elapsed_predictor_training_iters := 10,
                     world := toy_world0\<lparr>tw_recent := toy_recent, tw_summary_step := 3\<rparr>\<rparr>"

text \<open>
  The same collaborators with an optimizer whose step moves the weight by the number of
  labels fed, and a collector with 130 labelled comparisons over the two segments.
\<close>

definition toy_trainer :: "(toy_world, int, nat) collaborators" where
  "toy_trainer =
     toy\<lparr>adam_minimize := (\<lambda>w fd. w + (case labels fd of None \<Rightarrow> 0 | Some ys \<Rightarrow> int (length ys)))\<rparr>"

definition toy_crowded :: "(toy_world, int, nat) predictor" where
  "toy_crowded =
     toy_predictor\<lparr>world := toy_world0\<lparr>tw_comparisons :=
        map (\<lambda>i. \<lparr>left = i mod 2, right = Suc i mod 2, label = int (i mod 2)\<rparr>) [0..<130]\<rparr>\<rparr>"

text \<open>No labelled comparison, one step short of the training threshold.\<close>

definition toy_starved :: "(toy_world, int, nat) predictor" where
  "toy_starved = toy_empty\<lparr>steps_since_last_training := 1999,
                              steps_since_last_checkpoint := 1999\<rparr>"

section \<open>Properties\<close>

subsection \<open>Sequencing of fallible steps\<close>

lemma ebind_Inl [simp]: "ebind (Inl e) f = Inl e"
  by (simp add: ebind_def)

lemma ebind_Inr [simp]: "ebind (Inr x) f = f x"
  by (simp add: ebind_def)

lemma ebind_eq_Inr: "ebind m f = Inr y \<longleftrightarrow> (\<exists>x. m = Inr x \<and> f x = Inr y)"
  by (cases m) simp_all

subsection \<open>Logging and training leave the cadence state alone\<close>

lemma frame_refl: "frame s s"
  by (simp add: frame_def same_config_def same_counters_def)

lemma frame_trans: "frame a b \<Longrightarrow> frame b c \<Longrightarrow> frame a c"
  unfolding frame_def same_config_def same_counters_def by (elim conjE exE) simp

lemma frame_log: "call_log_simple K s key v = Inr s' \<Longrightarrow> frame s s'"
  by (auto simp: call_log_simple_def ebind_eq_Inr frame_def same_config_def same_counters_def)

lemma write_training_summaries_steps:
  assumes "write_training_summaries K s loss = Inr s'"
  obtains s1 s2 s3 s4 s5 where
    "call_log_simple K s ''predictor/loss'' loss = Inr s1"
    "s2 = s1 \<or> (\<exists>v. call_log_simple K s1 ''predictor/correlations'' v = Inr s2)"
    "call_log_simple K s2 ''predictor/num_training_iters''
       (of_int (elapsed_predictor_training_iters s2)) = Inr s3"
    "call_log_simple K s3 ''labels/desired_labels'' (n_desired_labels K (world s3)) = Inr s4"
    "call_log_simple K s4 ''labels/total_comparisons'' (real (collector_len K (world s4))) = Inr s5"
    "call_log_simple K s5 ''labels/labeled_comparisons''
       (real (length (labeled_decisive_comparisons K (world s5)))) = Inr s'"
proof -
  from assms obtain s1 s2 s3 s4 s5 where
    a: "call_log_simple K s ''predictor/loss'' loss = Inr s1"
    and b: "(if length (get_recent_paths_with_padding K (world s1)) > 1
               \<and> summary_step K (world s1) mod 10 = 0 then
          ebind (sess_run (graph s1) (q_value (graph s1)) (sess s1)
                       \<lparr>segment_obs_placeholder = Some (obs_array s1 (map obs (get_recent_paths_with_padding K (world s1)))),
                        segment_act_placeholder = Some (act_array (map actions (get_recent_paths_with_padding K (world s1)))),
                        segment_alt_obs_placeholder = None,
                        segment_alt_act_placeholder = None,
                        labels = None,
                        learning_phase = False\<rparr>) (\<lambda>q.
              ebind (np_sum_axis1 (map original_rewards (get_recent_paths_with_padding K (world s1)))) (\<lambda>ep_reward_true.
                call_log_simple K s1 ''predictor/correlations''
                  (corrcoef K ep_reward_true (map sum_list q))))
        else Inr s1) = Inr s2"
    and c: "call_log_simple K s2 ''predictor/num_training_iters''
       (of_int (elapsed_predictor_training_iters s2)) = Inr s3"
    and d: "call_log_simple K s3 ''labels/desired_labels'' (n_desired_labels K (world s3)) = Inr s4"
    and e: "call_log_simple K s4 ''labels/total_comparisons'' (real (collector_len K (world s4))) = Inr s5"
    and f: "call_log_simple K s5 ''labels/labeled_comparisons''
       (real (length (labeled_decisive_comparisons K (world s5)))) = Inr s'"
    unfolding write_training_summaries_def Let_def ebind_eq_Inr by blast
  from b have b': "s2 = s1 \<or> (\<exists>v. call_log_simple K s1 ''predictor/correlations'' v = Inr s2)"
    by (auto simp: ebind_eq_Inr split: if_splits)
  show thesis
    by (rule that[OF a b' c d e f])
qed

lemma write_training_summaries_frame:
  assumes "write_training_summaries K s loss = Inr s'"
  shows "frame s s'"
proof (rule write_training_summaries_steps[OF assms])
  fix s1 s2 s3 s4 s5
  assume a: "call_log_simple K s ''predictor/loss'' loss = Inr s1"
    and b: "s2 = s1 \<or> (\<exists>v. call_log_simple K s1 ''predictor/correlations'' v = Inr s2)"
    and c: "call_log_simple K s2 ''predictor/num_training_iters''
       (of_int (elapsed_predictor_training_iters s2)) = Inr s3"
    and d: "call_log_simple K s3 ''labels/desired_labels'' (n_desired_labels K (world s3)) = Inr s4"
    and e: "call_log_simple K s4 ''labels/total_comparisons'' (real (collector_len K (world s4))) = Inr s5"
    and f: "call_log_simple K s5 ''labels/labeled_comparisons''
       (real (length (labeled_decisive_comparisons K (world s5)))) = Inr s'"
  have "frame s1 s2"
    using b by (auto dest: frame_log simp: frame_refl)
  with frame_log[OF a] frame_log[OF c] frame_log[OF d] frame_log[OF e] frame_log[OF f]
  show "frame s s'"
    by (blast intro: frame_trans)
qed

lemma train_predictor_effect:
  assumes "train_predictor K s = Inr s'"
  shows "same_config s s' \<and> same_counters s s'
     \<and> elapsed_predictor_training_iters s' = elapsed_predictor_training_iters s + 1
     \<and> (\<exists>k evs. trace s' = trace s @ OptimizerStep k # evs \<and> list_all is_logged evs)"
proof -
  from assms obtain s1 loss k where w: "write_training_summaries K s1 loss = Inr s'"
    and s1: "same_config s s1" "same_counters s s1"
      "elapsed_predictor_training_iters s1 = elapsed_predictor_training_iters s + 1"
      "trace s1 = trace s @ [OptimizerStep k]"
    unfolding train_predictor_def Let_def
    by (auto simp: ebind_eq_Inr same_config_def same_counters_def)
  from write_training_summaries_frame[OF w] s1 show ?thesis
    unfolding frame_def same_config_def same_counters_def by auto
qed

lemma path_callback_phases:
  "path_callback K s p =
     (case sample_segment_from_path K (world s) p (py_int (frames_per_segment s)) of
        (sampled, x1) \<Rightarrow>
          ebind (submit_phase K (advance s p) sampled x1) (\<lambda>s2.
          ebind (invent_phase K s2) (\<lambda>s3.
          ebind (train_phase K s3) (\<lambda>s4. checkpoint_phase K s4))))"
  unfolding path_callback_def submit_phase_def invent_phase_def train_phase_def
    checkpoint_phase_def advance_def Let_def
  by simp

lemma submit_phase_Inr:
  assumes "submit_phase K s1 sampled x1 = Inr s2"
  shows "\<exists>x. s2 = s1\<lparr>world := x,
                     trace := trace s1 @ (if sampled \<noteq> None \<and> segments_len K x1 < 1000
                                          then [SegmentAdded] else [])\<rparr>"
  using assms unfolding submit_phase_def
  by (auto simp: ebind_eq_Inr split: option.splits if_splits)

lemma invent_phase_Inr:
  assumes "invent_phase K s2 = Inr s3"
  shows "if real (collector_len K (world s2)) < n_desired_labels K (world s2)
         then \<exists>x. invent_comparison K (world s2) = Inr x
                \<and> s3 = s2\<lparr>world := x, trace := trace s2 @ [ComparisonsCounted, ComparisonInvented]\<rparr>
         else s3 = s2\<lparr>trace := trace s2 @ [ComparisonsCounted]\<rparr>"
  using assms unfolding invent_phase_def
  by (auto simp: ebind_eq_Inr split: if_splits)

lemma train_phase_Inr:
  assumes "train_phase K s3 = Inr s4"
  shows "same_config s3 s4
     \<and> steps_since_last_checkpoint s4 = steps_since_last_checkpoint s3
     \<and> num_checkpoints s4 = num_checkpoints s3
     \<and> (if n_timesteps_per_predictor_training s3 \<le> of_int (steps_since_last_training s3)
        then steps_since_last_training s4 = 0
           \<and> elapsed_predictor_training_iters s4 = elapsed_predictor_training_iters s3 + 1
           \<and> (\<exists>k evs. trace s4 = trace s3 @ TrainingPass # OptimizerStep k # evs \<and> list_all is_logged evs)
        else s4 = s3)"
  using assms unfolding train_phase_def
  by (auto simp: ebind_eq_Inr same_config_def same_counters_def split: if_splits
           dest!: train_predictor_effect)

lemma checkpoint_phase_Inr:
  assumes "checkpoint_phase K s4 = Inr s'"
  shows "(if n_timesteps_per_checkpoint s4 \<le> of_int (steps_since_last_checkpoint s4)
        then \<exists>x. saver_save K (world s4) (sess s4)
                    (checkpoint_filename (s4\<lparr>num_checkpoints := num_checkpoints s4 + 1\<rparr>)) = Inr x
               \<and> s' = s4\<lparr>num_checkpoints := num_checkpoints s4 + 1, world := x,
                       trace := trace s4 @ [CheckpointSaved
                          (checkpoint_filename (s4\<lparr>num_checkpoints := num_checkpoints s4 + 1\<rparr>))],
                       steps_since_last_checkpoint := 0\<rparr>
        else s' = s4)"
  using assms unfolding checkpoint_phase_def Let_def
  by (auto simp: ebind_eq_Inr split: if_splits)

lemma path_callback_Inr:
  assumes "path_callback K s p = Inr s'"
  obtains sampled x1 s2 s3 s4 where
    "sample_segment_from_path K (world s) p (py_int (frames_per_segment s)) = (sampled, x1)"
    "submit_phase K (advance s p) sampled x1 = Inr s2"
    "invent_phase K s2 = Inr s3"
    "train_phase K s3 = Inr s4"
    "checkpoint_phase K s4 = Inr s'"
  using assms unfolding path_callback_phases
  by (auto simp: ebind_eq_Inr split: prod.splits)

lemma saved_files_append [simp]: "saved_files (xs @ ys) = saved_files xs @ saved_files ys"
  by (induction xs rule: saved_files.induct) simp_all

lemma logged_count_list:
  "list_all is_logged evs \<Longrightarrow> \<not> is_logged e \<Longrightarrow> count_list evs e = 0"
  by (induction evs) auto

lemma path_callback_counters:
  assumes "path_callback K s p = Inr s'"
  shows "same_config s s'
    \<and> steps_since_last_training s' =
        (if n_timesteps_per_predictor_training s
              \<le> of_int (steps_since_last_training s + int (length (obs p)))
         then 0 else steps_since_last_training s + int (length (obs p)))
    \<and> steps_since_last_checkpoint s' =
        (if n_timesteps_per_checkpoint s
              \<le> of_int (steps_since_last_checkpoint s + int (length (obs p)))
         then 0 else steps_since_last_checkpoint s + int (length (obs p)))
    \<and> elapsed_predictor_training_iters s' = elapsed_predictor_training_iters s +
        (if n_timesteps_per_predictor_training s
              \<le> of_int (steps_since_last_training s + int (length (obs p)))
         then 1 else 0)
    \<and> num_checkpoints s' = num_checkpoints s +
        (if n_timesteps_per_checkpoint s
              \<le> of_int (steps_since_last_checkpoint s + int (length (obs p)))
         then 1 else 0)
    \<and> count_list (trace s') TrainingPass = count_list (trace s) TrainingPass +
        (if n_timesteps_per_predictor_training s
              \<le> of_int (steps_since_last_training s + int (length (obs p)))
         then 1 else 0)"
proof (rule path_callback_Inr[OF assms])
  fix sampled x1 s2 s3 s4
  assume a: "submit_phase K (advance s p) sampled x1 = Inr s2"
    and b: "invent_phase K s2 = Inr s3"
    and c: "train_phase K s3 = Inr s4"
    and d: "checkpoint_phase K s4 = Inr s'"
  from submit_phase_Inr[OF a] invent_phase_Inr[OF b]
  obtain x evs where s3: "s3 = (advance s p)\<lparr>world := x, trace := trace s @ evs\<rparr>"
    and evs: "count_list evs TrainingPass = 0"
    by (auto simp: advance_def split: if_splits)
  show ?thesis
    using train_phase_Inr[OF c] checkpoint_phase_Inr[OF d] evs
    unfolding s3 advance_def same_config_def
    by (auto split: if_splits simp: logged_count_list)
qed

subsection \<open>The pairwise model\<close>

lemma build_model_discrete:
  "build_model net oshape True (n # rest) =
     Inr \<lparr>obs_placeholder_shape = [None, None] @ map Some oshape,
          act_placeholder_shape = [None, None],
          q_value = stream_q_value net (n # rest) segment_obs_placeholder
                      (one_hot_tensor n segment_act_placeholder),
          loss_op = pairwise_loss
                      (stream_q_value net (n # rest) segment_obs_placeholder
                         (one_hot_tensor n segment_act_placeholder))
                      (stream_q_value net (n # rest) segment_alt_obs_placeholder
                         (one_hot_tensor n segment_alt_act_placeholder))\<rparr>"
  unfolding build_model_def lookup_local_def
  by (simp add: Let_def stream_q_value_def[abs_def] pairwise_loss_def[abs_def] one_hot_tensor_def[abs_def])

lemma build_model_continuous:
  "build_model net oshape False ashape = Inl (UnboundLocalError ''segment_alt_act'')"
  unfolding build_model_def lookup_local_def
  by simp

lemma length_tf_one_hot: "length (tf_one_hot i n) = n"
  by (simp add: tf_one_hot_def)

lemma tf_one_hot_replicate:
  "k < n \<Longrightarrow> tf_one_hot (int k) n = replicate k 0 @ 1 # replicate (n - Suc k) 0"
  by (auto simp: tf_one_hot_def list_eq_iff_nth_eq nth_append nth_Cons split: nat.splits)

lemma tf_argmax_zeros: "tf_argmax (replicate k 0 @ 1 # replicate m 0) = k"
  by (induction k) (simp_all add: list_all_iff)

lemma tf_argmax_one_hot: "k < n \<Longrightarrow> tf_argmax (tf_one_hot (int k) n) = k"
  by (simp add: tf_one_hot_replicate tf_argmax_zeros)

lemma tf_cast_int32_of_int: "tf_cast_int32 (of_int i) = i"
  by (simp add: tf_cast_int32_def py_int_def)

lemma one_hot_tensor_indices:
  assumes "ph fd = Some (act_array (map (map (\<lambda>i. Scalar (of_int i))) indices))"
  shows "one_hot_tensor n ph fd = Inr (map (map (\<lambda>i. tf_one_hot i n)) indices)"
  using assms
  by (simp add: one_hot_tensor_def placeholder_value_def act_array_def np_asarray_def
        tf_one_hot_cells_def tf_cast_int32_of_int comp_def)

lemma tf_reshape2_shape:
  assumes "tf_reshape2 b n xs = Inr q"
  shows "length q = b \<and> list_all (\<lambda>row. length row = n) q"
proof -
  from assms have len: "length xs = b * n"
    and q: "q = map (\<lambda>i. take n (drop (i * n) xs)) [0..<b]"
    by (auto simp: tf_reshape2_def split: if_splits)
  have "length (take n (drop (i * n) xs)) = n" if "i < b" for i
  proof -
    from that have "Suc i \<le> b" by simp
    then have "Suc i * n \<le> b * n" by (rule mult_le_mono1)
    then show ?thesis using len by simp
  qed
  then show ?thesis
    unfolding q by (simp add: list_all_iff)
qed

lemma predict_rewards_shape:
  assumes "predict_rewards net ashape w phase obs_segments act_segments = Inr q"
  shows "length q = length obs_segments
     \<and> list_all (\<lambda>row. length row = segment_length obs_segments) q"
  using assms unfolding predict_rewards_def Let_def segment_length_def
  by (auto simp: ebind_eq_Inr dest!: tf_reshape2_shape)

lemma predict_rewards_error:
  "predict_rewards net ashape w phase obs_segments act_segments = Inl e \<Longrightarrow> e = InvalidArgumentError"
  unfolding predict_rewards_def Let_def tf_reshape_rows_def tf_reshape2_def ebind_def
  by (auto split: if_splits sum.splits)

lemma stream_q_value_error:
  "stream_q_value net ashape obs_ph (one_hot_tensor n act_ph) w fd = Inl e \<Longrightarrow> e = InvalidArgumentError"
  unfolding stream_q_value_def one_hot_tensor_def placeholder_value_def ebind_def
  by (auto split: sum.splits option.splits dest: predict_rewards_error)

lemma stream_flip:
  "stream_q_value net ashape segment_obs_placeholder (one_hot_tensor n segment_act_placeholder) w (flip_preference fd)
     = stream_q_value net ashape segment_alt_obs_placeholder (one_hot_tensor n segment_alt_act_placeholder) w fd"
  "stream_q_value net ashape segment_alt_obs_placeholder (one_hot_tensor n segment_alt_act_placeholder) w (flip_preference fd)
     = stream_q_value net ashape segment_obs_placeholder (one_hot_tensor n segment_act_placeholder) w fd"
  by (simp_all add: stream_q_value_def one_hot_tensor_def flip_preference_def)

lemma ce_in_range_swap:
  "list_all (\<lambda>(row, y). label_in_range row y)
      (zip (map (\<lambda>(x, y). [x, y]) (zip rs ls)) (map (\<lambda>y. 1 - y) ys))
   = list_all (\<lambda>(row, y). label_in_range row y)
      (zip (map (\<lambda>(x, y). [x, y]) (zip ls rs)) ys)"
proof (induction ys arbitrary: ls rs)
  case Nil
  then show ?case by simp
next
  case (Cons y ys)
  show ?case
  proof (cases ls)
    case Nil
    then show ?thesis by simp
  next
    case ls: (Cons l ls')
    show ?thesis
    proof (cases rs)
      case Nil
      then show ?thesis by simp
    next
      case rs: (Cons r rs')
      have "label_in_range [r, l] (1 - y) = label_in_range [l, r] y"
        by (auto simp: label_in_range_def)
      then show ?thesis
        using Cons.IH[of rs' ls'] by (simp add: ls rs)
    qed
  qed
qed

lemma ce_values_swap:
  assumes "list_all (\<lambda>(row, y). label_in_range row y) (zip (map (\<lambda>(x, y). [x, y]) (zip ls rs)) ys)"
  shows "map (\<lambda>(row, y). ln (sum_list (map exp row)) - row ! nat y)
           (zip (map (\<lambda>(x, y). [x, y]) (zip rs ls)) (map (\<lambda>y. 1 - y) ys))
       = map (\<lambda>(row, y). ln (sum_list (map exp row)) - row ! nat y)
           (zip (map (\<lambda>(x, y). [x, y]) (zip ls rs)) ys)"
  using assms
proof (induction ys arbitrary: ls rs)
  case Nil
  then show ?case by simp
next
  case (Cons y ys)
  show ?case
  proof (cases ls)
    case Nil
    then show ?thesis by simp
  next
    case ls: (Cons l ls')
    show ?thesis
    proof (cases rs)
      case Nil
      then show ?thesis by simp
    next
      case rs: (Cons r rs')
      from Cons.prems have y: "y = 0 \<or> y = 1"
        and rest: "list_all (\<lambda>(row, y). label_in_range row y) (zip (map (\<lambda>(x, y). [x, y]) (zip ls' rs')) ys)"
        by (auto simp: ls rs label_in_range_def)
      from y have "ln (exp r + exp l) - [r, l] ! nat (1 - y) = ln (exp l + exp r) - [l, r] ! nat y"
        by (auto simp: add.commute)
      then show ?thesis
        using Cons.IH[OF rest] by (simp add: ls rs)
    qed
  qed
qed

lemma ce_swap:
  assumes "length ls = length rs"
  shows "sparse_softmax_cross_entropy_with_logits (map (\<lambda>(x, y). [x, y]) (zip rs ls)) (map (\<lambda>y. 1 - y) ys)
       = sparse_softmax_cross_entropy_with_logits (map (\<lambda>(x, y). [x, y]) (zip ls rs)) ys"
  using assms ce_in_range_swap[of rs ls ys] ce_values_swap[of ls rs ys]
  unfolding sparse_softmax_cross_entropy_with_logits_def
  by simp

lemma pairwise_loss_swap:
  assumes "\<And>e. ql = Inl e \<Longrightarrow> e = InvalidArgumentError"
      and "\<And>e. qr = Inl e \<Longrightarrow> e = InvalidArgumentError"
  shows "pairwise_loss (\<lambda>w fd. qr) (\<lambda>w fd. ql) w (fd\<lparr>labels := map_option (map (\<lambda>y. 1 - y)) (labels fd)\<rparr>)
       = pairwise_loss (\<lambda>w fd. ql) (\<lambda>w fd. qr) w fd"
proof (cases ql)
  case (Inl e)
  with assms(1) have ql: "ql = Inl InvalidArgumentError" by simp
  show ?thesis
    using assms(2) by (cases qr) (simp_all add: pairwise_loss_def ql)
next
  case l: (Inr q)
  show ?thesis
  proof (cases qr)
    case (Inl e)
    then show ?thesis by (simp add: pairwise_loss_def l)
  next
    case r: (Inr a)
    show ?thesis
    proof (cases "length q = length a")
      case False
      then show ?thesis
        by (auto simp: pairwise_loss_def l r tf_stack_axis1_def tf_reduce_sum_axis1_def)
    next
      case True
      then have len: "length (map sum_list q) = length (map sum_list a)" by simp
      show ?thesis
        using True ce_swap[OF len]
        by (cases "labels fd")
           (simp_all add: pairwise_loss_def l r tf_stack_axis1_def tf_reduce_sum_axis1_def labels_value_def)
    qed
  qed
qed

lemma sum_exp_pos: "row \<noteq> [] \<Longrightarrow> 0 < sum_list (map exp (row :: real list))"
proof (induction row)
  case Nil
  then show ?case by simp
next
  case (Cons a row)
  have "0 \<le> sum_list (map exp row)"
    by (induction row) (simp_all add: add_nonneg_nonneg)
  moreover have "0 < exp a" by simp
  ultimately have "0 < exp a + sum_list (map exp row)" by (rule add_pos_nonneg[rotated])
  then show ?case by simp
qed

lemma ce_refines:
  assumes "label_in_range row y"
  shows "ln (sum_list (map exp row)) - row ! nat y = categorical_cross_entropy row (nat y)"
proof -
  from assms have "row \<noteq> []" by (auto simp: label_in_range_def)
  then have "0 < sum_list (map exp row)" by (rule sum_exp_pos)
  then show ?thesis
    by (simp add: categorical_cross_entropy_def ln_div)
qed

lemma build_model_Inr:
  assumes "build_model net oshape discrete ashape = Inr g"
  obtains n rest where "discrete" "ashape = n # rest"
    "g = \<lparr>obs_placeholder_shape = [None, None] @ map Some oshape,
          act_placeholder_shape = [None, None],
          q_value = stream_q_value net (n # rest) segment_obs_placeholder
                      (one_hot_tensor n segment_act_placeholder),
          loss_op = pairwise_loss
                      (stream_q_value net (n # rest) segment_obs_placeholder
                         (one_hot_tensor n segment_act_placeholder))
                      (stream_q_value net (n # rest) segment_alt_obs_placeholder
                         (one_hot_tensor n segment_alt_act_placeholder))\<rparr>"
proof (cases discrete)
  case False
  with assms show ?thesis by (simp add: build_model_continuous)
next
  case True
  show ?thesis
  proof (cases ashape)
    case Nil
    with assms True show ?thesis by (simp add: build_model_def)
  next
    case (Cons n rest)
    with assms True that show ?thesis by (simp add: build_model_discrete)
  qed
qed

text \<open>
  C5. For every graph that \<open>_build_model\<close> returns, every weights and every feed, the
  training loss is unchanged when the feeds of the two streams are exchanged and every
  label \<open>y\<close> becomes \<open>1 - y\<close>.
\<close>

theorem loss_preference_symmetry:
  assumes "build_model net oshape discrete ashape = Inr g"
  shows "loss_op g w (flip_preference fd) = loss_op g w fd"
proof (rule build_model_Inr[OF assms])
  fix n rest
  assume g: "g = \<lparr>obs_placeholder_shape = [None, None] @ map Some oshape,
          act_placeholder_shape = [None, None],
          q_value = stream_q_value net (n # rest) segment_obs_placeholder
                      (one_hot_tensor n segment_act_placeholder),
          loss_op = pairwise_loss
                      (stream_q_value net (n # rest) segment_obs_placeholder
                         (one_hot_tensor n segment_act_placeholder))
                      (stream_q_value net (n # rest) segment_alt_obs_placeholder
                         (one_hot_tensor n segment_alt_act_placeholder))\<rparr>"
  define ql where "ql = stream_q_value net (n # rest) segment_obs_placeholder
                      (one_hot_tensor n segment_act_placeholder) w fd"
  define qr where "qr = stream_q_value net (n # rest) segment_alt_obs_placeholder
                      (one_hot_tensor n segment_alt_act_placeholder) w fd"
  have el: "\<And>e. ql = Inl e \<Longrightarrow> e = InvalidArgumentError"
    unfolding ql_def by (rule stream_q_value_error)
  have er: "\<And>e. qr = Inl e \<Longrightarrow> e = InvalidArgumentError"
    unfolding qr_def by (rule stream_q_value_error)
  have "loss_op g w (flip_preference fd)
      = pairwise_loss (\<lambda>w fd. qr) (\<lambda>w fd. ql) w (fd\<lparr>labels := map_option (map (\<lambda>y. 1 - y)) (labels fd)\<rparr>)"
    unfolding g ql_def qr_def
    by (simp add: pairwise_loss_def stream_flip) (simp add: flip_preference_def)
  also have "\<dots> = pairwise_loss (\<lambda>w fd. ql) (\<lambda>w fd. qr) w fd"
    by (rule pairwise_loss_swap[OF el er])
  also have "\<dots> = loss_op g w fd"
    unfolding g ql_def qr_def by (simp add: pairwise_loss_def)
  finally show ?thesis .
qed

text \<open>
  C1. For a continuous (Box) action space the claim has the actions of both streams pass
  to the scorer unchanged. The source binds the alternate stream's tensor to the name
  \<open>segement_alt_act\<close> and then reads \<open>segment_alt_act\<close>: building the model, and with it
  the constructor, raises \<open>UnboundLocalError\<close> for every continuous action space.
\<close>

theorem continuous_action_space_build_fails:
  "init K \<lparr>fps = f, observation_space_shape = oshape, env_action_space = Box ashape\<rparr>
      name clip_length stacked_frames w0 x0
     = Inl (UnboundLocalError ''segment_alt_act'')"
  by (simp add: init_def Let_def build_model_continuous)

lemma toy_build: "build_model toy_net [] True [2] = Inr toy_graph"
  by (simp add: build_model_discrete toy_graph_def)

lemmas tf_eval = np_asarray_def act_array_def placeholder_value_def labels_value_def
  one_hot_tensor_def stream_q_value_def predict_rewards_def tf_reshape_rows_def tf_reshape2_def
  tf_one_hot_cells_def tf_one_hot_def tf_cast_int32_def py_int_def tf_reduce_sum_axis1_def
  tf_stack_axis1_def sparse_softmax_cross_entropy_with_logits_def label_in_range_def
  tf_reduce_mean_def

lemma toy_q_left: "q_value toy_graph 1 toy_feed = Inr [[1, 3]]"
  by (simp add: toy_graph_def toy_feed_def toy_net_def tf_eval upt_rec)

lemma toy_q_right: "q_value toy_graph 1 (flip_preference toy_feed) = Inr [[4, 5]]"
  by (simp add: toy_graph_def toy_feed_def toy_net_def flip_preference_def tf_eval upt_rec)

lemma toy_loss: "loss_op toy_graph 1 toy_feed = Inr (ln (exp 4 + exp 9) - 9)"
  by (simp add: toy_graph_def toy_feed_def toy_net_def pairwise_loss_def tf_eval upt_rec)

theorem loss_preference_symmetry_witness:
  "build_model toy_net [] True [2] = Inr toy_graph
   \<and> loss_op toy_graph 1 (flip_preference toy_feed) = loss_op toy_graph 1 toy_feed
   \<and> loss_op toy_graph 1 toy_feed = Inr (ln (exp 4 + exp 9) - 9)"
  using loss_preference_symmetry[OF toy_build, of 1 toy_feed] toy_build toy_loss
  by simp

lemma stream_q_value_shape:
  assumes "stream_q_value net ashape obs_ph act_tensor w fd = Inr q"
  shows "\<exists>arr. obs_ph fd = Some arr \<and> length q = length (nd_rows arr)
           \<and> list_all (\<lambda>row. length row = segment_length (nd_rows arr)) q"
  using assms unfolding stream_q_value_def placeholder_value_def
  by (auto simp: ebind_eq_Inr split: option.splits dest!: predict_rewards_shape)

lemma tf_stack_axis1_Inr:
  assumes "tf_stack_axis1 xs ys = Inr logits"
  shows "length xs = length ys \<and> length logits = length xs
     \<and> list_all (\<lambda>row. length row = 2) logits
     \<and> logits = map (\<lambda>(x, y). [x, y]) (zip xs ys)"
  using assms unfolding tf_stack_axis1_def
  by (auto simp: list_all_iff split: if_splits)

lemma cross_entropy_Inr:
  assumes "sparse_softmax_cross_entropy_with_logits logits ys = Inr data_loss"
  shows "length ys = length logits \<and> length data_loss = length logits
     \<and> data_loss = map (\<lambda>(row, y). categorical_cross_entropy row (nat y)) (zip logits ys)"
proof -
  from assms have len: "length logits = length ys"
    and ok: "list_all (\<lambda>(row, y). label_in_range row y) (zip logits ys)"
    and dl: "data_loss = map (\<lambda>(row, y). ln (sum_list (map exp row)) - row ! nat y) (zip logits ys)"
    unfolding sparse_softmax_cross_entropy_with_logits_def
    by (auto split: if_splits)
  have "map (\<lambda>(row, y). ln (sum_list (map exp row)) - row ! nat y) (zip logits ys)
      = map (\<lambda>(row, y). categorical_cross_entropy row (nat y)) (zip logits ys)"
    using ok by (intro map_cong refl) (auto simp: list_all_iff ce_refines)
  with len dl show ?thesis by simp
qed

lemma tf_reduce_mean_Inr:
  "tf_reduce_mean xs = Inr m \<Longrightarrow> xs \<noteq> [] \<and> m = sum_list xs / real (length xs)"
  by (auto simp: tf_reduce_mean_def split: if_splits)

text \<open>
  C4. Whenever the loss of a built model evaluates, both streams' per-timestep scores
  have the shape (batch size, segment length) of their fed observations; summing over
  time gives one scalar per segment; the two sums are stacked into one 2-wide logit
  row per example; and the loss is the mean over the minibatch of the categorical
  cross-entropy of each row against its integer label.
\<close>

theorem pairwise_model_shapes:
  assumes "build_model net oshape discrete ashape = Inr g"
      and "loss_op g w fd = Inr loss"
  shows "\<exists>obs_arr alt_arr ys q alt_q logits.
           segment_obs_placeholder fd = Some obs_arr
         \<and> segment_alt_obs_placeholder fd = Some alt_arr
         \<and> labels fd = Some ys
         \<and> q_value g w fd = Inr q
         \<and> q_value g w (flip_preference fd) = Inr alt_q
         \<and> length q = length (nd_rows obs_arr)
         \<and> list_all (\<lambda>row. length row = segment_length (nd_rows obs_arr)) q
         \<and> length alt_q = length (nd_rows alt_arr)
         \<and> list_all (\<lambda>row. length row = segment_length (nd_rows alt_arr)) alt_q
         \<and> length (tf_reduce_sum_axis1 q) = length q
         \<and> length (tf_reduce_sum_axis1 alt_q) = length alt_q
         \<and> tf_stack_axis1 (tf_reduce_sum_axis1 q) (tf_reduce_sum_axis1 alt_q) = Inr logits
         \<and> logits = map (\<lambda>(row, alt_row). [sum_list row, sum_list alt_row]) (zip q alt_q)
         \<and> length logits = length q
         \<and> list_all (\<lambda>pair. length pair = 2) logits
         \<and> length ys = length logits
         \<and> logits \<noteq> []
         \<and> loss = sum_list (map (\<lambda>(pair, y). categorical_cross_entropy pair (nat y)) (zip logits ys))
                    / real (length logits)"
proof (rule build_model_Inr[OF assms(1)])
  fix n rest
  assume g: "g = \<lparr>obs_placeholder_shape = [None, None] @ map Some oshape,
          act_placeholder_shape = [None, None],
          q_value = stream_q_value net (n # rest) segment_obs_placeholder
                      (one_hot_tensor n segment_act_placeholder),
          loss_op = pairwise_loss
                      (stream_q_value net (n # rest) segment_obs_placeholder
                         (one_hot_tensor n segment_act_placeholder))
                      (stream_q_value net (n # rest) segment_alt_obs_placeholder
                         (one_hot_tensor n segment_alt_act_placeholder))\<rparr>"
  from assms(2) obtain q alt_q logits ys data_loss where
    q: "stream_q_value net (n # rest) segment_obs_placeholder
          (one_hot_tensor n segment_act_placeholder) w fd = Inr q"
    and a: "stream_q_value net (n # rest) segment_alt_obs_placeholder
          (one_hot_tensor n segment_alt_act_placeholder) w fd = Inr alt_q"
    and st: "tf_stack_axis1 (tf_reduce_sum_axis1 q) (tf_reduce_sum_axis1 alt_q) = Inr logits"
    and ys: "labels_value (labels fd) = Inr ys"
    and ce: "sparse_softmax_cross_entropy_with_logits logits ys = Inr data_loss"
    and mean: "tf_reduce_mean data_loss = Inr loss"
    unfolding g by (auto simp: pairwise_loss_def ebind_eq_Inr)
  from stream_q_value_shape[OF q] obtain obs_arr where
    o: "segment_obs_placeholder fd = Some obs_arr" "length q = length (nd_rows obs_arr)"
       "list_all (\<lambda>row. length row = segment_length (nd_rows obs_arr)) q"
    by blast
  from stream_q_value_shape[OF a] obtain alt_arr where
    al: "segment_alt_obs_placeholder fd = Some alt_arr" "length alt_q = length (nd_rows alt_arr)"
       "list_all (\<lambda>row. length row = segment_length (nd_rows alt_arr)) alt_q"
    by blast
  from ys have l: "labels fd = Some ys"
    by (auto simp: labels_value_def split: option.splits)
  have qg: "q_value g w fd = Inr q"
    unfolding g using q by simp
  have ag: "q_value g w (flip_preference fd) = Inr alt_q"
    unfolding g using a by (simp add: stream_flip)
  from tf_stack_axis1_Inr[OF st] have s1: "list_all (\<lambda>pair. length pair = 2) logits"
    by blast
  from tf_stack_axis1_Inr[OF st] have "length logits = length (tf_reduce_sum_axis1 q)"
    by blast
  then have s0: "length logits = length q"
    by (simp add: tf_reduce_sum_axis1_def)
  from tf_stack_axis1_Inr[OF st] have
    "logits = map (\<lambda>(x, y). [x, y]) (zip (map sum_list q) (map sum_list alt_q))"
    by (simp add: tf_reduce_sum_axis1_def)
  also have "\<dots> = map (\<lambda>(row, alt_row). [sum_list row, sum_list alt_row]) (zip q alt_q)"
    by (simp add: zip_map1 zip_map2 split_def comp_def)
  finally have s2: "logits = map (\<lambda>(row, alt_row). [sum_list row, sum_list alt_row]) (zip q alt_q)" .
  from cross_entropy_Inr[OF ce] tf_reduce_mean_Inr[OF mean] have
    c: "length ys = length logits" "logits \<noteq> []"
      "loss = sum_list (map (\<lambda>(pair, y). categorical_cross_entropy pair (nat y)) (zip logits ys))
                    / real (length logits)"
    by auto
  show ?thesis
    using o al l qg ag st s0 s1 s2 c
    by (intro exI[of _ obs_arr] exI[of _ alt_arr] exI[of _ ys] exI[of _ q] exI[of _ alt_q]
          exI[of _ logits]) (simp add: tf_reduce_sum_axis1_def)
qed

text \<open>The toy scorer on one comparison: the left segment scores 4, the right one 9.\<close>

theorem pairwise_model_shapes_witness:
  "build_model toy_net [] True [2] = Inr toy_graph
   \<and> loss_op toy_graph 1 toy_feed = Inr (ln (exp 4 + exp 9) - 9)
   \<and> (\<exists>obs_arr alt_arr ys q alt_q logits.
           segment_obs_placeholder toy_feed = Some obs_arr
         \<and> segment_alt_obs_placeholder toy_feed = Some alt_arr
         \<and> labels toy_feed = Some ys
         \<and> q_value toy_graph 1 toy_feed = Inr q
         \<and> q_value toy_graph 1 (flip_preference toy_feed) = Inr alt_q
         \<and> length q = length (nd_rows obs_arr)
         \<and> list_all (\<lambda>row. length row = segment_length (nd_rows obs_arr)) q
         \<and> length alt_q = length (nd_rows alt_arr)
         \<and> list_all (\<lambda>row. length row = segment_length (nd_rows alt_arr)) alt_q
         \<and> length (tf_reduce_sum_axis1 q) = length q
         \<and> length (tf_reduce_sum_axis1 alt_q) = length alt_q
         \<and> tf_stack_axis1 (tf_reduce_sum_axis1 q) (tf_reduce_sum_axis1 alt_q) = Inr logits
         \<and> logits = map (\<lambda>(row, alt_row). [sum_list row, sum_list alt_row]) (zip q alt_q)
         \<and> length logits = length q
         \<and> list_all (\<lambda>pair. length pair = 2) logits
         \<and> length ys = length logits
         \<and> logits \<noteq> []
         \<and> loss_op toy_graph 1 toy_feed
             = Inr (sum_list (map (\<lambda>(pair, y). categorical_cross_entropy pair (nat y)) (zip logits ys))
                    / real (length logits)))"
proof -
  from pairwise_model_shapes[OF toy_build toy_loss]
  obtain obs_arr alt_arr ys q alt_q logits where
    "segment_obs_placeholder toy_feed = Some obs_arr
         \<and> segment_alt_obs_placeholder toy_feed = Some alt_arr
         \<and> labels toy_feed = Some ys
         \<and> q_value toy_graph 1 toy_feed = Inr q
         \<and> q_value toy_graph 1 (flip_preference toy_feed) = Inr alt_q
         \<and> length q = length (nd_rows obs_arr)
         \<and> list_all (\<lambda>row. length row = segment_length (nd_rows obs_arr)) q
         \<and> length alt_q = length (nd_rows alt_arr)
         \<and> list_all (\<lambda>row. length row = segment_length (nd_rows alt_arr)) alt_q
         \<and> length (tf_reduce_sum_axis1 q) = length q
         \<and> length (tf_reduce_sum_axis1 alt_q) = length alt_q
         \<and> tf_stack_axis1 (tf_reduce_sum_axis1 q) (tf_reduce_sum_axis1 alt_q) = Inr logits
         \<and> logits = map (\<lambda>(row, alt_row). [sum_list row, sum_list alt_row]) (zip q alt_q)
         \<and> length logits = length q
         \<and> list_all (\<lambda>pair. length pair = 2) logits
         \<and> length ys = length logits
         \<and> logits \<noteq> []
         \<and> ln (exp 4 + exp 9) - 9
             = sum_list (map (\<lambda>(pair, y). categorical_cross_entropy pair (nat y)) (zip logits ys))
                    / real (length logits)"
    by blast
  then show ?thesis
    using toy_build toy_loss by (simp only: sum.inject) blast
qed

subsection \<open>Exceptions keep the assignments made before them\<close>

text \<open>The two renderings of each method agree on what the caller sees.\<close>

lemma returned_simps [simp]:
  "returned (None, s) = Inr s" "returned (Some e, s) = Inl e"
  by (simp_all add: returned_def)

lemma and_then_simps [simp]:
  "and_then (None, s) f = f s" "and_then (Some e, s) f = (Some e, s)"
  by (simp_all add: and_then_def)

lemma attempt_simps [simp]:
  "attempt s (Inl e) f = (Some e, s)" "attempt s (Inr v) f = f v"
  by (simp_all add: attempt_def)

lemma returned_and_then: "returned (and_then r f) = ebind (returned r) (\<lambda>s. returned (f s))"
  by (cases r; cases "fst r") (auto simp: and_then_def returned_def)

lemma returned_attempt: "returned (attempt s r f) = ebind r (\<lambda>v. returned (f v))"
  by (cases r) simp_all

lemma call_log_simple_returned:
  "returned (call_log_simple_outcome K s key v) = call_log_simple K s key v"
  by (simp add: call_log_simple_outcome_def call_log_simple_def returned_attempt)

lemma write_training_summaries_returned:
  "returned (write_training_summaries_outcome K s loss) = write_training_summaries K s loss"
  unfolding write_training_summaries_outcome_def write_training_summaries_def Let_def
  by (simp add: returned_and_then returned_attempt call_log_simple_returned if_distrib[of returned]
        cong: if_cong)

lemma train_predictor_returned:
  "returned (train_predictor_outcome K s) = train_predictor K s"
  unfolding train_predictor_outcome_def train_predictor_def Let_def
  by (simp add: returned_and_then returned_attempt write_training_summaries_returned
        split_def)

lemma path_callback_returned:
  "returned (path_callback_outcome K s p) = path_callback K s p"
  unfolding path_callback_outcome_def path_callback_def Let_def
  by (simp add: returned_and_then returned_attempt train_predictor_returned
        if_distrib[of returned] option.case_distrib[of returned] split_def
        cong: if_cong option.case_cong)

lemma run_callbacks_returned:
  "returned (run_callbacks_outcome K s paths) = run_callbacks K s paths"
  by (induction paths arbitrary: s) (simp_all add: returned_and_then path_callback_returned)

text \<open>Logging and training leave the configuration and the counters alone, raising or not.\<close>

lemma cadence_kept_here: "same_config s s' \<Longrightarrow> same_counters s s' \<Longrightarrow> cadence_kept s (e, s')"
  by (simp add: cadence_kept_def)

lemma cadence_kept_refl: "cadence_kept s (e, s)"
  by (simp add: cadence_kept_def same_config_def same_counters_def)

lemma and_then_kept:
  assumes "cadence_kept s r" and "\<And>s1. cadence_kept s1 (f s1)"
  shows "cadence_kept s (and_then r f)"
proof (cases r)
  case (Pair e s1)
  show ?thesis
  proof (cases e)
    case None
    with Pair assms(1) assms(2)[of s1] show ?thesis
      by (simp add: cadence_kept_def same_config_def same_counters_def)
  next
    case (Some a)
    with Pair assms(1) show ?thesis by simp
  qed
qed

lemma attempt_kept:
  assumes "cadence_kept s (None, s0)" and "\<And>v. cadence_kept s (f v)"
  shows "cadence_kept s (attempt s0 r f)"
  using assms by (cases r) (simp_all add: cadence_kept_def)

lemma call_log_simple_outcome_kept: "cadence_kept s (call_log_simple_outcome K s key v)"
  unfolding call_log_simple_outcome_def
  by (rule attempt_kept) (simp_all add: cadence_kept_def same_config_def same_counters_def)

lemma if_kept:
  "(b \<Longrightarrow> cadence_kept s x) \<Longrightarrow> (\<not> b \<Longrightarrow> cadence_kept s y) \<Longrightarrow> cadence_kept s (if b then x else y)"
  by simp

lemma write_training_summaries_outcome_kept:
  "cadence_kept s (write_training_summaries_outcome K s loss)"
  unfolding write_training_summaries_outcome_def Let_def
  by (intro and_then_kept attempt_kept call_log_simple_outcome_kept if_kept cadence_kept_refl)

lemma train_predictor_outcome_kept: "cadence_kept s (train_predictor_outcome K s)"
proof -
  have w: "cadence_kept s (write_training_summaries_outcome K s1 loss)"
    if "same_config s s1" "same_counters s s1" for s1 loss
    using write_training_summaries_outcome_kept[of s1 K loss] that
    by (simp add: cadence_kept_def same_config_def same_counters_def)
  show ?thesis
    unfolding train_predictor_outcome_def Let_def
    by (intro attempt_kept cadence_kept_refl)
       (auto intro!: w cadence_kept_here attempt_kept simp: same_config_def same_counters_def split: prod.splits)
qed

lemma train_predictor_outcome_same:
  assumes "train_predictor_outcome K s = (r, s')"
  shows "same_config s s' \<and> same_counters s s'"
  using train_predictor_outcome_kept[of s K] assms by (simp add: cadence_kept_def)

lemma path_callback_outcome_phases:
  "path_callback_outcome K s p =
     (case sample_segment_from_path K (world s) p (py_int (frames_per_segment s)) of
        (sampled, x1) \<Rightarrow>
          and_then (submit_outcome K (advance s p) sampled x1) (\<lambda>s2.
          and_then (invent_outcome K s2) (\<lambda>s3.
          and_then (train_outcome K s3) (\<lambda>s4. checkpoint_outcome K s4))))"
  unfolding path_callback_outcome_def submit_outcome_def invent_outcome_def train_outcome_def
    checkpoint_outcome_def advance_def Let_def
  by simp

lemma and_then_raise:
  assumes "and_then r f = (Some e, s')"
  shows "r = (Some e, s') \<or> (\<exists>s1. r = (None, s1) \<and> f s1 = (Some e, s'))"
  using assms by (cases r; cases "fst r") (auto simp: and_then_def)

lemma submit_outcome_kept: "cadence_kept s1 (submit_outcome K s1 sampled x1)"
  unfolding submit_outcome_def
  by (cases sampled)
     (auto intro!: attempt_kept cadence_kept_here simp: same_config_def same_counters_def)

lemma invent_outcome_kept: "cadence_kept s2 (invent_outcome K s2)"
  unfolding invent_outcome_def
  by (auto intro!: attempt_kept cadence_kept_here simp: same_config_def same_counters_def)

lemma train_outcome_counters:
  assumes "train_outcome K s3 = (r, s4)"
  shows "same_config s3 s4
     \<and> steps_since_last_checkpoint s4 = steps_since_last_checkpoint s3
     \<and> num_checkpoints s4 = num_checkpoints s3
     \<and> steps_since_last_training s4 =
         (if r = None \<and> n_timesteps_per_predictor_training s3
                            \<le> of_int (steps_since_last_training s3)
          then 0 else steps_since_last_training s3)"
proof (cases "n_timesteps_per_predictor_training s3 \<le> of_int (steps_since_last_training s3)")
  case False
  with assms show ?thesis
    by (auto simp: train_outcome_def same_config_def)
next
  case True
  obtain r' s'' where tp: "train_predictor_outcome K (s3\<lparr>trace := trace s3 @ [TrainingPass]\<rparr>) = (r', s'')"
    by (cases "train_predictor_outcome K (s3\<lparr>trace := trace s3 @ [TrainingPass]\<rparr>)")
  from train_predictor_outcome_same[OF tp] have k: "same_config s3 s''" "same_counters s3 s''"
    by (simp_all add: same_config_def same_counters_def)
  from assms True tp show ?thesis
    using k by (cases r') (auto simp: train_outcome_def same_config_def same_counters_def)
qed

lemma checkpoint_outcome_raise:
  assumes "checkpoint_outcome K s4 = (Some e, s')"
  shows "n_timesteps_per_checkpoint s4 \<le> of_int (steps_since_last_checkpoint s4)
     \<and> steps_since_last_checkpoint s' = steps_since_last_checkpoint s4
     \<and> steps_since_last_training s' = steps_since_last_training s4
     \<and> num_checkpoints s' = num_checkpoints s4 + 1"
  using assms unfolding checkpoint_outcome_def Let_def attempt_def
  by (auto split: if_splits sum.splits)

text \<open>
  A call that raises leaves the checkpoint counter advanced and not reset. It leaves the
  training counter advanced and not reset as well, unless the exception comes from
  \<open>Saver.save\<close>: the checkpoint index is then already incremented, and the training
  counter is 0 if training was due.
\<close>

lemma path_callback_outcome_raise:
  assumes "path_callback_outcome K s p = (Some e, s')"
  shows "steps_since_last_checkpoint s'
           = steps_since_last_checkpoint s + int (length (obs p))
       \<and> (if num_checkpoints s' = num_checkpoints s
          then steps_since_last_training s'
                 = steps_since_last_training s + int (length (obs p))
          else num_checkpoints s' = num_checkpoints s + 1
             \<and> checkpoint_due s p
             \<and> steps_since_last_training s'
                 = (if training_due s p then 0
                    else steps_since_last_training s + int (length (obs p))))"
proof -
  obtain sampled x1 where
    "sample_segment_from_path K (world s) p (py_int (frames_per_segment s)) = (sampled, x1)"
    by (cases "sample_segment_from_path K (world s) p (py_int (frames_per_segment s))")
  with assms have pc: "and_then (submit_outcome K (advance s p) sampled x1) (\<lambda>s2.
          and_then (invent_outcome K s2) (\<lambda>s3.
          and_then (train_outcome K s3) (\<lambda>s4. checkpoint_outcome K s4))) = (Some e, s')"
    by (simp add: path_callback_outcome_phases)
  have adv: "same_config s (advance s p)"
    "steps_since_last_training (advance s p) = steps_since_last_training s + int (length (obs p))"
    "steps_since_last_checkpoint (advance s p) = steps_since_last_checkpoint s + int (length (obs p))"
    "num_checkpoints (advance s p) = num_checkpoints s"
    by (simp_all add: advance_def same_config_def)
  note sub = submit_outcome_kept[of "advance s p" K sampled x1, unfolded cadence_kept_def]
  from and_then_raise[OF pc] show ?thesis
  proof
    assume "submit_outcome K (advance s p) sampled x1 = (Some e, s')"
    with sub adv show ?thesis
      by (simp add: same_counters_def)
  next
    assume "\<exists>s2. submit_outcome K (advance s p) sampled x1 = (None, s2)
        \<and> and_then (invent_outcome K s2) (\<lambda>s3.
             and_then (train_outcome K s3) (\<lambda>s4. checkpoint_outcome K s4)) = (Some e, s')"
    then obtain s2 where s2: "submit_outcome K (advance s p) sampled x1 = (None, s2)"
      and r3: "and_then (invent_outcome K s2) (\<lambda>s3.
             and_then (train_outcome K s3) (\<lambda>s4. checkpoint_outcome K s4)) = (Some e, s')"
      by blast
    from sub s2 adv have k2: "same_config s s2"
      "steps_since_last_training s2 = steps_since_last_training s + int (length (obs p))"
      "steps_since_last_checkpoint s2 = steps_since_last_checkpoint s + int (length (obs p))"
      "num_checkpoints s2 = num_checkpoints s"
      by (simp_all add: same_config_def same_counters_def)
    note inv = invent_outcome_kept[of s2 K, unfolded cadence_kept_def]
    from and_then_raise[OF r3] show ?thesis
    proof
      assume "invent_outcome K s2 = (Some e, s')"
      with inv k2 show ?thesis
        by (simp add: same_counters_def)
    next
      assume "\<exists>s3. invent_outcome K s2 = (None, s3)
          \<and> and_then (train_outcome K s3) (\<lambda>s4. checkpoint_outcome K s4) = (Some e, s')"
      then obtain s3 where s3: "invent_outcome K s2 = (None, s3)"
        and r4: "and_then (train_outcome K s3) (\<lambda>s4. checkpoint_outcome K s4) = (Some e, s')"
        by blast
      from inv s3 k2 have k3: "same_config s s3"
        "steps_since_last_training s3 = steps_since_last_training s + int (length (obs p))"
        "steps_since_last_checkpoint s3 = steps_since_last_checkpoint s + int (length (obs p))"
        "num_checkpoints s3 = num_checkpoints s"
        by (simp_all add: same_config_def same_counters_def)
      from and_then_raise[OF r4] show ?thesis
      proof
        assume t: "train_outcome K s3 = (Some e, s')"
        from train_outcome_counters[OF t] k3 show ?thesis
          by simp
      next
        assume "\<exists>s4. train_outcome K s3 = (None, s4) \<and> checkpoint_outcome K s4 = (Some e, s')"
        then obtain s4 where t: "train_outcome K s3 = (None, s4)"
          and c: "checkpoint_outcome K s4 = (Some e, s')"
          by blast
        from train_outcome_counters[OF t] checkpoint_outcome_raise[OF c] k3 show ?thesis
          by (simp add: same_config_def training_due_def checkpoint_due_def)
      qed
    qed
  qed
qed

subsection \<open>The online driver\<close>

lemma logged_is_training: "list_all is_logged evs \<Longrightarrow> list_all is_training_event evs"
  by (induction evs rule: saved_files.induct) simp_all

lemma submit_phase_world:
  assumes "submit_phase K s1 sampled x1 = Inr s2"
  shows "case sampled of
           None \<Rightarrow> world s2 = x1
         | Some seg \<Rightarrow>
             if segments_len K x1 < 1000 then add_segment K x1 seg = Inr (world s2)
             else world s2 = x1"
  using assms unfolding submit_phase_def
  by (auto simp: ebind_eq_Inr split: option.splits if_splits)

lemma path_callback_trace:
  assumes "path_callback K s p = Inr s'"
  shows "\<exists>x2 training.
           counted_world K s p x2
         \<and> trace s' = trace s
              @ (if submitted K s p then [SegmentAdded] else [])
              @ ComparisonsCounted
              # (if real (collector_len K x2) < n_desired_labels K x2 then [ComparisonInvented] else [])
              @ training
              @ (if checkpoint_due s p
                 then [CheckpointSaved (checkpoint_name (experiment_name s) (num_checkpoints s + 1))]
                 else [])
         \<and> list_all is_training_event training
         \<and> (training = [] \<longleftrightarrow> \<not> training_due s p)"
proof (rule path_callback_Inr[OF assms])
  fix sampled x1 s2 s3 s4
  assume sm: "sample_segment_from_path K (world s) p (py_int (frames_per_segment s)) = (sampled, x1)"
    and a: "submit_phase K (advance s p) sampled x1 = Inr s2"
    and b: "invent_phase K s2 = Inr s3"
    and c: "train_phase K s3 = Inr s4"
    and d: "checkpoint_phase K s4 = Inr s'"
  define A where "A = (if submitted K s p then [SegmentAdded] else [])"
  define B where "B = (if real (collector_len K (world s2)) < n_desired_labels K (world s2)
                       then [ComparisonInvented] else [])"
  from submit_phase_Inr[OF a] sm obtain x where
    s2: "s2 = (advance s p)\<lparr>world := x, trace := trace s @ A\<rparr>"
    by (auto simp: submitted_def A_def advance_def)
  from submit_phase_world[OF a] sm have cw: "counted_world K s p (world s2)"
    by (auto simp: counted_world_def split: option.splits)
  from invent_phase_Inr[OF b] obtain x' where
    s3: "s3 = (advance s p)\<lparr>world := x', trace := trace s @ A @ ComparisonsCounted # B\<rparr>"
    unfolding B_def by (auto simp: s2 split: if_splits)
  from train_phase_Inr[OF c] obtain C where
    t4: "trace s4 = trace s @ A @ ComparisonsCounted # B @ C"
    and C: "list_all is_training_event C" "C = [] \<longleftrightarrow> \<not> training_due s p"
    and k4: "same_config s3 s4" "steps_since_last_checkpoint s4 = steps_since_last_checkpoint s3"
      "num_checkpoints s4 = num_checkpoints s3"
    unfolding s3
    by (auto simp: training_due_def advance_def logged_is_training split: if_splits)
  from k4 have e4: "experiment_name s4 = experiment_name s" "num_checkpoints s4 = num_checkpoints s"
    "steps_since_last_checkpoint s4 = steps_since_last_checkpoint s + int (length (obs p))"
    "n_timesteps_per_checkpoint s4 = n_timesteps_per_checkpoint s"
    unfolding s3 same_config_def advance_def by simp_all
  from checkpoint_phase_Inr[OF d] have
    "trace s' = trace s4 @ (if checkpoint_due s p
                 then [CheckpointSaved (checkpoint_name (experiment_name s) (num_checkpoints s + 1))]
                 else [])"
    unfolding e4 checkpoint_due_def
    by (auto simp: checkpoint_filename_def checkpoint_name_def e4 split: if_splits)
  with t4 C cw show ?thesis
    unfolding A_def B_def by (intro exI[of _ "world s2"] exI[of _ C]) simp
qed

lemma training_events_others:
  assumes "list_all is_training_event evs"
  shows "SegmentAdded \<notin> set evs" "ComparisonsCounted \<notin> set evs" "ComparisonInvented \<notin> set evs"
    "saved_files evs = []"
  using assms by (induction evs rule: saved_files.induct) simp_all


lemma total_steps_simps [simp]:
  "total_steps [] = 0"
  "total_steps (p # ps) = int (length (obs p)) + total_steps ps"
  by (simp_all add: total_steps_def)

lemma total_steps_nonneg: "0 \<le> total_steps paths"
  by (induction paths) simp_all

lemma path_callback_saved:
  assumes "path_callback K s p = Inr s'"
  shows "saved_files (trace s') = saved_files (trace s)
           @ (if checkpoint_due s p
              then [checkpoint_name (experiment_name s) (num_checkpoints s + 1)] else [])"
proof -
  from path_callback_trace[OF assms] obtain x2 training where
    tr: "trace s' = trace s
              @ (if submitted K s p then [SegmentAdded] else [])
              @ ComparisonsCounted
              # (if real (collector_len K x2) < n_desired_labels K x2 then [ComparisonInvented] else [])
              @ training
              @ (if checkpoint_due s p
                 then [CheckpointSaved (checkpoint_name (experiment_name s) (num_checkpoints s + 1))]
                 else [])"
    and tre: "list_all is_training_event training"
    by blast
  show ?thesis
    unfolding tr using training_events_others(4)[OF tre]
    by (simp add: saved_files_append)
qed

lemma run_callbacks_Cons:
  assumes "run_callbacks K s (p # ps) = Inr s'"
  obtains s1 where "path_callback K s p = Inr s1" "run_callbacks K s1 ps = Inr s'"
  using assms by (auto simp: ebind_eq_Inr)

lemma run_training_below:
  assumes "run_callbacks K s paths = Inr s'"
      and "of_int (steps_since_last_training s + total_steps paths)
             < n_timesteps_per_predictor_training s"
  shows "steps_since_last_training s' = steps_since_last_training s + total_steps paths
       \<and> n_timesteps_per_predictor_training s' = n_timesteps_per_predictor_training s
       \<and> count_list (trace s') TrainingPass = count_list (trace s) TrainingPass
       \<and> elapsed_predictor_training_iters s' = elapsed_predictor_training_iters s"
  using assms
proof (induction paths arbitrary: s)
  case Nil
  then show ?case by simp
next
  case (Cons p ps)
  from Cons.prems(1) obtain s1 where
    one: "path_callback K s p = Inr s1" and rest: "run_callbacks K s1 ps = Inr s'"
    by (rule run_callbacks_Cons)
  have "real_of_int (steps_since_last_training s + int (length (obs p)))
          \<le> real_of_int (steps_since_last_training s + total_steps (p # ps))"
    using total_steps_nonneg[of ps] by simp
  with Cons.prems(2) have nd: "\<not> n_timesteps_per_predictor_training s
         \<le> of_int (steps_since_last_training s + int (length (obs p)))"
    by linarith
  from path_callback_counters[OF one] nd have s1:
    "steps_since_last_training s1 = steps_since_last_training s + int (length (obs p))"
    "n_timesteps_per_predictor_training s1 = n_timesteps_per_predictor_training s"
    "count_list (trace s1) TrainingPass = count_list (trace s) TrainingPass"
    "elapsed_predictor_training_iters s1 = elapsed_predictor_training_iters s"
    by (simp_all add: same_config_def)
  from Cons.prems(2) have "of_int (steps_since_last_training s1 + total_steps ps)
             < n_timesteps_per_predictor_training s1"
    by (simp add: s1 add.assoc)
  from Cons.IH[OF rest this] show ?case
    by (simp add: s1)
qed

lemma run_training_exact:
  assumes "run_callbacks K s paths = Inr s'"
      and "0 \<le> steps_since_last_training s"
      and "of_int (steps_since_last_training s) < n_timesteps_per_predictor_training s"
      and "of_int (steps_since_last_training s + total_steps paths)
             = n_timesteps_per_predictor_training s"
  shows "steps_since_last_training s' = 0
       \<and> count_list (trace s') TrainingPass = count_list (trace s) TrainingPass + 1
       \<and> elapsed_predictor_training_iters s' = elapsed_predictor_training_iters s + 1"
  using assms
proof (induction paths arbitrary: s)
  case Nil
  then show ?case by simp
next
  case (Cons p ps)
  from Cons.prems(1) obtain s1 where
    one: "path_callback K s p = Inr s1" and rest: "run_callbacks K s1 ps = Inr s'"
    by (rule run_callbacks_Cons)
  note cnt = path_callback_counters[OF one]
  show ?case
  proof (cases "n_timesteps_per_predictor_training s
         \<le> of_int (steps_since_last_training s + int (length (obs p)))")
    case True
    with Cons.prems(4) total_steps_nonneg[of ps] have z: "total_steps ps = 0"
      by simp
    from cnt True have s1:
      "steps_since_last_training s1 = 0"
      "n_timesteps_per_predictor_training s1 = n_timesteps_per_predictor_training s"
      "count_list (trace s1) TrainingPass = count_list (trace s) TrainingPass + 1"
      "elapsed_predictor_training_iters s1 = elapsed_predictor_training_iters s + 1"
      by (simp_all add: same_config_def)
    from Cons.prems(2,3) have "of_int (steps_since_last_training s1 + total_steps ps)
             < n_timesteps_per_predictor_training s1"
      by (simp add: s1 z)
    from run_training_below[OF rest this] show ?thesis
      by (simp add: s1 z)
  next
    case False
    with cnt have s1:
      "steps_since_last_training s1 = steps_since_last_training s + int (length (obs p))"
      "n_timesteps_per_predictor_training s1 = n_timesteps_per_predictor_training s"
      "count_list (trace s1) TrainingPass = count_list (trace s) TrainingPass"
      "elapsed_predictor_training_iters s1 = elapsed_predictor_training_iters s"
      by (simp_all add: same_config_def)
    have "0 \<le> steps_since_last_training s1"
      "of_int (steps_since_last_training s1) < n_timesteps_per_predictor_training s1"
      "of_int (steps_since_last_training s1 + total_steps ps)
             = n_timesteps_per_predictor_training s1"
      using Cons.prems(2,4) False by (simp_all add: s1 add.assoc)
    from Cons.IH[OF rest this] show ?thesis
      by (simp add: s1)
  qed
qed

lemma run_checkpoint_below:
  assumes "run_callbacks K s paths = Inr s'"
      and "of_int (steps_since_last_checkpoint s + total_steps paths)
             < n_timesteps_per_checkpoint s"
  shows "steps_since_last_checkpoint s' = steps_since_last_checkpoint s + total_steps paths
       \<and> n_timesteps_per_checkpoint s' = n_timesteps_per_checkpoint s
       \<and> saved_files (trace s') = saved_files (trace s)
       \<and> num_checkpoints s' = num_checkpoints s"
  using assms
proof (induction paths arbitrary: s)
  case Nil
  then show ?case by simp
next
  case (Cons p ps)
  from Cons.prems(1) obtain s1 where
    one: "path_callback K s p = Inr s1" and rest: "run_callbacks K s1 ps = Inr s'"
    by (rule run_callbacks_Cons)
  have "real_of_int (steps_since_last_checkpoint s + int (length (obs p)))
          \<le> real_of_int (steps_since_last_checkpoint s + total_steps (p # ps))"
    using total_steps_nonneg[of ps] by simp
  with Cons.prems(2) have nd: "\<not> n_timesteps_per_checkpoint s
         \<le> of_int (steps_since_last_checkpoint s + int (length (obs p)))"
    by linarith
  from path_callback_counters[OF one] path_callback_saved[OF one] nd have s1:
    "steps_since_last_checkpoint s1 = steps_since_last_checkpoint s + int (length (obs p))"
    "n_timesteps_per_checkpoint s1 = n_timesteps_per_checkpoint s"
    "saved_files (trace s1) = saved_files (trace s)"
    "num_checkpoints s1 = num_checkpoints s"
    by (simp_all add: same_config_def checkpoint_due_def)
  from Cons.prems(2) have "of_int (steps_since_last_checkpoint s1 + total_steps ps)
             < n_timesteps_per_checkpoint s1"
    by (simp add: s1 add.assoc)
  from Cons.IH[OF rest this] show ?case
    by (simp add: s1)
qed

lemma run_checkpoint_exact:
  assumes "run_callbacks K s paths = Inr s'"
      and "0 \<le> steps_since_last_checkpoint s"
      and "of_int (steps_since_last_checkpoint s) < n_timesteps_per_checkpoint s"
      and "of_int (steps_since_last_checkpoint s + total_steps paths)
             = n_timesteps_per_checkpoint s"
  shows "steps_since_last_checkpoint s' = 0
       \<and> saved_files (trace s') = saved_files (trace s)
            @ [checkpoint_name (experiment_name s) (num_checkpoints s + 1)]
       \<and> num_checkpoints s' = num_checkpoints s + 1"
  using assms
proof (induction paths arbitrary: s)
  case Nil
  then show ?case by simp
next
  case (Cons p ps)
  from Cons.prems(1) obtain s1 where
    one: "path_callback K s p = Inr s1" and rest: "run_callbacks K s1 ps = Inr s'"
    by (rule run_callbacks_Cons)
  note cnt = path_callback_counters[OF one] and sv = path_callback_saved[OF one]
  show ?case
  proof (cases "n_timesteps_per_checkpoint s
         \<le> of_int (steps_since_last_checkpoint s + int (length (obs p)))")
    case True
    with Cons.prems(4) total_steps_nonneg[of ps] have z: "total_steps ps = 0"
      by simp
    from cnt sv True have s1:
      "steps_since_last_checkpoint s1 = 0"
      "n_timesteps_per_checkpoint s1 = n_timesteps_per_checkpoint s"
      "saved_files (trace s1) = saved_files (trace s)
            @ [checkpoint_name (experiment_name s) (num_checkpoints s + 1)]"
      "num_checkpoints s1 = num_checkpoints s + 1"
      by (simp_all add: same_config_def checkpoint_due_def)
    from Cons.prems(2,3) have "of_int (steps_since_last_checkpoint s1 + total_steps ps)
             < n_timesteps_per_checkpoint s1"
      by (simp add: s1 z)
    from run_checkpoint_below[OF rest this] show ?thesis
      by (simp add: s1 z)
  next
    case False
    with cnt sv have s1:
      "steps_since_last_checkpoint s1 = steps_since_last_checkpoint s + int (length (obs p))"
      "n_timesteps_per_checkpoint s1 = n_timesteps_per_checkpoint s"
      "saved_files (trace s1) = saved_files (trace s)"
      "num_checkpoints s1 = num_checkpoints s"
      "experiment_name s1 = experiment_name s"
      by (simp_all add: same_config_def checkpoint_due_def)
    have "0 \<le> steps_since_last_checkpoint s1"
      "of_int (steps_since_last_checkpoint s1) < n_timesteps_per_checkpoint s1"
      "of_int (steps_since_last_checkpoint s1 + total_steps ps)
             = n_timesteps_per_checkpoint s1"
      using Cons.prems(2,4) False by (simp_all add: s1 add.assoc)
    from Cons.IH[OF rest this] show ?thesis
      by (simp add: s1)
  qed
qed

lemma run_counters_returning:
  assumes "n_timesteps_per_predictor_training s = 2000"
      and "n_timesteps_per_checkpoint s = 20000"
      and "run_callbacks K s paths = Inr s'"
  shows "(\<forall>p. paths = [p] \<longrightarrow>
            steps_since_last_training s' =
              (if 2000 \<le> steps_since_last_training s + int (length (obs p)) then 0
               else steps_since_last_training s + int (length (obs p)))
          \<and> steps_since_last_checkpoint s' =
              (if 20000 \<le> steps_since_last_checkpoint s + int (length (obs p)) then 0
               else steps_since_last_checkpoint s + int (length (obs p))))
       \<and> (0 \<le> steps_since_last_training s \<and> steps_since_last_training s < 2000
            \<and> steps_since_last_training s + total_steps paths = 2000 \<longrightarrow>
            steps_since_last_training s' = 0
          \<and> count_list (trace s') TrainingPass = count_list (trace s) TrainingPass + 1
          \<and> elapsed_predictor_training_iters s' = elapsed_predictor_training_iters s + 1)
       \<and> (0 \<le> steps_since_last_checkpoint s \<and> steps_since_last_checkpoint s < 20000
            \<and> steps_since_last_checkpoint s + total_steps paths = 20000 \<longrightarrow>
            steps_since_last_checkpoint s' = 0
          \<and> length (saved_files (trace s')) = length (saved_files (trace s)) + 1
          \<and> num_checkpoints s' = num_checkpoints s + 1)"
proof (intro conjI allI impI)
  fix p
  assume "paths = [p]"
  with assms(3) have one: "path_callback K s p = Inr s'"
    by (simp add: ebind_eq_Inr)
  from path_callback_counters[OF one] show
    "steps_since_last_training s' =
              (if 2000 \<le> steps_since_last_training s + int (length (obs p)) then 0
               else steps_since_last_training s + int (length (obs p)))"
    by (simp add: assms(1))
  from path_callback_counters[OF one] show
    "steps_since_last_checkpoint s' =
              (if 20000 \<le> steps_since_last_checkpoint s + int (length (obs p)) then 0
               else steps_since_last_checkpoint s + int (length (obs p)))"
    by (simp add: assms(2))
next
  assume h: "0 \<le> steps_since_last_training s \<and> steps_since_last_training s < 2000
            \<and> steps_since_last_training s + total_steps paths = 2000"
  then have "0 \<le> steps_since_last_training s"
    "of_int (steps_since_last_training s) < n_timesteps_per_predictor_training s"
    "of_int (steps_since_last_training s + total_steps paths)
             = n_timesteps_per_predictor_training s"
    by (simp_all add: assms(1))
  from run_training_exact[OF assms(3) this] show
    "steps_since_last_training s' = 0"
    "count_list (trace s') TrainingPass = count_list (trace s) TrainingPass + 1"
    "elapsed_predictor_training_iters s' = elapsed_predictor_training_iters s + 1"
    by simp_all
next
  assume h: "0 \<le> steps_since_last_checkpoint s \<and> steps_since_last_checkpoint s < 20000
            \<and> steps_since_last_checkpoint s + total_steps paths = 20000"
  then have "0 \<le> steps_since_last_checkpoint s"
    "of_int (steps_since_last_checkpoint s) < n_timesteps_per_checkpoint s"
    "of_int (steps_since_last_checkpoint s + total_steps paths)
             = n_timesteps_per_checkpoint s"
    by (simp_all add: assms(2))
  from run_checkpoint_exact[OF assms(3) this] show
    "steps_since_last_checkpoint s' = 0"
    "length (saved_files (trace s')) = length (saved_files (trace s)) + 1"
    "num_checkpoints s' = num_checkpoints s + 1"
    by simp_all
qed

text \<open>
  C3 (as amended). With the thresholds of the constructor, over every sequence of calls
  that return: one call leaves each counter at the old value plus the path's length, or
  at 0 when that sum reaches the threshold, whatever the sampling gave; a sequence that
  brings the training counter to exactly 2000 triggers exactly one training pass and
  ends with that counter at 0; a sequence that brings the checkpoint counter to exactly
  20000 saves exactly one checkpoint and ends with that counter at 0. A call that raises
  resets neither counter: both are left advanced by the path's length, except that the
  training counter is already 0 when training was due and the exception comes from
  saving the checkpoint (the checkpoint index is then already incremented).
\<close>

theorem step_counters_trigger_once:
  assumes "n_timesteps_per_predictor_training s = 2000"
      and "n_timesteps_per_checkpoint s = 20000"
  shows "(\<forall>s'. run_callbacks K s paths = Inr s' \<longrightarrow>
           (\<forall>p. paths = [p] \<longrightarrow>
              steps_since_last_training s' =
                (if 2000 \<le> steps_since_last_training s + int (length (obs p)) then 0
                 else steps_since_last_training s + int (length (obs p)))
            \<and> steps_since_last_checkpoint s' =
                (if 20000 \<le> steps_since_last_checkpoint s + int (length (obs p)) then 0
                 else steps_since_last_checkpoint s + int (length (obs p))))
         \<and> (0 \<le> steps_since_last_training s \<and> steps_since_last_training s < 2000
              \<and> steps_since_last_training s + total_steps paths = 2000 \<longrightarrow>
              steps_since_last_training s' = 0
            \<and> count_list (trace s') TrainingPass = count_list (trace s) TrainingPass + 1
            \<and> elapsed_predictor_training_iters s' = elapsed_predictor_training_iters s + 1)
         \<and> (0 \<le> steps_since_last_checkpoint s \<and> steps_since_last_checkpoint s < 20000
              \<and> steps_since_last_checkpoint s + total_steps paths = 20000 \<longrightarrow>
              steps_since_last_checkpoint s' = 0
            \<and> length (saved_files (trace s')) = length (saved_files (trace s)) + 1
            \<and> num_checkpoints s' = num_checkpoints s + 1))
       \<and> (\<forall>p e s'. path_callback_outcome K s p = (Some e, s') \<longrightarrow>
             path_callback K s p = Inl e
           \<and> steps_since_last_checkpoint s'
                 = steps_since_last_checkpoint s + int (length (obs p))
           \<and> (if num_checkpoints s' = num_checkpoints s
                then steps_since_last_training s'
                       = steps_since_last_training s + int (length (obs p))
                else num_checkpoints s' = num_checkpoints s + 1
                   \<and> 20000 \<le> steps_since_last_checkpoint s + int (length (obs p))
                   \<and> steps_since_last_training s'
                       = (if 2000 \<le> steps_since_last_training s + int (length (obs p)) then 0
                          else steps_since_last_training s + int (length (obs p)))))"
proof (intro conjI allI impI)
  fix p e s'
  assume r: "path_callback_outcome K s p = (Some e, s')"
  from path_callback_returned[of K s p] r show "path_callback K s p = Inl e"
    by simp
  from path_callback_outcome_raise[OF r] show
    "steps_since_last_checkpoint s' = steps_since_last_checkpoint s + int (length (obs p))"
    by simp
  from path_callback_outcome_raise[OF r] show
    "if num_checkpoints s' = num_checkpoints s
                then steps_since_last_training s'
                       = steps_since_last_training s + int (length (obs p))
                else num_checkpoints s' = num_checkpoints s + 1
                   \<and> 20000 \<le> steps_since_last_checkpoint s + int (length (obs p))
                   \<and> steps_since_last_training s'
                       = (if 2000 \<le> steps_since_last_training s + int (length (obs p)) then 0
                          else steps_since_last_training s + int (length (obs p)))"
    by (auto simp: training_due_def checkpoint_due_def assms split: if_splits)
qed (use run_counters_returning[OF assms] in blast)+

lemma init_Inr:
  assumes "init K e name clip_length stacked_frames w0 x0 = Inr s0"
  shows "experiment_name s0 = name" "steps_since_last_training s0 = 0"
    "steps_since_last_checkpoint s0 = 0" "n_timesteps_per_predictor_training s0 = 2000"
    "n_timesteps_per_checkpoint s0 = 20000" "elapsed_predictor_training_iters s0 = 0"
    "num_checkpoints s0 = 0" "trace s0 = []"
  using assms unfolding init_def Let_def by (auto simp: ebind_eq_Inr)

lemma run_callbacks_bounds:
  assumes "run_callbacks K s paths = Inr s'"
      and "n_timesteps_per_predictor_training s = 2000" "n_timesteps_per_checkpoint s = 20000"
      and "0 \<le> steps_since_last_training s" "steps_since_last_training s < 2000"
      and "0 \<le> steps_since_last_checkpoint s" "steps_since_last_checkpoint s < 20000"
  shows "0 \<le> steps_since_last_training s' \<and> steps_since_last_training s' < 2000
       \<and> 0 \<le> steps_since_last_checkpoint s' \<and> steps_since_last_checkpoint s' < 20000"
  using assms
proof (induction paths arbitrary: s)
  case Nil
  then show ?case by simp
next
  case (Cons p ps)
  from Cons.prems(1) obtain s1 where
    one: "path_callback K s p = Inr s1" and rest: "run_callbacks K s1 ps = Inr s'"
    by (rule run_callbacks_Cons)
  from path_callback_counters[OF one] Cons.prems(2-) have
    "n_timesteps_per_predictor_training s1 = 2000" "n_timesteps_per_checkpoint s1 = 20000"
    "0 \<le> steps_since_last_training s1" "steps_since_last_training s1 < 2000"
    "0 \<le> steps_since_last_checkpoint s1" "steps_since_last_checkpoint s1 < 20000"
    by (simp_all add: same_config_def split: if_splits)
  from Cons.IH[OF rest this] show ?case .
qed

text \<open>
  C10. From construction onward, after every sequence of calls of \<open>path_callback\<close>
  that returns, the training counter lies in \<open>[0, 2000)\<close> and the checkpoint counter in
  \<open>[0, 20000)\<close>.
\<close>

theorem cadence_counters_bounded:
  assumes "init K e name clip_length stacked_frames w0 x0 = Inr s0"
      and "run_callbacks K s0 paths = Inr s"
  shows "0 \<le> steps_since_last_training s \<and> steps_since_last_training s < 2000
       \<and> 0 \<le> steps_since_last_checkpoint s \<and> steps_since_last_checkpoint s < 20000"
  using run_callbacks_bounds[OF assms(2)] init_Inr[OF assms(1)] by simp

subsection \<open>The small instance evaluated\<close>

lemma toy_simps:
  "network_run toy = toy_net"
  "adam_minimize toy w fd = w"
  "sample_segment_from_path toy x p (j :: int) =
     (if int (length (obs p)) < j then None
      else Some \<lparr>seg_obs = take (nat j) (obs p), seg_actions = take (nat j) (actions p)\<rparr>, x)"
  "segments_len toy x = length (tw_segments x)"
  "add_segment toy x seg = Inr (x\<lparr>tw_segments := tw_segments x @ [seg]\<rparr>)"
  "collector_len toy x = length (tw_comparisons x)"
  "n_desired_labels toy x = tw_desired x"
  "invent_comparison toy x =
     Inr (x\<lparr>tw_comparisons := tw_comparisons x @ [\<lparr>left = 0, right = 1, label = 0\<rparr>]\<rparr>)"
  "label_unlabeled_comparisons toy x = Inr x"
  "labeled_decisive_comparisons toy x = tw_comparisons x"
  "get_segment toy x i = tw_segments x ! i"
  "randbelow toy x n = (0, x)"
  "log_simple toy x k v = Inr (x\<lparr>tw_log := tw_log x @ [(k, v)]\<rparr>)"
  "get_recent_paths_with_padding toy x = tw_recent x"
  "summary_step toy x = tw_summary_step x"
  "corrcoef toy = pearson"
  "saver_save toy x w f = Inr (x\<lparr>tw_files := tw_files x @ [(f, w)]\<rparr>)"
  by (simp_all add: toy_def)

lemma toy_init: "init toy toy_env ''exp'' 1 0 1 toy_world0 = Inr toy_predictor"
  by (simp add: init_def Let_def toy_env_def toy_simps toy_build toy_predictor_def)

lemma toy_sess_run_loss:
  "sess_run toy_graph (loss_op toy_graph) 1 toy_feed = Inr (ln (exp 4 + exp 9) - 9)"
proof -
  have "feedable [None, None] (segment_obs_placeholder toy_feed)"
    "feedable [None, None] (segment_act_placeholder toy_feed)"
    "feedable [None, None] (segment_alt_obs_placeholder toy_feed)"
    "feedable [None, None] (segment_alt_act_placeholder toy_feed)"
    by (simp_all add: toy_feed_def feedable_def is_compatible_with_def np_asarray_def
          act_array_def np_shape_def)
  moreover have "obs_placeholder_shape toy_graph = [None, None]"
    "act_placeholder_shape toy_graph = [None, None]"
    by (simp_all add: toy_graph_def)
  ultimately show ?thesis
    by (simp add: sess_run_def toy_loss)
qed

lemma toy_predictor_ok: "toy_ok toy_predictor"
  by (simp add: toy_ok_def toy_predictor_def toy_world0_def)

lemma toy_train_ok:
  assumes "toy_ok s"
  shows "\<exists>s'. train_predictor toy s = Inr s' \<and> toy_ok s'"
proof -
  from assms have seg: "tw_segments (world s) = tw_segments toy_world0 @ drop 2 (tw_segments (world s))"
    unfolding toy_ok_def by (metis append_take_drop_id)
  have segs: "tw_segments (world s) ! 0 = \<lparr>seg_obs = [1, 2], seg_actions = [Scalar 0, Scalar 1]\<rparr>"
    "tw_segments (world s) ! Suc 0 = \<lparr>seg_obs = [3, 4], seg_actions = [Scalar 1, Scalar 1]\<rparr>"
    by (subst seg, simp add: toy_world0_def)+
  have fd: "\<lparr>segment_obs_placeholder = Some (obs_array s [[Suc 0, 2]]),
               segment_act_placeholder = Some (act_array [[Scalar 0, Scalar 1]]),
               segment_alt_obs_placeholder = Some (obs_array s [[3, 4]]),
               segment_alt_act_placeholder = Some (act_array [[Scalar 1, Scalar 1]]),
               labels = Some [1],
               learning_phase = True\<rparr> = toy_feed"
    using assms by (simp add: toy_feed_def obs_array_def toy_ok_def)
  from assms show ?thesis
    unfolding train_predictor_def toy_ok_def
    by (simp add: Let_def toy_simps random_sample_def segs fd toy_sess_run_loss
          write_training_summaries_def call_log_simple_def)
qed

lemma toy_callback_ok:
  assumes "toy_ok s"
  shows "\<exists>s'. path_callback toy s p = Inr s' \<and> toy_ok s'"
proof -
  have adv: "toy_ok (advance s p)"
    using assms by (simp add: toy_ok_def advance_def)
  have sub: "\<exists>s2. submit_phase toy (advance s p) sampled (world s) = Inr s2 \<and> toy_ok s2" for sampled
    using adv unfolding submit_phase_def toy_ok_def
    by (cases sampled) (auto simp: toy_simps advance_def)
  have inv: "\<exists>s3. invent_phase toy s2 = Inr s3 \<and> toy_ok s3" if "toy_ok s2" for s2
    using that unfolding invent_phase_def toy_ok_def by (simp add: toy_simps)
  have tr: "\<exists>s4. train_phase toy s3 = Inr s4 \<and> toy_ok s4" if "toy_ok s3" for s3
  proof (cases "n_timesteps_per_predictor_training s3 \<le> of_int (steps_since_last_training s3)")
    case False
    with that show ?thesis by (simp add: train_phase_def)
  next
    case True
    from that have "toy_ok (s3\<lparr>trace := trace s3 @ [TrainingPass]\<rparr>)"
      by (simp add: toy_ok_def)
    from toy_train_ok[OF this] obtain s'' where
      "train_predictor toy (s3\<lparr>trace := trace s3 @ [TrainingPass]\<rparr>) = Inr s''" "toy_ok s''"
      by blast
    with True show ?thesis
      by (simp add: train_phase_def toy_ok_def)
  qed
  have ck: "\<exists>s'. checkpoint_phase toy s4 = Inr s' \<and> toy_ok s'" if "toy_ok s4" for s4
    using that unfolding checkpoint_phase_def toy_ok_def by (simp add: toy_simps Let_def)
  have "snd (sample_segment_from_path toy (world s) p (py_int (frames_per_segment s))) = world s"
    by (simp add: toy_simps)
  then obtain sampled where sm: "sample_segment_from_path toy (world s) p (py_int (frames_per_segment s))
      = (sampled, world s)"
    by (metis prod.collapse)
  from sub obtain s2 where s2: "submit_phase toy (advance s p) sampled (world s) = Inr s2" "toy_ok s2"
    by blast
  from inv[OF s2(2)] obtain s3 where s3: "invent_phase toy s2 = Inr s3" "toy_ok s3"
    by blast
  from tr[OF s3(2)] obtain s4 where s4: "train_phase toy s3 = Inr s4" "toy_ok s4"
    by blast
  from ck[OF s4(2)] obtain s' where s': "checkpoint_phase toy s4 = Inr s'" "toy_ok s'"
    by blast
  show ?thesis
    unfolding path_callback_phases using sm s2 s3 s4 s'
    by simp
qed

lemma toy_run_ok:
  assumes "toy_ok s"
  shows "\<exists>s'. run_callbacks toy s paths = Inr s' \<and> toy_ok s'"
  using assms
proof (induction paths arbitrary: s)
  case Nil
  then show ?case by simp
next
  case (Cons p ps)
  from toy_callback_ok[OF Cons.prems] obtain s1 where
    "path_callback toy s p = Inr s1" "toy_ok s1"
    by blast
  with Cons.IH[of s1] show ?case
    by simp
qed

lemma toy_path_length: "int (length (obs (toy_path n))) = int n"
  by (simp add: toy_path_def)

theorem cadence_counters_bounded_witness:
  "\<exists>s. init toy toy_env ''exp'' 1 0 1 toy_world0 = Inr toy_predictor
      \<and> run_callbacks toy toy_predictor [toy_path 1500, toy_path 700, toy_path 3] = Inr s
      \<and> 0 \<le> steps_since_last_training s \<and> steps_since_last_training s < 2000
      \<and> 0 \<le> steps_since_last_checkpoint s \<and> steps_since_last_checkpoint s < 20000"
proof -
  from toy_run_ok[OF toy_predictor_ok] obtain s where
    run: "run_callbacks toy toy_predictor [toy_path 1500, toy_path 700, toy_path 3] = Inr s"
    by blast
  from cadence_counters_bounded[OF toy_init run] toy_init run show ?thesis
    by blast
qed

lemma toy_late_ok: "toy_ok toy_late"
  using toy_predictor_ok by (simp add: toy_late_def toy_ok_def)

lemma toy_empty_run:
  "run_callbacks_outcome toy toy_empty [toy_path 1999, toy_path 1]
     = (Some (FeedShapeError ''obs_placeholder''),
        toy_empty\<lparr>steps_since_last_training := 2000,
                  steps_since_last_checkpoint := 2000,
                  world := (world toy_empty)\<lparr>tw_segments := tw_segments toy_world0
                     @ [\<lparr>seg_obs = [0, 0], seg_actions = [Scalar 0, Scalar 0]\<rparr>]\<rparr>,
                  trace := [SegmentAdded, ComparisonsCounted, ComparisonsCounted, TrainingPass]\<rparr>)"
proof -
  have r2: "replicate 2 x = [x, x]" for x :: 'a
    by (simp add: numeral_2_eq_2)
  show ?thesis
    by (simp add: path_callback_outcome_def Let_def toy_simps toy_empty_def toy_predictor_def
        toy_world0_def toy_path_def py_int_def train_predictor_outcome_def random_sample_def
        sess_run_def obs_array_def toy_graph_def feedable_def np_asarray_def np_shape_def
        is_compatible_with_def r2)
qed

lemma toy_empty_init:
  "init toy toy_env ''exp'' 1 0 1 (toy_world0\<lparr>tw_comparisons := []\<rparr>) = Inr toy_empty"
  by (simp add: init_def Let_def toy_env_def toy_simps toy_build toy_predictor_def toy_empty_def)

text \<open>
  The claim as stated fails: from construction with no labelled comparison, two calls
  bring the training counter to exactly 2000; the training pass is triggered once and
  raises in \<open>Session.run\<close>, the call raises with it, and the counter is left at 2000.
\<close>

theorem raising_training_pass_keeps_counter:
  "init toy toy_env ''exp'' 1 0 1 (toy_world0\<lparr>tw_comparisons := []\<rparr>) = Inr toy_empty
   \<and> total_steps [toy_path 1999, toy_path 1] = 2000
   \<and> run_callbacks toy toy_empty [toy_path 1999, toy_path 1]
       = Inl (FeedShapeError ''obs_placeholder'')
   \<and> fst (run_callbacks_outcome toy toy_empty [toy_path 1999, toy_path 1])
       = Some (FeedShapeError ''obs_placeholder'')
   \<and> count_list (trace (snd (run_callbacks_outcome toy toy_empty [toy_path 1999, toy_path 1])))
         TrainingPass = 1
   \<and> steps_since_last_training
         (snd (run_callbacks_outcome toy toy_empty [toy_path 1999, toy_path 1])) = 2000"
proof -
  have "run_callbacks toy toy_empty [toy_path 1999, toy_path 1]
       = Inl (FeedShapeError ''obs_placeholder'')"
    unfolding run_callbacks_returned[symmetric] toy_empty_run by simp
  moreover have "total_steps [toy_path 1999, toy_path 1] = 2000"
    by (simp add: total_steps_def toy_path_def)
  moreover have "fst (run_callbacks_outcome toy toy_empty [toy_path 1999, toy_path 1])
       = Some (FeedShapeError ''obs_placeholder'')"
    "count_list (trace (snd (run_callbacks_outcome toy toy_empty [toy_path 1999, toy_path 1])))
         TrainingPass = 1"
    "steps_since_last_training
         (snd (run_callbacks_outcome toy toy_empty [toy_path 1999, toy_path 1])) = 2000"
    unfolding toy_empty_run by simp_all
  ultimately show ?thesis
    using toy_empty_init by blast
qed

lemma toy_starved_call:
  "path_callback_outcome toy toy_starved (toy_path 1)
     = (Some (FeedShapeError ''obs_placeholder''),
        toy_starved\<lparr>steps_since_last_training := 2000,
                    steps_since_last_checkpoint := 2000,
                    trace := [ComparisonsCounted, TrainingPass]\<rparr>)"
  by (simp add: path_callback_outcome_def Let_def toy_simps toy_starved_def toy_empty_def
        toy_predictor_def toy_world0_def toy_path_def py_int_def train_predictor_outcome_def
        random_sample_def sess_run_def obs_array_def toy_graph_def feedable_def np_asarray_def
        np_shape_def is_compatible_with_def)

text \<open>
  A sequence that returns and crosses both thresholds, and a call whose training pass
  raises.
\<close>

theorem step_counters_trigger_once_witness:
  "(\<exists>s'. run_callbacks toy toy_late [toy_path 1000] = Inr s'
      \<and> steps_since_last_training s' = 0
      \<and> steps_since_last_checkpoint s' = 0
      \<and> count_list (trace s') TrainingPass = 1
      \<and> elapsed_predictor_training_iters s' = 1
      \<and> length (saved_files (trace s')) = 1
      \<and> num_checkpoints s' = 1)
   \<and> (\<exists>s'. path_callback_outcome toy toy_starved (toy_path 1)
               = (Some (FeedShapeError ''obs_placeholder''), s')
      \<and> path_callback toy toy_starved (toy_path 1) = Inl (FeedShapeError ''obs_placeholder'')
      \<and> steps_since_last_training toy_starved = 1999
      \<and> steps_since_last_training s' = 2000
      \<and> steps_since_last_checkpoint s' = 2000)"
proof
  from toy_run_ok[OF toy_late_ok] obtain s' where
    run: "run_callbacks toy toy_late [toy_path 1000] = Inr s'"
    by blast
  have thr: "n_timesteps_per_predictor_training toy_late = 2000"
    "n_timesteps_per_checkpoint toy_late = 20000"
    by (simp_all add: toy_late_def toy_predictor_def)
  have vals: "steps_since_last_training toy_late = 1000"
    "steps_since_last_checkpoint toy_late = 19000"
    "trace toy_late = []" "elapsed_predictor_training_iters toy_late = 0"
    "num_checkpoints toy_late = 0"
    by (simp_all add: toy_late_def toy_predictor_def)
  from step_counters_trigger_once[OF thr, of toy "[toy_path 1000]"] run
  show "\<exists>s'. run_callbacks toy toy_late [toy_path 1000] = Inr s'
      \<and> steps_since_last_training s' = 0
      \<and> steps_since_last_checkpoint s' = 0
      \<and> count_list (trace s') TrainingPass = 1
      \<and> elapsed_predictor_training_iters s' = 1
      \<and> length (saved_files (trace s')) = 1
      \<and> num_checkpoints s' = 1"
    by (simp add: vals toy_path_length)
next
  have thr: "n_timesteps_per_predictor_training toy_starved = 2000"
    "n_timesteps_per_checkpoint toy_starved = 20000"
    by (simp_all add: toy_starved_def toy_empty_def toy_predictor_def)
  have vals: "steps_since_last_training toy_starved = 1999"
    "steps_since_last_checkpoint toy_starved = 1999"
    "num_checkpoints toy_starved = 0"
    by (simp_all add: toy_starved_def toy_empty_def toy_predictor_def)
  obtain s' where call: "path_callback_outcome toy toy_starved (toy_path 1)
               = (Some (FeedShapeError ''obs_placeholder''), s')"
    and num: "num_checkpoints s' = 0"
    using toy_starved_call by (simp add: vals)
  from step_counters_trigger_once[OF thr, of toy] call num
  have "path_callback toy toy_starved (toy_path 1) = Inl (FeedShapeError ''obs_placeholder'')
      \<and> steps_since_last_training s' = 2000
      \<and> steps_since_last_checkpoint s' = 2000"
    by (auto simp: vals toy_path_length split: if_splits)
  with call vals(1) show "\<exists>s'. path_callback_outcome toy toy_starved (toy_path 1)
               = (Some (FeedShapeError ''obs_placeholder''), s')
      \<and> path_callback toy toy_starved (toy_path 1) = Inl (FeedShapeError ''obs_placeholder'')
      \<and> steps_since_last_training toy_starved = 1999
      \<and> steps_since_last_training s' = 2000
      \<and> steps_since_last_checkpoint s' = 2000"
    by blast
qed



subsection \<open>Checkpoint files\<close>














lemma rstrip_sep_no_trailing:
  "p \<noteq> [] \<Longrightarrow> last p \<noteq> CHR ''/'' \<Longrightarrow> rstrip_sep p = p"
  by (cases p rule: rev_cases) (simp_all add: rstrip_sep_def)





subsection \<open>Training summaries and validation\<close>

lemma write_training_summaries_unfold:
  "write_training_summaries K s loss =
     ebind (call_log_simple K s ''predictor/loss'' loss) (\<lambda>s1.
     ebind (validation_step K s1) (\<lambda>s2.
     ebind (call_log_simple K s2 ''predictor/num_training_iters''
              (of_int (elapsed_predictor_training_iters s2))) (\<lambda>s3.
     ebind (call_log_simple K s3 ''labels/desired_labels'' (n_desired_labels K (world s3))) (\<lambda>s4.
     ebind (call_log_simple K s4 ''labels/total_comparisons''
              (real (collector_len K (world s4)))) (\<lambda>s5.
     call_log_simple K s5 ''labels/labeled_comparisons''
       (real (length (labeled_decisive_comparisons K (world s5)))))))))"
  unfolding write_training_summaries_def validation_step_def validation_due_def
    validation_feed_def Let_def
  by (rule refl)

lemma call_log_simple_Inr:
  assumes "call_log_simple K s key v = Inr s'"
  shows "log_simple K (world s) key v = Inr (world s')"
    "trace s' = trace s @ [Logged key v]"
    "graph s' = graph s" "sess s' = sess s" "obs_shape s' = obs_shape s"
    "elapsed_predictor_training_iters s' = elapsed_predictor_training_iters s"
  using assms by (auto simp: call_log_simple_def ebind_eq_Inr)

lemma validation_step_world:
  assumes "validation_step K s1 = Inr s2"
  shows "\<exists>mid. graph s2 = graph s1 \<and> sess s2 = sess s1
       \<and> elapsed_predictor_training_iters s2 = elapsed_predictor_training_iters s1
       \<and> trace s2 = trace s1 @ mid
       \<and> (if validation_due K (world s1) then
           \<exists>q ep_true.
             sess_run (graph s1) (q_value (graph s1)) (sess s1)
                 (validation_feed s1 (get_recent_paths_with_padding K (world s1))) = Inr q
           \<and> np_sum_axis1 (map original_rewards (get_recent_paths_with_padding K (world s1)))
                = Inr ep_true
           \<and> log_simple K (world s1) ''predictor/correlations''
                 (corrcoef K ep_true (map sum_list q)) = Inr (world s2)
           \<and> mid = [Logged ''predictor/correlations'' (corrcoef K ep_true (map sum_list q))]
         else world s2 = world s1 \<and> mid = [])"
proof (cases "validation_due K (world s1)")
  case False
  with assms show ?thesis by (simp add: validation_step_def)
next
  case True
  with assms obtain q ep_true where
    q: "sess_run (graph s1) (q_value (graph s1)) (sess s1)
                 (validation_feed s1 (get_recent_paths_with_padding K (world s1))) = Inr q"
    and ep: "np_sum_axis1 (map original_rewards (get_recent_paths_with_padding K (world s1)))
                = Inr ep_true"
    and lg: "call_log_simple K s1 ''predictor/correlations''
               (corrcoef K ep_true (map sum_list q)) = Inr s2"
    unfolding validation_step_def by (auto simp: ebind_eq_Inr)
  from call_log_simple_Inr[OF lg] True q ep show ?thesis
    by auto
qed

text \<open>
  Every call of \<open>_write_training_summaries\<close> that returns logs the loss first and the four
  running counters last, each with the value read when it is logged; between them it
  logs the correlation of the episode sums of the true rewards with the episode sums of
  the predictions over the recent padded paths, if the gate is open. The call changes
  neither the weights nor the graph nor the iteration count.
\<close>

lemma write_training_summaries_events:
  assumes "write_training_summaries K s loss = Inr s'"
  shows "sess s' = sess s \<and> graph s' = graph s
       \<and> elapsed_predictor_training_iters s' = elapsed_predictor_training_iters s
       \<and> (\<exists>x1 x2 x3 x4 x5 mid.
            log_simple K (world s) ''predictor/loss'' loss = Inr x1
          \<and> (if validation_due K x1 then
               (\<exists>q ep_true.
                  sess_run (graph s) (q_value (graph s)) (sess s)
                    (validation_feed s (get_recent_paths_with_padding K x1)) = Inr q
                \<and> np_sum_axis1 (map original_rewards (get_recent_paths_with_padding K x1))
                    = Inr ep_true
                \<and> log_simple K x1 ''predictor/correlations''
                      (corrcoef K ep_true (map sum_list q)) = Inr x2
                \<and> mid = [Logged ''predictor/correlations'' (corrcoef K ep_true (map sum_list q))])
             else x2 = x1 \<and> mid = [])
          \<and> log_simple K x2 ''predictor/num_training_iters''
                (of_int (elapsed_predictor_training_iters s)) = Inr x3
          \<and> log_simple K x3 ''labels/desired_labels'' (n_desired_labels K x3) = Inr x4
          \<and> log_simple K x4 ''labels/total_comparisons'' (real (collector_len K x4)) = Inr x5
          \<and> log_simple K x5 ''labels/labeled_comparisons''
                (real (length (labeled_decisive_comparisons K x5))) = Inr (world s')
          \<and> new_events s s'
              = Logged ''predictor/loss'' loss # mid
                @ [Logged ''predictor/num_training_iters''
                     (of_int (elapsed_predictor_training_iters s)),
                   Logged ''labels/desired_labels'' (n_desired_labels K x3),
                   Logged ''labels/total_comparisons'' (real (collector_len K x4)),
                   Logged ''labels/labeled_comparisons''
                     (real (length (labeled_decisive_comparisons K x5)))])"
proof -
  from assms obtain s1 s2 s3 s4 s5 where
    a: "call_log_simple K s ''predictor/loss'' loss = Inr s1"
    and b: "validation_step K s1 = Inr s2"
    and c: "call_log_simple K s2 ''predictor/num_training_iters''
              (of_int (elapsed_predictor_training_iters s2)) = Inr s3"
    and d: "call_log_simple K s3 ''labels/desired_labels'' (n_desired_labels K (world s3)) = Inr s4"
    and e: "call_log_simple K s4 ''labels/total_comparisons''
              (real (collector_len K (world s4))) = Inr s5"
    and f: "call_log_simple K s5 ''labels/labeled_comparisons''
       (real (length (labeled_decisive_comparisons K (world s5)))) = Inr s'"
    unfolding write_training_summaries_unfold ebind_eq_Inr by blast
  note l1 = call_log_simple_Inr[OF a] and l3 = call_log_simple_Inr[OF c]
    and l4 = call_log_simple_Inr[OF d] and l5 = call_log_simple_Inr[OF e]
    and l6 = call_log_simple_Inr[OF f]
  have feed: "validation_feed s1 paths = validation_feed s paths" for paths
    by (simp add: validation_feed_def obs_array_def l1)
  from validation_step_world[OF b] obtain mid where
    k2: "graph s2 = graph s1" "sess s2 = sess s1"
      "elapsed_predictor_training_iters s2 = elapsed_predictor_training_iters s1"
      "trace s2 = trace s1 @ mid"
    and gate: "if validation_due K (world s1) then
           \<exists>q ep_true.
             sess_run (graph s1) (q_value (graph s1)) (sess s1)
                 (validation_feed s1 (get_recent_paths_with_padding K (world s1))) = Inr q
           \<and> np_sum_axis1 (map original_rewards (get_recent_paths_with_padding K (world s1)))
                = Inr ep_true
           \<and> log_simple K (world s1) ''predictor/correlations''
                 (corrcoef K ep_true (map sum_list q)) = Inr (world s2)
           \<and> mid = [Logged ''predictor/correlations'' (corrcoef K ep_true (map sum_list q))]
         else world s2 = world s1 \<and> mid = []"
    by blast
  have t: "trace s' = trace s @ Logged ''predictor/loss'' loss # mid
                @ [Logged ''predictor/num_training_iters''
                     (of_int (elapsed_predictor_training_iters s)),
                   Logged ''labels/desired_labels'' (n_desired_labels K (world s3)),
                   Logged ''labels/total_comparisons'' (real (collector_len K (world s4))),
                   Logged ''labels/labeled_comparisons''
                     (real (length (labeled_decisive_comparisons K (world s5))))]"
    by (simp add: l1 k2 l3 l4 l5 l6)
  have keep: "sess s' = sess s \<and> graph s' = graph s
       \<and> elapsed_predictor_training_iters s' = elapsed_predictor_training_iters s"
    by (simp add: l1 k2 l3 l4 l5 l6)
  have gate': "if validation_due K (world s1) then
               (\<exists>q ep_true.
                  sess_run (graph s) (q_value (graph s)) (sess s)
                    (validation_feed s (get_recent_paths_with_padding K (world s1))) = Inr q
                \<and> np_sum_axis1 (map original_rewards (get_recent_paths_with_padding K (world s1)))
                    = Inr ep_true
                \<and> log_simple K (world s1) ''predictor/correlations''
                      (corrcoef K ep_true (map sum_list q)) = Inr (world s2)
                \<and> mid = [Logged ''predictor/correlations'' (corrcoef K ep_true (map sum_list q))])
             else world s2 = world s1 \<and> mid = []"
    using gate by (cases "validation_due K (world s1)") (auto simp: l1 feed)
  have c': "log_simple K (world s2) ''predictor/num_training_iters''
                (of_int (elapsed_predictor_training_iters s)) = Inr (world s3)"
    using l3(1) by (simp add: k2 l1)
  from t have ne: "new_events s s' = Logged ''predictor/loss'' loss # mid
                @ [Logged ''predictor/num_training_iters''
                     (of_int (elapsed_predictor_training_iters s)),
                   Logged ''labels/desired_labels'' (n_desired_labels K (world s3)),
                   Logged ''labels/total_comparisons'' (real (collector_len K (world s4))),
                   Logged ''labels/labeled_comparisons''
                     (real (length (labeled_decisive_comparisons K (world s5))))]"
    by (simp add: new_events_def)
  have "\<exists>x1 x2 x3 x4 x5 mid.
            log_simple K (world s) ''predictor/loss'' loss = Inr x1
          \<and> (if validation_due K x1 then
               (\<exists>q ep_true.
                  sess_run (graph s) (q_value (graph s)) (sess s)
                    (validation_feed s (get_recent_paths_with_padding K x1)) = Inr q
                \<and> np_sum_axis1 (map original_rewards (get_recent_paths_with_padding K x1))
                    = Inr ep_true
                \<and> log_simple K x1 ''predictor/correlations''
                      (corrcoef K ep_true (map sum_list q)) = Inr x2
                \<and> mid = [Logged ''predictor/correlations'' (corrcoef K ep_true (map sum_list q))])
             else x2 = x1 \<and> mid = [])
          \<and> log_simple K x2 ''predictor/num_training_iters''
                (of_int (elapsed_predictor_training_iters s)) = Inr x3
          \<and> log_simple K x3 ''labels/desired_labels'' (n_desired_labels K x3) = Inr x4
          \<and> log_simple K x4 ''labels/total_comparisons'' (real (collector_len K x4)) = Inr x5
          \<and> log_simple K x5 ''labels/labeled_comparisons''
                (real (length (labeled_decisive_comparisons K x5))) = Inr (world s')
          \<and> new_events s s'
              = Logged ''predictor/loss'' loss # mid
                @ [Logged ''predictor/num_training_iters''
                     (of_int (elapsed_predictor_training_iters s)),
                   Logged ''labels/desired_labels'' (n_desired_labels K x3),
                   Logged ''labels/total_comparisons'' (real (collector_len K x4)),
                   Logged ''labels/labeled_comparisons''
                     (real (length (labeled_decisive_comparisons K x5)))]"
    apply (rule exI[of _ "world s1"], rule exI[of _ "world s2"], rule exI[of _ "world s3"],
           rule exI[of _ "world s4"], rule exI[of _ "world s5"], rule exI[of _ mid])
    apply (intro conjI)
          apply (rule l1(1))
         apply (rule gate')
        apply (rule c')
       apply (rule l4(1))
      apply (rule l5(1))
     apply (rule l6(1))
    apply (rule ne)
    done
  with keep show ?thesis by blast
qed

lemma write_training_summaries_trace:
  assumes "write_training_summaries K s loss = Inr s'"
  shows "\<exists>evs. trace s' = trace s @ Logged ''predictor/loss'' loss # evs \<and> list_all is_logged evs"
proof -
  from write_training_summaries_frame[OF assms] obtain all_evs where
    tr: "trace s' = trace s @ all_evs" "list_all is_logged all_evs"
    unfolding frame_def by blast
  then have ne: "new_events s s' = all_evs"
    by (simp add: new_events_def)
  from write_training_summaries_events[OF assms] obtain rest where
    "new_events s s' = Logged ''predictor/loss'' loss # rest"
    by blast
  with ne tr show ?thesis
    by auto
qed

lemma toy_validation_q:
  "sess_run toy_graph (q_value toy_graph) 1
     \<lparr>segment_obs_placeholder = Some (np_asarray (\<lambda>ob. []) (\<lambda>ob. ob) (map obs toy_recent)),
      segment_act_placeholder = Some (act_array (map actions toy_recent)),
      segment_alt_obs_placeholder = None,
      segment_alt_act_placeholder = None,
      labels = None,
      learning_phase = False\<rparr> = Inr [[1, 3], [4, 5]]"
  by (simp add: sess_run_def toy_graph_def toy_recent_def toy_net_def feedable_def
        is_compatible_with_def np_shape_def tf_eval upt_rec)

lemma toy_first_iteration_events:
  "\<exists>s'. write_training_summaries toy toy_first_iteration 0 = Inr s'
      \<and> trace s' = [Logged ''predictor/loss'' 0,
                 Logged ''predictor/correlations'' (pearson [1, 2] [4, 9]),
                 Logged ''predictor/num_training_iters'' 1,
                 Logged ''labels/desired_labels'' 0,
                 Logged ''labels/total_comparisons'' 1,
                 Logged ''labels/labeled_comparisons'' 1]"
proof -
  have ep: "np_sum_axis1 (map original_rewards toy_recent) = Inr [1, 2]"
    by (simp add: np_sum_axis1_def np_shape_def toy_recent_def)
  show ?thesis
    unfolding write_training_summaries_unfold validation_step_def validation_due_def
      validation_feed_def
    by (simp add: call_log_simple_def toy_simps toy_first_iteration_def toy_predictor_def
          toy_world0_def obs_array_def toy_validation_q ep)
       (simp add: toy_recent_def)
qed

lemma toy_tenth_iteration_events:
  "\<exists>s'. write_training_summaries toy toy_tenth_iteration 0 = Inr s'
      \<and> trace s' = [Logged ''predictor/loss'' 0,
                 Logged ''predictor/num_training_iters'' 10,
                 Logged ''labels/desired_labels'' 0,
                 Logged ''labels/total_comparisons'' 1,
                 Logged ''labels/labeled_comparisons'' 1]"
  unfolding write_training_summaries_unfold validation_step_def validation_due_def
  by (simp add: call_log_simple_def toy_simps toy_tenth_iteration_def toy_predictor_def
        toy_world0_def)

text \<open>
  C7. The claim asks for validation on every 10th training iteration and on no other;
  the comment on the gate says \<open>Run validation every 10 iters\<close>. The gate reads the
  logger's \<open>summary_step\<close>, not the predictor's count of training iterations: with two
  recent paths at hand, the first training iteration validates when \<open>summary_step\<close> is 0,
  and the tenth does not when \<open>summary_step\<close> is 3. The loss and the four running counters
  are logged in both.
\<close>

theorem validation_not_every_tenth_iteration:
  "elapsed_predictor_training_iters toy_first_iteration = 1
   \<and> summary_step toy (world toy_first_iteration) = 0
   \<and> length (get_recent_paths_with_padding toy (world toy_first_iteration)) = 2
   \<and> result_trace (write_training_summaries toy toy_first_iteration 0)
       = [Logged ''predictor/loss'' 0,
          Logged ''predictor/correlations'' (pearson [1, 2] [4, 9]),
          Logged ''predictor/num_training_iters'' 1,
          Logged ''labels/desired_labels'' 0,
          Logged ''labels/total_comparisons'' 1,
          Logged ''labels/labeled_comparisons'' 1]
   \<and> elapsed_predictor_training_iters toy_tenth_iteration = 10
   \<and> summary_step toy (world toy_tenth_iteration) = 3
   \<and> length (get_recent_paths_with_padding toy (world toy_tenth_iteration)) = 2
   \<and> result_trace (write_training_summaries toy toy_tenth_iteration 0)
       = [Logged ''predictor/loss'' 0,
          Logged ''predictor/num_training_iters'' 10,
          Logged ''labels/desired_labels'' 0,
          Logged ''labels/total_comparisons'' 1,
          Logged ''labels/labeled_comparisons'' 1]"
proof -
  from toy_first_iteration_events obtain s1 where
    r1: "write_training_summaries toy toy_first_iteration 0 = Inr s1"
    and t1: "trace s1 = [Logged ''predictor/loss'' 0,
                 Logged ''predictor/correlations'' (pearson [1, 2] [4, 9]),
                 Logged ''predictor/num_training_iters'' 1,
                 Logged ''labels/desired_labels'' 0,
                 Logged ''labels/total_comparisons'' 1,
                 Logged ''labels/labeled_comparisons'' 1]"
    by blast
  from toy_tenth_iteration_events obtain s2 where
    r2: "write_training_summaries toy toy_tenth_iteration 0 = Inr s2"
    and t2: "trace s2 = [Logged ''predictor/loss'' 0,
                 Logged ''predictor/num_training_iters'' 10,
                 Logged ''labels/desired_labels'' 0,
                 Logged ''labels/total_comparisons'' 1,
                 Logged ''labels/labeled_comparisons'' 1]"
    by blast
  have "result_trace (write_training_summaries toy toy_first_iteration 0)
       = [Logged ''predictor/loss'' 0,
          Logged ''predictor/correlations'' (pearson [1, 2] [4, 9]),
          Logged ''predictor/num_training_iters'' 1,
          Logged ''labels/desired_labels'' 0,
          Logged ''labels/total_comparisons'' 1,
          Logged ''labels/labeled_comparisons'' 1]"
    by (simp add: result_trace_def r1 t1)
  moreover have "result_trace (write_training_summaries toy toy_tenth_iteration 0)
       = [Logged ''predictor/loss'' 0,
          Logged ''predictor/num_training_iters'' 10,
          Logged ''labels/desired_labels'' 0,
          Logged ''labels/total_comparisons'' 1,
          Logged ''labels/labeled_comparisons'' 1]"
    by (simp add: result_trace_def r2 t2)
  ultimately show ?thesis
    by (simp add: toy_simps toy_first_iteration_def toy_tenth_iteration_def toy_recent_def)
qed

subsection \<open>The trainer\<close>

lemma sample_loop_length: "length (fst (sample_loop rb x pool k)) = k"
proof (induction k arbitrary: x pool)
  case 0
  then show ?case by simp
next
  case (Suc k)
  obtain r x1 where rb: "rb x (length pool) = (r, x1)"
    by (cases "rb x (length pool)")
  obtain rest x2 where rec:
    "sample_loop rb x1 (butlast (pool[r mod length pool := last pool])) k = (rest, x2)"
    by (cases "sample_loop rb x1 (butlast (pool[r mod length pool := last pool])) k")
  from Suc[of x1 "butlast (pool[r mod length pool := last pool])"] rec have "length rest = k"
    by simp
  with rb rec show ?case by simp
qed

lemma random_sample_Inr:
  assumes "random_sample rb x pool k = Inr (chosen, x')"
  shows "length chosen = k \<and> k \<le> length pool"
  using assms sample_loop_length[of rb x pool k]
  by (auto simp: random_sample_def split: if_splits)

lemma swap_remove_mset:
  assumes "j < length pool"
  shows "add_mset (pool ! j) (mset (butlast (pool[j := last pool]))) = mset pool"
proof (cases pool rule: rev_cases)
  case Nil
  with assms show ?thesis by simp
next
  case (snoc xs l)
  show ?thesis
  proof (cases "j = length xs")
    case True
    then show ?thesis by (simp add: snoc)
  next
    case False
    with assms snoc have j: "j < length xs" by simp
    then have "pool[j := last pool] = xs[j := l] @ [l]"
      by (simp add: snoc list_update_append)
    then have "mset (butlast (pool[j := last pool])) = mset (xs[j := l])"
      by simp
    also have "\<dots> = add_mset l (mset xs - {#xs ! j#})"
      using j by (simp add: mset_update)
    finally show ?thesis
      using j by (simp add: snoc nth_append)
  qed
qed

lemma sample_loop_mset:
  "k \<le> length pool \<Longrightarrow> mset (fst (sample_loop rb x pool k)) \<subseteq># mset pool"
proof (induction k arbitrary: x pool)
  case 0
  then show ?case by simp
next
  case (Suc k)
  obtain r x1 where rb: "rb x (length pool) = (r, x1)"
    by (cases "rb x (length pool)")
  let ?j = "r mod length pool"
  let ?pool' = "butlast (pool[?j := last pool])"
  obtain rest x2 where rec: "sample_loop rb x1 ?pool' k = (rest, x2)"
    by (cases "sample_loop rb x1 ?pool' k")
  from Suc.prems have pos: "0 < length pool" by (cases pool) auto
  then have j: "?j < length pool" by simp
  from Suc.prems have "k \<le> length ?pool'" by simp
  from Suc.IH[OF this, of x1] rec have "mset rest \<subseteq># mset ?pool'"
    by simp
  then have "add_mset (pool ! ?j) (mset rest) \<subseteq># add_mset (pool ! ?j) (mset ?pool')"
    by simp
  with swap_remove_mset[OF j] rb rec show ?case
    by simp
qed

lemma random_sample_mset:
  assumes "random_sample rb x pool k = Inr (chosen, x')"
  shows "mset chosen \<subseteq># mset pool"
  using assms sample_loop_mset[of k pool rb x]
  by (auto simp: random_sample_def split: if_splits)

lemma train_predictor_unfold:
  "train_predictor K s =
     ebind (label_unlabeled_comparisons K (world s)) (\<lambda>x1.
     ebind (random_sample (randbelow K) x1 (labeled_decisive_comparisons K x1)
              (min 128 (length (labeled_decisive_comparisons K x1)))) (\<lambda>(comparisons, x2).
     ebind (sess_run (graph s) (loss_op (graph s)) (sess s) (training_feed K s x2 comparisons))
       (\<lambda>loss.
       write_training_summaries K
         (s\<lparr>world := x2,
            sess := adam_minimize K (sess s) (training_feed K s x2 comparisons),
            elapsed_predictor_training_iters := elapsed_predictor_training_iters s + 1,
            trace := trace s @ [OptimizerStep (length comparisons)]\<rparr>)
         loss)))"
  unfolding train_predictor_def training_feed_def Let_def
  by (rule refl)

lemma train_predictor_step:
  assumes "train_predictor K s = Inr s'"
      and "label_unlabeled_comparisons K (world s) = Inr x1"
  shows "\<exists>comparisons x2 loss evs.
           random_sample (randbelow K) x1 (labeled_decisive_comparisons K x1)
              (min 128 (length (labeled_decisive_comparisons K x1))) = Inr (comparisons, x2)
         \<and> sess_run (graph s) (loss_op (graph s)) (sess s) (training_feed K s x2 comparisons)
              = Inr loss
         \<and> sess s' = adam_minimize K (sess s) (training_feed K s x2 comparisons)
         \<and> elapsed_predictor_training_iters s' = elapsed_predictor_training_iters s + 1
         \<and> trace s' = trace s @ OptimizerStep (length comparisons)
                                # Logged ''predictor/loss'' loss # evs
         \<and> list_all is_logged evs"
proof -
  from assms obtain comparisons x2 loss where
    smp: "random_sample (randbelow K) x1 (labeled_decisive_comparisons K x1)
              (min 128 (length (labeled_decisive_comparisons K x1))) = Inr (comparisons, x2)"
    and run: "sess_run (graph s) (loss_op (graph s)) (sess s) (training_feed K s x2 comparisons)
              = Inr loss"
    and w: "write_training_summaries K
              (s\<lparr>world := x2,
                 sess := adam_minimize K (sess s) (training_feed K s x2 comparisons),
                 elapsed_predictor_training_iters := elapsed_predictor_training_iters s + 1,
                 trace := trace s @ [OptimizerStep (length comparisons)]\<rparr>) loss = Inr s'"
    unfolding train_predictor_def training_feed_def Let_def
    by (auto simp: ebind_eq_Inr)
  from write_training_summaries_trace[OF w] obtain evs where
    "trace s' = trace s @ OptimizerStep (length comparisons) # Logged ''predictor/loss'' loss # evs"
    "list_all is_logged evs"
    by auto
  moreover from write_training_summaries_events[OF w] have
    "sess s' = adam_minimize K (sess s) (training_feed K s x2 comparisons)"
    "elapsed_predictor_training_iters s' = elapsed_predictor_training_iters s + 1"
    by simp_all
  ultimately show ?thesis
    using smp run by blast
qed

lemma empty_feed_rejected:
  assumes "build_model net oshape discrete ashape = Inr g"
  shows "\<not> feedable (obs_placeholder_shape g) (Some (np_asarray elem_shape conv []))"
proof (rule build_model_Inr[OF assms])
  fix n rest
  assume "g = \<lparr>obs_placeholder_shape = [None, None] @ map Some oshape,
          act_placeholder_shape = [None, None],
          q_value = stream_q_value net (n # rest) segment_obs_placeholder
                      (one_hot_tensor n segment_act_placeholder),
          loss_op = pairwise_loss
                      (stream_q_value net (n # rest) segment_obs_placeholder
                         (one_hot_tensor n segment_act_placeholder))
                      (stream_q_value net (n # rest) segment_alt_obs_placeholder
                         (one_hot_tensor n segment_alt_act_placeholder))\<rparr>"
  then show ?thesis
    by (simp add: feedable_def np_asarray_def np_shape_def is_compatible_with_def)
qed

text \<open>
  C2 (as amended). For a predictor as constructed: the minibatch has
  \<open>min(128, pool size)\<close> comparisons. A call that returns has drawn exactly that many
  comparisons from a non-empty pool, without replacement, has fed their segments and
  labels to \<open>Session.run\<close>, has run one optimization step on that feed (the weights after
  the call are those of one run of \<open>train_op\<close> on it), has incremented the iteration count
  by one, and has logged the loss of that feed. An empty pool is not special-cased: the
  empty arrays go to \<open>Session.run\<close>, whose feed check rejects them, so the call raises
  and no optimization step runs.
\<close>

theorem train_predictor_minibatch:
  assumes "build_model (network_run K) (obs_shape s) (discrete_action_space s) (act_shape s)
             = Inr (graph s)"
      and "label_unlabeled_comparisons K (world s) = Inr x1"
  shows "(\<forall>s'. train_predictor K s = Inr s' \<longrightarrow>
            labeled_decisive_comparisons K x1 \<noteq> []
          \<and> (\<exists>comparisons x2 loss evs.
                random_sample (randbelow K) x1 (labeled_decisive_comparisons K x1)
                  (min 128 (length (labeled_decisive_comparisons K x1))) = Inr (comparisons, x2)
              \<and> length comparisons = min 128 (length (labeled_decisive_comparisons K x1))
              \<and> mset comparisons \<subseteq># mset (labeled_decisive_comparisons K x1)
              \<and> sess_run (graph s) (loss_op (graph s)) (sess s)
                    (training_feed K s x2 comparisons) = Inr loss
              \<and> sess s' = adam_minimize K (sess s) (training_feed K s x2 comparisons)
              \<and> elapsed_predictor_training_iters s' = elapsed_predictor_training_iters s + 1
              \<and> new_events s s'
                  = OptimizerStep (min 128 (length (labeled_decisive_comparisons K x1)))
                    # Logged ''predictor/loss'' loss # evs
              \<and> list_all is_logged evs))
       \<and> (labeled_decisive_comparisons K x1 = [] \<longrightarrow>
            train_predictor K s = Inl (FeedShapeError ''obs_placeholder''))"
proof -
  have empty: "train_predictor K s = Inl (FeedShapeError ''obs_placeholder'')"
    if "labeled_decisive_comparisons K x1 = []"
    using that
    by (simp add: train_predictor_def assms(2) random_sample_def sess_run_def obs_array_def
          Let_def empty_feed_rejected[OF assms(1)])
  have full: "labeled_decisive_comparisons K x1 \<noteq> []
          \<and> (\<exists>comparisons x2 loss evs.
                random_sample (randbelow K) x1 (labeled_decisive_comparisons K x1)
                  (min 128 (length (labeled_decisive_comparisons K x1))) = Inr (comparisons, x2)
              \<and> length comparisons = min 128 (length (labeled_decisive_comparisons K x1))
              \<and> mset comparisons \<subseteq># mset (labeled_decisive_comparisons K x1)
              \<and> sess_run (graph s) (loss_op (graph s)) (sess s)
                    (training_feed K s x2 comparisons) = Inr loss
              \<and> sess s' = adam_minimize K (sess s) (training_feed K s x2 comparisons)
              \<and> elapsed_predictor_training_iters s' = elapsed_predictor_training_iters s + 1
              \<and> new_events s s'
                  = OptimizerStep (min 128 (length (labeled_decisive_comparisons K x1)))
                    # Logged ''predictor/loss'' loss # evs
              \<and> list_all is_logged evs)"
    if ok: "train_predictor K s = Inr s'" for s'
  proof
    show "labeled_decisive_comparisons K x1 \<noteq> []"
      using empty ok by auto
    from train_predictor_step[OF ok assms(2)] obtain comparisons x2 loss evs where
      smp: "random_sample (randbelow K) x1 (labeled_decisive_comparisons K x1)
              (min 128 (length (labeled_decisive_comparisons K x1))) = Inr (comparisons, x2)"
      and run: "sess_run (graph s) (loss_op (graph s)) (sess s) (training_feed K s x2 comparisons)
              = Inr loss"
      and opt: "sess s' = adam_minimize K (sess s) (training_feed K s x2 comparisons)"
      and it: "elapsed_predictor_training_iters s' = elapsed_predictor_training_iters s + 1"
      and tr: "trace s' = trace s @ OptimizerStep (length comparisons)
                                # Logged ''predictor/loss'' loss # evs"
        "list_all is_logged evs"
      by blast
    from random_sample_Inr[OF smp] have len:
      "length comparisons = min 128 (length (labeled_decisive_comparisons K x1))"
      by simp
    from tr(1) have ne: "new_events s s'
                  = OptimizerStep (min 128 (length (labeled_decisive_comparisons K x1)))
                    # Logged ''predictor/loss'' loss # evs"
      by (simp add: new_events_def len)
    from smp len random_sample_mset[OF smp] run opt it ne tr(2)
    show "\<exists>comparisons x2 loss evs.
                random_sample (randbelow K) x1 (labeled_decisive_comparisons K x1)
                  (min 128 (length (labeled_decisive_comparisons K x1))) = Inr (comparisons, x2)
              \<and> length comparisons = min 128 (length (labeled_decisive_comparisons K x1))
              \<and> mset comparisons \<subseteq># mset (labeled_decisive_comparisons K x1)
              \<and> sess_run (graph s) (loss_op (graph s)) (sess s)
                    (training_feed K s x2 comparisons) = Inr loss
              \<and> sess s' = adam_minimize K (sess s) (training_feed K s x2 comparisons)
              \<and> elapsed_predictor_training_iters s' = elapsed_predictor_training_iters s + 1
              \<and> new_events s s'
                  = OptimizerStep (min 128 (length (labeled_decisive_comparisons K x1)))
                    # Logged ''predictor/loss'' loss # evs
              \<and> list_all is_logged evs"
      by blast
  qed
  from empty full show ?thesis by blast
qed

lemma toy_wf: "build_model (network_run toy) (obs_shape toy_predictor)
     (discrete_action_space toy_predictor) (act_shape toy_predictor) = Inr (graph toy_predictor)"
  by (simp add: toy_simps toy_predictor_def toy_build)

text \<open>
  The claim as stated fails: with no labelled comparison the call is no no-op, it raises
  in \<open>Session.run\<close>.
\<close>

theorem empty_pool_raises:
  "labeled_decisive_comparisons toy (world toy_empty) = []
   \<and> train_predictor toy toy_empty = Inl (FeedShapeError ''obs_placeholder'')"
proof -
  have "train_predictor toy toy_empty = Inl (FeedShapeError ''obs_placeholder'')"
    by (simp add: train_predictor_def toy_simps toy_empty_def random_sample_def sess_run_def
          obs_array_def toy_predictor_def toy_graph_def feedable_def np_asarray_def np_shape_def
          is_compatible_with_def)
  then show ?thesis
    by (simp add: toy_simps toy_empty_def)
qed

text \<open>The loss of the small graph evaluates on every rectangular batch of scalar actions.\<close>

lemma length_concat_const:
  "\<forall>x\<in>set xs. length x = n \<Longrightarrow> length (concat xs) = length xs * n"
  by (induction xs) simp_all

lemma np_shape_rect:
  assumes "rows \<noteq> []" "\<forall>r\<in>set rows. length r = T" "0 < T"
      and "\<forall>r\<in>set rows. \<forall>e\<in>set r. elem_shape e = sh"
  shows "np_shape elem_shape rows = Some ([length rows, T] @ sh)"
  using assms
  by (auto simp: np_shape_def list_all_iff split: list.splits)

lemma toy_stream_returns:
  assumes "lobs \<noteq> []" "\<forall>r\<in>set lobs. length r = T"
      and "length lact = length lobs"
      and "\<forall>r\<in>set lact. length r = T \<and> (\<forall>a\<in>set r. \<exists>x. a = Scalar x)"
      and "obs_ph fd = Some (np_asarray (\<lambda>ob. []) (\<lambda>ob. ob) lobs)"
      and "act_ph fd = Some (act_array lact)"
  shows "\<exists>q. stream_q_value toy_net [2] obs_ph (one_hot_tensor 2 act_ph) w fd = Inr q
           \<and> length q = length lobs"
proof -
  let ?cells = "tf_one_hot_cells 2 (map (map action_entries) lact)"
  have cell: "\<forall>c\<in>set (concat ?cells). length c = 2"
  proof
    fix c
    assume "c \<in> set (concat ?cells)"
    then obtain r a where ra: "r \<in> set lact" "a \<in> set r"
      and c: "c = concat (map (\<lambda>x. tf_one_hot (tf_cast_int32 x) 2) (action_entries a))"
      by (auto simp: tf_one_hot_cells_def)
    from assms(4) ra obtain x where "a = Scalar x"
      by blast
    with c show "length c = 2"
      by (simp add: tf_one_hot_def)
  qed
  have rows: "\<forall>r\<in>set ?cells. length r = T"
    using assms(4) by (auto simp: tf_one_hot_cells_def)
  have n: "length (concat ?cells) = length lobs * T"
    using length_concat_const[OF rows] assms(3) by (simp add: tf_one_hot_cells_def)
  have flat: "length (concat (concat ?cells)) = (length lobs * T) * 2"
    using length_concat_const[OF cell] n by simp
  have obs_len: "length (concat lobs) = length lobs * T"
    using length_concat_const[OF assms(2)] .
  have seg: "(case lobs of [] \<Rightarrow> 0 | seg # _ \<Rightarrow> length seg) = T"
    using assms(1,2) by (cases lobs) auto
  show ?thesis
    by (simp add: stream_q_value_def one_hot_tensor_def placeholder_value_def assms(5,6)
          np_asarray_def act_array_def predict_rewards_def tf_reshape_rows_def Let_def flat
          toy_net_def obs_len seg tf_reshape2_def)
qed

lemma labels_in_range:
  assumes "\<forall>row\<in>set logits. length row = 2" "\<forall>y\<in>set ys. y = 0 \<or> y = 1"
  shows "list_all (\<lambda>(row, y). label_in_range row y) (zip logits ys)"
  unfolding list_all_iff
proof
  fix p
  assume p: "p \<in> set (zip logits ys)"
  obtain row y where py: "p = (row, y)"
    by (cases p)
  from p py have "row \<in> set logits" "y \<in> set ys"
    by (auto dest: set_zip_leftD set_zip_rightD)
  with assms have "length row = 2" "y = 0 \<or> y = 1"
    by auto
  then show "case p of (row, y) \<Rightarrow> label_in_range row y"
    by (auto simp: py label_in_range_def)
qed

lemma toy_feedable:
  assumes "rows \<noteq> []" "\<forall>r\<in>set rows. length r = T" "0 < T"
  shows "feedable [None, None] (Some (np_asarray (\<lambda>ob. []) conv rows))"
  using np_shape_rect[OF assms, of "\<lambda>ob. []" "[]"]
  by (simp add: feedable_def np_asarray_def is_compatible_with_def)

lemma toy_feedable_act:
  assumes "rows \<noteq> []" "\<forall>r\<in>set rows. length r = T \<and> (\<forall>a\<in>set r. \<exists>x. a = Scalar x)" "0 < T"
  shows "feedable [None, None] (Some (act_array rows))"
proof -
  have sc: "\<forall>r\<in>set rows. \<forall>e\<in>set r. action_shape e = []"
  proof (intro ballI)
    fix r e
    assume "r \<in> set rows" "e \<in> set r"
    with assms(2) obtain x where "e = Scalar x"
      by blast
    then show "action_shape e = []"
      by simp
  qed
  from assms(2) have len: "\<forall>r\<in>set rows. length r = T"
    by blast
  have "np_shape action_shape rows = Some ([length rows, T] @ [])"
    by (rule np_shape_rect[OF assms(1) len assms(3) sc])
  then show ?thesis
    by (simp add: feedable_def act_array_def np_asarray_def is_compatible_with_def)
qed

lemma toy_loss_returns:
  assumes "lobs \<noteq> []" "0 < T" "\<forall>r\<in>set lobs. length r = T" "\<forall>r\<in>set robs. length r = T"
      and "length lact = length lobs" "length robs = length lobs" "length ract = length lobs"
      and "\<forall>r\<in>set lact. length r = T \<and> (\<forall>a\<in>set r. \<exists>x. a = Scalar x)"
      and "\<forall>r\<in>set ract. length r = T \<and> (\<forall>a\<in>set r. \<exists>x. a = Scalar x)"
      and "length ys = length lobs" "\<forall>y\<in>set ys. y = 0 \<or> y = 1"
  shows "\<exists>loss. sess_run toy_graph (loss_op toy_graph) w
            \<lparr>segment_obs_placeholder = Some (np_asarray (\<lambda>ob. []) (\<lambda>ob. ob) lobs),
             segment_act_placeholder = Some (act_array lact),
             segment_alt_obs_placeholder = Some (np_asarray (\<lambda>ob. []) (\<lambda>ob. ob) robs),
             segment_alt_act_placeholder = Some (act_array ract),
             labels = Some ys,
             learning_phase = ph\<rparr> = Inr loss"
proof -
  let ?fd = "\<lparr>segment_obs_placeholder = Some (np_asarray (\<lambda>ob. []) (\<lambda>ob. ob) lobs),
             segment_act_placeholder = Some (act_array lact),
             segment_alt_obs_placeholder = Some (np_asarray (\<lambda>ob. []) (\<lambda>ob. ob) robs),
             segment_alt_act_placeholder = Some (act_array ract),
             labels = Some ys,
             learning_phase = ph\<rparr>"
  from assms have ne: "lact \<noteq> []" "robs \<noteq> []" "ract \<noteq> []"
    by auto
  have f: "feedable [None, None] (segment_obs_placeholder ?fd)"
    "feedable [None, None] (segment_act_placeholder ?fd)"
    "feedable [None, None] (segment_alt_obs_placeholder ?fd)"
    "feedable [None, None] (segment_alt_act_placeholder ?fd)"
    using toy_feedable[OF assms(1,3,2)] toy_feedable[OF ne(2) assms(4,2)]
      toy_feedable_act[OF ne(1) assms(8,2)] toy_feedable_act[OF ne(3) assms(9,2)]
    by simp_all
  from toy_stream_returns[of lobs T lact segment_obs_placeholder ?fd segment_act_placeholder w]
    assms obtain q where
    q: "stream_q_value toy_net [2] segment_obs_placeholder
          (one_hot_tensor 2 segment_act_placeholder) w ?fd = Inr q" "length q = length lobs"
    by auto
  from toy_stream_returns[of robs T ract segment_alt_obs_placeholder ?fd
      segment_alt_act_placeholder w]
    assms ne obtain aq where
    aq: "stream_q_value toy_net [2] segment_alt_obs_placeholder
          (one_hot_tensor 2 segment_alt_act_placeholder) w ?fd = Inr aq" "length aq = length lobs"
    by auto
  let ?logits = "map (\<lambda>(x, y). [x, y]) (zip (map sum_list q) (map sum_list aq))"
  have rng: "list_all (\<lambda>(row, y). label_in_range row y) (zip ?logits ys)"
    by (rule labels_in_range) (use assms(11) in auto)
  from q(2) aq(2) assms(1,10) have nz: "q \<noteq> []" "aq \<noteq> []" "ys \<noteq> []"
    by auto
  have "loss_op toy_graph w ?fd \<noteq> Inl e" for e
    using q aq rng assms(1,10) nz
    by (simp add: toy_graph_def pairwise_loss_def tf_stack_axis1_def tf_reduce_sum_axis1_def
          labels_value_def sparse_softmax_cross_entropy_with_logits_def tf_reduce_mean_def)
  then obtain loss where "loss_op toy_graph w ?fd = Inr loss"
    by (cases "loss_op toy_graph w ?fd") auto
  with f show ?thesis
    by (simp add: sess_run_def toy_graph_def)
qed

lemma toy_trainer_simps:
  "network_run toy_trainer = toy_net"
  "adam_minimize toy_trainer w fd = w + (case labels fd of None \<Rightarrow> 0 | Some ys \<Rightarrow> int (length ys))"
  "label_unlabeled_comparisons toy_trainer x = Inr x"
  "labeled_decisive_comparisons toy_trainer x = tw_comparisons x"
  "get_segment toy_trainer x i = tw_segments x ! i"
  "randbelow toy_trainer x n = (0, x)"
  "log_simple toy_trainer x k v = Inr (x\<lparr>tw_log := tw_log x @ [(k, v)]\<rparr>)"
  "get_recent_paths_with_padding toy_trainer x = tw_recent x"
  "summary_step toy_trainer x = tw_summary_step x"
  "n_desired_labels toy_trainer x = tw_desired x"
  "collector_len toy_trainer x = length (tw_comparisons x)"
  by (simp_all add: toy_trainer_def toy_def)

lemma sample_loop_world:
  assumes "\<And>y n. snd (rb y n) = y"
  shows "snd (sample_loop rb x pool k) = x"
proof (induction k arbitrary: pool)
  case 0
  then show ?case by simp
next
  case (Suc k)
  obtain r x1 where rb: "rb x (length pool) = (r, x1)"
    by (cases "rb x (length pool)")
  with assms[of x "length pool"] have x1: "x1 = x"
    by simp
  obtain rest x2 where rec:
    "sample_loop rb x (butlast (pool[r mod length pool := last pool])) k = (rest, x2)"
    by (cases "sample_loop rb x (butlast (pool[r mod length pool := last pool])) k")
  with Suc[of "butlast (pool[r mod length pool := last pool])"] have "x2 = x"
    by simp
  with rb rec x1 show ?case
    by simp
qed

lemma toy_sample_world: "snd (sample_loop (randbelow toy_trainer) x pool k) = x"
  by (rule sample_loop_world) (simp add: toy_trainer_simps)

lemma obs_shape_crowded: "obs_shape toy_crowded = []"
  by (simp add: toy_crowded_def toy_predictor_def)

lemma toy_crowded_pool:
  "length (tw_comparisons (world toy_crowded)) = 130"
  "c \<in> set (tw_comparisons (world toy_crowded)) \<Longrightarrow>
     left c < 2 \<and> right c < 2 \<and> (label c = 0 \<or> label c = 1)"
  by (auto simp: toy_crowded_def)

lemma toy_crowded_train:
  "\<exists>s'. train_predictor toy_trainer toy_crowded = Inr s'"
proof -
  let ?x = "world toy_crowded"
  let ?pool = "tw_comparisons ?x"
  obtain cs x2 where sl: "sample_loop (randbelow toy_trainer) ?x ?pool 128 = (cs, x2)"
    by (cases "sample_loop (randbelow toy_trainer) ?x ?pool 128")
  with toy_sample_world[of ?x ?pool 128] have x2: "x2 = ?x"
    by simp
  have rs: "random_sample (randbelow toy_trainer) ?x ?pool 128 = Inr (cs, ?x)"
    using sl x2 by (simp add: random_sample_def toy_crowded_pool)
  from random_sample_Inr[OF rs] have len: "length cs = 128"
    by simp
  from random_sample_mset[OF rs] have "set_mset (mset cs) \<subseteq> set_mset (mset ?pool)"
    by (rule set_mset_mono)
  then have sub: "set cs \<subseteq> set ?pool"
    by simp
  have cs: "left c < 2 \<and> right c < 2 \<and> (label c = 0 \<or> label c = 1)" if "c \<in> set cs" for c
    using that sub toy_crowded_pool(2) by blast
  have segs: "tw_segments ?x = [\<lparr>seg_obs = [1, 2], seg_actions = [Scalar 0, Scalar 1]\<rparr>,
                     \<lparr>seg_obs = [3, 4], seg_actions = [Scalar 1, Scalar 1]\<rparr>]"
    by (simp add: toy_crowded_def toy_world0_def)
  have seg: "length (seg_obs (tw_segments ?x ! i)) = 2
      \<and> length (seg_actions (tw_segments ?x ! i)) = 2
      \<and> (\<forall>a\<in>set (seg_actions (tw_segments ?x ! i)). \<exists>v. a = Scalar v)" if "i < 2" for i
  proof -
    from that have "i = 0 \<or> i = 1" by auto
    then show ?thesis
      by (auto simp: segs)
  qed
  have "\<exists>loss. sess_run toy_graph (loss_op toy_graph) (sess toy_crowded)
            (training_feed toy_trainer toy_crowded ?x cs) = Inr loss"
    unfolding training_feed_def Let_def obs_array_def toy_trainer_simps obs_shape_crowded
    by (rule toy_loss_returns[where T = 2]) (use len cs seg in auto)
  then obtain loss where run: "sess_run (graph toy_crowded) (loss_op (graph toy_crowded))
       (sess toy_crowded) (training_feed toy_trainer toy_crowded ?x cs) = Inr loss"
    by (auto simp: toy_crowded_def toy_predictor_def)
  have rec: "tw_recent ?x = []"
    by (simp add: toy_crowded_def toy_world0_def)
  show ?thesis
    unfolding train_predictor_unfold
    by (simp add: toy_trainer_simps toy_crowded_pool rs run write_training_summaries_def
          call_log_simple_def rec)
qed

lemma toy_crowded_wf:
  "build_model (network_run toy_trainer) (obs_shape toy_crowded)
     (discrete_action_space toy_crowded) (act_shape toy_crowded) = Inr (graph toy_crowded)"
  by (simp add: toy_trainer_simps toy_crowded_def toy_predictor_def toy_build)

text \<open>
  A pool of 130 comparisons gives one optimization step on a minibatch of 128: the
  optimizer of this instance moves the weight by the number of labels fed, from 1 to
  129. An empty pool gives the error.
\<close>

theorem train_predictor_minibatch_witness:
  "build_model (network_run toy_trainer) (obs_shape toy_crowded)
      (discrete_action_space toy_crowded) (act_shape toy_crowded) = Inr (graph toy_crowded)
   \<and> label_unlabeled_comparisons toy_trainer (world toy_crowded) = Inr (world toy_crowded)
   \<and> length (labeled_decisive_comparisons toy_trainer (world toy_crowded)) = 130
   \<and> sess toy_crowded = 1
   \<and> (\<exists>s' loss evs. train_predictor toy_trainer toy_crowded = Inr s'
         \<and> sess s' = 129
         \<and> elapsed_predictor_training_iters s' = 1
         \<and> new_events toy_crowded s' = OptimizerStep 128 # Logged ''predictor/loss'' loss # evs
         \<and> list_all is_logged evs)
   \<and> build_model (network_run toy) (obs_shape toy_empty) (discrete_action_space toy_empty)
      (act_shape toy_empty) = Inr (graph toy_empty)
   \<and> label_unlabeled_comparisons toy (world toy_empty) = Inr (world toy_empty)
   \<and> labeled_decisive_comparisons toy (world toy_empty) = []
   \<and> train_predictor toy toy_empty = Inl (FeedShapeError ''obs_placeholder'')"
proof -
  have l: "label_unlabeled_comparisons toy_trainer (world toy_crowded) = Inr (world toy_crowded)"
    by (simp add: toy_trainer_simps)
  have pool: "length (labeled_decisive_comparisons toy_trainer (world toy_crowded)) = 130"
    by (simp add: toy_trainer_simps toy_crowded_pool)
  have w0: "sess toy_crowded = 1" "elapsed_predictor_training_iters toy_crowded = 0"
    by (simp_all add: toy_crowded_def toy_predictor_def)
  from toy_crowded_train obtain s' where
    tr: "train_predictor toy_trainer toy_crowded = Inr s'" by blast
  from train_predictor_minibatch[OF toy_crowded_wf l] tr obtain comparisons x2 loss evs where
    len: "length comparisons = min 128 (length (labeled_decisive_comparisons toy_trainer (world toy_crowded)))"
    and opt: "sess s' = adam_minimize toy_trainer (sess toy_crowded)
                 (training_feed toy_trainer toy_crowded x2 comparisons)"
    and it: "elapsed_predictor_training_iters s' = elapsed_predictor_training_iters toy_crowded + 1"
    and ev: "new_events toy_crowded s'
                  = OptimizerStep (min 128 (length (labeled_decisive_comparisons toy_trainer (world toy_crowded))))
                    # Logged ''predictor/loss'' loss # evs"
      "list_all is_logged evs"
    by blast
  from opt have "sess s' = 129"
    by (simp add: toy_trainer_simps training_feed_def len toy_crowded_pool w0)
  with tr it ev have a: "\<exists>s' loss evs. train_predictor toy_trainer toy_crowded = Inr s'
         \<and> sess s' = 129
         \<and> elapsed_predictor_training_iters s' = 1
         \<and> new_events toy_crowded s' = OptimizerStep 128 # Logged ''predictor/loss'' loss # evs
         \<and> list_all is_logged evs"
    by (simp add: toy_trainer_simps toy_crowded_pool w0)
  have wf: "build_model (network_run toy) (obs_shape toy_empty) (discrete_action_space toy_empty)
      (act_shape toy_empty) = Inr (graph toy_empty)"
    using toy_wf by (simp add: toy_empty_def)
  have le: "label_unlabeled_comparisons toy (world toy_empty) = Inr (world toy_empty)"
    by (simp add: toy_simps)
  have pe: "labeled_decisive_comparisons toy (world toy_empty) = []"
    by (simp add: toy_simps toy_empty_def)
  from train_predictor_minibatch[OF wf le] pe
  have "train_predictor toy toy_empty = Inl (FeedShapeError ''obs_placeholder'')"
    by blast
  with toy_crowded_wf l pool w0(1) a wf le pe show ?thesis
    by blast
qed

subsection \<open>The baseline predictor\<close>

text \<open>
  C9. For every path, \<open>predict_reward\<close> of the baseline predictor returns the path's
  \<open>original_rewards\<close> sequence itself and leaves the predictor as it was; \<open>path_callback\<close>
  leaves the predictor as it was, after one call and after any sequence of calls.
\<close>

theorem trad_predictor_passthrough:
  "fst (trad_predict_reward self path) = original_rewards path
   \<and> snd (trad_predict_reward self path) = self
   \<and> trad_path_callback self path = self
   \<and> foldl trad_path_callback self paths = self"
proof -
  have "foldl trad_path_callback self paths = self"
    by (induction paths) (simp_all add: trad_path_callback_def)
  then show ?thesis
    by (simp add: trad_predict_reward_def trad_path_callback_def)
qed

end
